(* ===== verification/Prelude.thy ===== *)
theory Prelude
  imports Main "HOL-Library.Word" "HOL-Library.Stream"
begin

unbundle bit_operations_syntax

text \<open>
  Shared vocabulary of the development: the machine integer types of the Rust program
  (\<open>u8\<close> to \<open>u64\<close> as words), byte strings, 32-byte hashes, the little-endian byte
  layout that the SCALE codec uses for fixed-width integers, and Rust's \<open>Ord::clamp\<close>.
  The lemmas here are the generic facts every codec proof of the components uses: the
  little-endian layout is a bijection on numbers below \<open>256 ^ k\<close>.
\<close>

type_synonym u8 = "8 word"
type_synonym u16 = "16 word"
type_synonym u32 = "32 word"
type_synonym u64 = "64 word"
type_synonym byte = u8
type_synonym bytes = "byte list"

text \<open>\<open>H256\<close>, the \<open>Hash\<close> type of \<open>DefaultRuntimeConfig\<close>: 32 raw bytes.\<close>
type_synonym hash = bytes

named_theorems codec_simps "evaluation rules of the byte codecs"

definition hash_wf :: "hash \<Rightarrow> bool" where
  "hash_wf h \<longleftrightarrow> length h = 32"

text \<open>A byte-string literal \<open>b"..."\<close> of ASCII characters.\<close>

definition bytes_lit :: "string \<Rightarrow> bytes" where
  "bytes_lit s = map (\<lambda>c. word_of_nat (of_char c)) s"

text \<open>Rust's \<open>Ord::clamp(self, min, max)\<close> (its \<open>min \<le> max\<close> assertion holds at every use here).\<close>

definition clamp :: "'a::linorder \<Rightarrow> 'a \<Rightarrow> 'a \<Rightarrow> 'a" where
  "clamp x lo hi = (if x < lo then lo else if hi < x then hi else x)"

subsection \<open>Little-endian byte layout\<close>

text \<open>The \<open>k\<close> low bytes of \<open>n\<close>, least significant first, and the number a byte string denotes.\<close>

fun le_encode :: "nat \<Rightarrow> nat \<Rightarrow> bytes" where
  "le_encode 0 n = []"
| "le_encode (Suc k) n = word_of_nat (n mod 256) # le_encode k (n div 256)"

fun le_decode :: "bytes \<Rightarrow> nat" where
  "le_decode [] = 0"
| "le_decode (b # bs) = unat b + 256 * le_decode bs"

text \<open>
  Errors of the SCALE decoders (\<open>parity_scale_codec::Error\<close>, a message in the library):
  input exhausted, an era whose period and phase do not fit, a compact integer out of its
  canonical range, bytes left over, an index that the metadata does not know, a
  transaction version other than signed version 4, and an address or signature variant
  other than the \<open>AccountId32\<close> and sr25519 ones the program produces.
\<close>

datatype codec_error =
    EndOfInput | InvalidEra | CompactOutOfRange | TrailingBytes | UnknownPallet | UnknownCall
  | InvalidVersion | UnsupportedAddress | UnsupportedSignature

text \<open>\<open>Input::read_byte\<close> and \<open>Input::read\<close> of \<open>n\<close> bytes.\<close>

fun read_byte :: "bytes \<Rightarrow> codec_error + (byte \<times> bytes)" where
  "read_byte [] = Inl EndOfInput"
| "read_byte (b # bs) = Inr (b, bs)"

definition read_bytes :: "nat \<Rightarrow> bytes \<Rightarrow> codec_error + (bytes \<times> bytes)" where
  "read_bytes n bs = (if length bs < n then Inl EndOfInput else Inr (take n bs, drop n bs))"

text \<open>SCALE layout of the fixed-width integers: their little-endian bytes.\<close>

definition encode_u16 :: "u16 \<Rightarrow> bytes" where
  "encode_u16 w = le_encode 2 (unat w)"

definition encode_u32 :: "u32 \<Rightarrow> bytes" where
  "encode_u32 w = le_encode 4 (unat w)"

definition encode_u64 :: "u64 \<Rightarrow> bytes" where
  "encode_u64 w = le_encode 8 (unat w)"

subsection \<open>Lemmas\<close>

lemma clamp_bounds:
  "lo \<le> hi \<Longrightarrow> lo \<le> clamp x lo hi \<and> clamp x lo hi \<le> hi"
  by (auto simp: clamp_def)

lemma clamp_id [simp]:
  "lo \<le> x \<Longrightarrow> x \<le> hi \<Longrightarrow> clamp x lo hi = x"
  by (auto simp: clamp_def)

lemma read_bytes_append [simp]: "length xs = n \<Longrightarrow> read_bytes n (xs @ ys) = Inr (xs, ys)"
  by (simp add: read_bytes_def)

lemma length_le_encode [simp]: "length (le_encode k n) = k"
  by (induction k arbitrary: n) auto

lemma unat_byte_mod [simp]: "unat (word_of_nat (n mod 256) :: byte) = n mod 256"
  by (simp add: unat_of_nat)

lemma le_decode_encode [simp]: "le_decode (le_encode k n) = n mod 256 ^ k"
proof (induction k arbitrary: n)
  case 0
  then show ?case by simp
next
  case (Suc k)
  have "n mod 256 + 256 * (n div 256 mod 256 ^ k) = n mod (256 * 256 ^ k)"
    by (simp add: mod_mult2_eq)
  with Suc show ?case by simp
qed

lemma le_decode_encode_small: "n < 256 ^ k \<Longrightarrow> le_decode (le_encode k n) = n"
  by simp

lemma le_decode_bound: "le_decode bs < 256 ^ length bs"
proof (induction bs)
  case Nil
  then show ?case by simp
next
  case (Cons b bs)
  have "unat b < 256" using unsigned_less [of b] by simp
  with Cons show ?case by simp
qed

lemma le_encode_decode [simp]: "le_encode (length bs) (le_decode bs) = bs"
proof (induction bs)
  case Nil
  then show ?case by simp
next
  case (Cons b bs)
  have b: "unat b < 256" using unsigned_less [of b] by simp
  then have "(unat b + 256 * le_decode bs) mod 256 = unat b"
    and "(unat b + 256 * le_decode bs) div 256 = le_decode bs" by simp_all
  with Cons show ?case by simp
qed

lemma le_encode_inj:
  "n < 256 ^ k \<Longrightarrow> m < 256 ^ k \<Longrightarrow> le_encode k n = le_encode k m \<Longrightarrow> n = m"
  by (metis le_decode_encode_small)


text \<open>A successful read splits its input.\<close>

lemma read_byte_Inr: "read_byte bs = Inr (b, r) \<Longrightarrow> bs = b # r"
  by (cases bs) simp_all

lemma read_bytes_Inr: "read_bytes n bs = Inr (a, r) \<Longrightarrow> bs = a @ r \<and> length a = n"
  by (auto simp: read_bytes_def split: if_splits)

subsection \<open>Lookup by a key\<close>

text \<open>\<open>find\<close> on a list whose keys are distinct returns the element with that key.\<close>

lemma find_distinct_key:
  "distinct (map f xs) \<Longrightarrow> x \<in> set xs \<Longrightarrow> find (\<lambda>y. f y = f x) xs = Some x"
  by (induction xs) (auto simp: image_iff)

subsection \<open>Words\<close>

lemma unat_pow2: "n < LENGTH('a) \<Longrightarrow> unat ((2::'a::len word) ^ n) = 2 ^ n"
proof -
  assume n: "n < LENGTH('a)"
  have "(2::'a word) ^ n = word_of_nat (2 ^ n)" by simp
  moreover have "unat (word_of_nat (2 ^ n) :: 'a word) = 2 ^ n mod 2 ^ LENGTH('a)"
    by (rule unat_of_nat)
  moreover have "(2::nat) ^ n < 2 ^ LENGTH('a)" using n by simp
  ultimately show ?thesis by simp
qed

lemma pow2_word_overflow: "64 \<le> k \<Longrightarrow> (2::u64) ^ k = 0"
  by (simp add: exp_eq_zero_iff)

lemma unat_max: "unat (max a b) = max (unat a) (unat b)"
  by (simp add: max_def word_le_nat_alt)

lemma unat_div_mult: "unat (x div q * q) = unat x div unat q * unat q"
proof -
  have "unat x div unat q * unat q \<le> unat x" by (rule div_times_less_eq_dividend)
  also have "unat x < 2 ^ LENGTH('a)" by simp
  finally have "unat (x div q) * unat q < 2 ^ LENGTH('a)" by (simp add: unat_div)
  then show ?thesis by (simp add: unat_mult_lem [THEN iffD1] unat_div)
qed

text \<open>A value below 16 and a value shifted left by four share no bit: their OR is their sum.\<close>

lemma or_low_nibble: "x < 16 \<Longrightarrow> (x::nat) OR push_bit 4 y = x + push_bit 4 y"
proof -
  assume x: "x < 16"
  have "\<not> bit x n \<or> \<not> bit (push_bit 4 y) n" for n
  proof (cases "n < 4")
    case True
    then show ?thesis by (simp add: bit_push_bit_iff)
  next
    case False
    then have "(2::nat) ^ 4 \<le> 2 ^ n" by (intro power_increasing) simp_all
    with x have "x div 2 ^ n = 0" by simp
    then show ?thesis by (simp add: bit_nat_def)
  qed
  then show ?thesis by (simp add: disjunctive_add)
qed

end
