(* ===== verification/Era.thy ===== *)
theory Era
  imports Prelude
begin

unbundle bit_operations_syntax

text \<open>
  The mortality window of a transaction: \<open>sp_runtime::generic::Era\<close>, which
  \<open>src/main.rs\<close> builds at line 81 with \<open>Era::mortal(period, header.number.into())\<close>
  from the hard-coded \<open>period = 5\<close> and the number of the last finalized header.
  Modelled: \<open>Era::mortal\<close> (with \<open>u64::checked_next_power_of_two\<close> and
  \<open>Ord::clamp\<close>), \<open>birth\<close>, \<open>death\<close>, and the two-byte SCALE \<open>Encode\<close>/\<open>Decode\<close>
  of the era, all on \<open>u64\<close> words as in the library.
\<close>

datatype era = Immortal | Mortal u64 u64

subsection \<open>\<open>u64::checked_next_power_of_two\<close>\<close>

text \<open>The exponent of the least power of two, searched upwards from \<open>2 ^ k\<close>, that is at least \<open>n\<close>.\<close>

function pow2_exp_from :: "nat \<Rightarrow> nat \<Rightarrow> nat" where
  "pow2_exp_from n k = (if 2 ^ k < n then pow2_exp_from n (Suc k) else k)"
  by pat_completeness auto
termination
proof (relation "measure (\<lambda>(n, k). n - k)")
  fix n k :: nat
  assume "2 ^ k < n"
  moreover have "k < 2 ^ k" by (rule less_exp)
  ultimately have "k < n" by linarith
  then show "((n, Suc k), n, k) \<in> measure (\<lambda>(n, k). n - k)" by simp
qed simp

declare pow2_exp_from.simps [simp del]

text \<open>
  \<open>None\<close> when the next power of two does not fit in 64 bits; \<open>Some 1\<close> for 0 and 1,
  as in Rust.
\<close>

definition checked_next_power_of_two :: "u64 \<Rightarrow> u64 option" where
  "checked_next_power_of_two x =
     (let k = pow2_exp_from (unat x) 0 in if k < 64 then Some (2 ^ k) else None)"

definition quantize_factor :: "u64 \<Rightarrow> u64" where
  "quantize_factor period = max (drop_bit 12 period) 1"

subsection \<open>\<open>Era::mortal\<close>, \<open>birth\<close>, \<open>death\<close>\<close>

definition mortal :: "u64 \<Rightarrow> u64 \<Rightarrow> era" where
  "mortal period current =
     (let period = clamp (case checked_next_power_of_two period of
                            Some p \<Rightarrow> p
                          | None \<Rightarrow> push_bit 16 1) 4 (push_bit 16 1);
          phase = current mod period;
          quantize_factor = max (drop_bit 12 period) 1;
          quantized_phase = phase div quantize_factor * quantize_factor
      in Mortal period quantized_phase)"

definition birth :: "era \<Rightarrow> u64 \<Rightarrow> u64" where
  "birth e current =
     (case e of
        Immortal \<Rightarrow> 0
      | Mortal period phase \<Rightarrow> (max current phase - phase) div period * period + phase)"

definition death :: "era \<Rightarrow> u64 \<Rightarrow> u64" where
  "death e current =
     (case e of
        Immortal \<Rightarrow> - 1
      | Mortal period _ \<Rightarrow> birth e current + period)"

subsection \<open>SCALE encoding of an era\<close>

text \<open>\<open>u64::trailing_zeros\<close>, a \<open>u32\<close>; 64 for zero.\<close>

fun tz_nat :: "nat \<Rightarrow> nat" where
  "tz_nat n = (if n = 0 \<or> odd n then 0 else Suc (tz_nat (n div 2)))"

declare tz_nat.simps [simp del]

definition trailing_zeros :: "u64 \<Rightarrow> u32" where
  "trailing_zeros w = (if w = 0 then 64 else word_of_nat (tz_nat (unat w)))"

text \<open>
  \<open>Immortal\<close> is the single byte 0; \<open>Mortal\<close> is the \<open>u16\<close> whose low nibble is
  \<open>log2 period - 1\<close> (clamped to 1..15) and whose upper twelve bits are the quantized
  phase, in little-endian order.
\<close>

definition era_encode :: "era \<Rightarrow> bytes" where
  "era_encode e =
     (case e of
        Immortal \<Rightarrow> [0]
      | Mortal period phase \<Rightarrow>
          (let quantize_factor = max (drop_bit 12 period) 1;
               encoded = (ucast (clamp (trailing_zeros period - 1) 1 15) :: u16)
                         OR ucast (push_bit 4 (phase div quantize_factor))
           in encode_u16 encoded))"

definition era_decode :: "bytes \<Rightarrow> codec_error + (era \<times> bytes)" where
  "era_decode input =
     (case read_byte input of
        Inl err \<Rightarrow> Inl err
      | Inr (first, rest) \<Rightarrow>
          (if first = 0 then Inr (Immortal, rest)
           else (case read_byte rest of
                   Inl err \<Rightarrow> Inl err
                 | Inr (second, rest') \<Rightarrow>
                     (let encoded = (ucast first :: u64) + push_bit 8 (ucast second);
                          period = push_bit (unat (encoded mod 16)) (2 :: u64);
                          quantize_factor = max (drop_bit 12 period) 1;
                          phase = drop_bit 4 encoded * quantize_factor
                      in if 4 \<le> period \<and> phase < period
                         then Inr (Mortal period phase, rest')
                         else Inl InvalidEra))))"

subsection \<open>Specification of a mortal era\<close>

text \<open>
  What \<open>Era::mortal\<close> promises, on numbers: the period is \<open>2 ^ era_exp p\<close>, the
  requested period rounded up to a power of two and clamped to \<open>4 .. 65536\<close>; the phase
  is the block number modulo the period, rounded down to a multiple of the quantize
  factor. \<open>era_wf\<close> is the invariant of eras the library builds and decodes: a power of
  two period in that range, a phase below it and on the quantization grid.
\<close>

definition era_exp :: "u64 \<Rightarrow> nat" where
  "era_exp period = clamp (pow2_exp_from (unat period) 0) 2 16"

definition quantum :: "nat \<Rightarrow> nat" where
  "quantum k = max (2 ^ k div 4096) 1"

definition era_wf :: "era \<Rightarrow> bool" where
  "era_wf e =
     (case e of
        Immortal \<Rightarrow> True
      | Mortal period phase \<Rightarrow>
          4 \<le> period \<and> period \<le> 65536 \<and> period = 2 ^ unat (trailing_zeros period)
          \<and> phase < period \<and> phase mod quantize_factor period = 0)"

subsection \<open>Lemmas: the era built by \<open>mortal\<close>\<close>

lemma pow2_exp_from_ge: "n \<le> 2 ^ pow2_exp_from n k"
proof (induction n k rule: pow2_exp_from.induct)
  case (1 n k)
  then show ?case by (subst pow2_exp_from.simps) auto
qed

lemma era_period_word:
  "clamp (case checked_next_power_of_two p of Some q \<Rightarrow> q | None \<Rightarrow> push_bit 16 1) 4 (push_bit 16 1)
   = (2::u64) ^ era_exp p"
proof -
  define K where "K = pow2_exp_from (unat p) 0"
  have w4: "(4::u64) = 2 ^ 2" and w16: "push_bit 16 (1::u64) = 2 ^ 16" by simp_all
  show ?thesis
  proof (cases "K < 64")
    case True
    then have c: "checked_next_power_of_two p = Some (2 ^ K)"
      by (simp add: checked_next_power_of_two_def K_def)
    have u: "unat ((2::u64) ^ K) = 2 ^ K" using True by (simp add: unat_pow2)
    have "((2::u64) ^ K < 2 ^ 2) = ((2::nat) ^ K < 2 ^ 2)" by (simp add: word_less_nat_alt u)
    also have "\<dots> = (K < 2)" by (rule power_strict_increasing_iff) simp
    finally have lt: "((2::u64) ^ K < 2 ^ 2) = (K < 2)" .
    have "((2::u64) ^ 16 < 2 ^ K) = ((2::nat) ^ 16 < 2 ^ K)" by (simp add: word_less_nat_alt u)
    also have "\<dots> = (16 < K)" by (rule power_strict_increasing_iff) simp
    finally have gt: "((2::u64) ^ 16 < 2 ^ K) = (16 < K)" .
    show ?thesis
      using lt gt by (simp only: c w4 w16 option.case clamp_def era_exp_def K_def [symmetric]) auto
  next
    case False
    then have "checked_next_power_of_two p = None"
      by (simp add: checked_next_power_of_two_def K_def)
    with False show ?thesis by (simp add: era_exp_def K_def [symmetric] clamp_def)
  qed
qed

lemma era_exp_bounds: "2 \<le> era_exp p \<and> era_exp p \<le> 16"
  unfolding era_exp_def by (rule clamp_bounds) simp

lemma unat_quantize_factor: "k < 64 \<Longrightarrow> unat (quantize_factor ((2::u64) ^ k)) = quantum k"
proof -
  assume k: "k < 64"
  have "unat (drop_bit 12 ((2::u64) ^ k)) = drop_bit 12 (unat ((2::u64) ^ k))"
    by (rule unat_drop_bit_eq)
  also have "\<dots> = drop_bit 12 (2 ^ k)" using k by (simp add: unat_pow2)
  also have "\<dots> = 2 ^ k div 4096" by (simp add: drop_bit_eq_div)
  finally show ?thesis by (simp add: quantize_factor_def quantum_def unat_max)
qed

lemma mortal_closed:
  "mortal p c = Mortal (2 ^ era_exp p)
     (c mod 2 ^ era_exp p div quantize_factor (2 ^ era_exp p) * quantize_factor (2 ^ era_exp p))"
  unfolding mortal_def Let_def era_period_word quantize_factor_def ..

lemma tz_nat_pow2 [simp]: "tz_nat (2 ^ k) = k"
proof (induction k)
  case 0
  then show ?case by (simp add: tz_nat.simps)
next
  case (Suc k)
  then show ?case by (subst tz_nat.simps) simp
qed

lemma trailing_zeros_pow2: "k < 64 \<Longrightarrow> unat (trailing_zeros ((2::u64) ^ k)) = k"
proof -
  assume k: "k < 64"
  then have u: "unat ((2::u64) ^ k) = 2 ^ k" by (simp add: unat_pow2)
  then have "(2::u64) ^ k \<noteq> 0" by (metis power_not_zero unat_0 zero_neq_numeral)
  with u k show ?thesis by (simp add: trailing_zeros_def unat_of_nat)
qed

lemma unat_mortal:
  "unat (2 ^ era_exp p :: u64) = 2 ^ era_exp p"
  "unat (c mod 2 ^ era_exp p div quantize_factor (2 ^ era_exp p) * quantize_factor (2 ^ era_exp p))
   = unat c mod 2 ^ era_exp p div quantum (era_exp p) * quantum (era_exp p)"
proof -
  have e: "era_exp p < 64" using era_exp_bounds [of p] by simp
  show "unat (2 ^ era_exp p :: u64) = 2 ^ era_exp p" using e by (simp add: unat_pow2)
  then show "unat (c mod 2 ^ era_exp p div quantize_factor (2 ^ era_exp p) * quantize_factor (2 ^ era_exp p))
   = unat c mod 2 ^ era_exp p div quantum (era_exp p) * quantum (era_exp p)"
    using e by (simp add: unat_div_mult unat_mod unat_quantize_factor)
qed

lemma mortal_wf: "era_wf (mortal p c)"
proof -
  define E where "E = era_exp p"
  have E: "2 \<le> E" "E \<le> 16" using era_exp_bounds [of p] by (simp_all add: E_def)
  have uP: "unat ((2::u64) ^ E) = 2 ^ E" using E by (simp add: unat_pow2)
  have "(2::nat) ^ 2 \<le> 2 ^ E" using power_increasing [OF E(1), of "2::nat"] by simp
  moreover have "(2::nat) ^ E \<le> 2 ^ 16" using power_increasing [OF E(2), of "2::nat"] by simp
  ultimately have "4 \<le> (2::nat) ^ E" and "(2::nat) ^ E \<le> 65536" by simp_all
  then have lo: "4 \<le> (2::u64) ^ E" and hi: "(2::u64) ^ E \<le> 65536"
    by (simp_all add: word_le_nat_alt uP)
  have tz: "(2::u64) ^ E = 2 ^ unat (trailing_zeros ((2::u64) ^ E))"
    using E by (simp add: trailing_zeros_pow2)
  define Q where "Q = quantize_factor ((2::u64) ^ E)"
  define ph where "ph = c mod 2 ^ E div Q * Q"
  have "unat ph \<le> unat (c mod 2 ^ E)"
    by (simp add: ph_def unat_div_mult div_times_less_eq_dividend del: unat_mod)
  also have "unat (c mod 2 ^ E) < 2 ^ E"
    using uP lo by (simp add: unat_mod)
  finally have lt: "ph < 2 ^ E" by (simp add: word_less_nat_alt uP)
  have "unat (ph mod Q) = 0" by (simp add: ph_def unat_mod unat_div_mult)
  then have md: "ph mod Q = 0" by (simp add: unat_0_iff)
  show ?thesis
    using lo hi tz lt md
    by (simp add: mortal_closed era_wf_def E_def [symmetric] Q_def [symmetric] ph_def [symmetric])
qed

lemma quantum_pos: "0 < quantum k"
  by (simp add: quantum_def)

lemma quantum_grid:
  assumes "k \<le> 16" and "q * quantum k < 2 ^ k"
  shows "q < 4096"
proof (cases "k \<le> 12")
  case True
  then have "(2::nat) ^ k \<le> 2 ^ 12" by (intro power_increasing) simp_all
  with assms(2) True show ?thesis by (simp add: quantum_def)
next
  case False
  then have "k = 12 + (k - 12)" by simp
  then have "(2::nat) ^ k = 2 ^ 12 * 2 ^ (k - 12)" by (metis power_add)
  then have k: "(2::nat) ^ k = 4096 * 2 ^ (k - 12)" by simp
  then have "quantum k = 2 ^ (k - 12)" by (simp add: quantum_def)
  with assms(2) k show ?thesis by simp
qed

lemma era_encode_pow2:
  assumes k: "2 \<le> k" "k \<le> 16"
    and ph: "unat ph = q * quantum k" and lt: "q * quantum k < 2 ^ k"
  shows "era_encode (Mortal (2 ^ k) ph) = le_encode 2 (k - 1 + 16 * q)"
proof -
  have q: "q < 4096" using k(2) lt by (rule quantum_grid)
  have tz: "unat (trailing_zeros ((2::u64) ^ k)) = k" using k by (simp add: trailing_zeros_pow2)
  then have "trailing_zeros ((2::u64) ^ k) \<noteq> 0" using k by auto
  with tz have t1: "unat (trailing_zeros ((2::u64) ^ k) - 1) = k - 1" by (simp add: unat_minus_one)
  then have cl: "clamp (trailing_zeros ((2::u64) ^ k) - 1) 1 15 = trailing_zeros ((2::u64) ^ k) - 1"
    using k by (intro clamp_id) (simp_all add: word_le_nat_alt)
  have a: "unat (ucast (trailing_zeros ((2::u64) ^ k) - 1) :: u16) = k - 1"
    using t1 k by (simp add: unsigned_ucast_eq take_bit_nat_eq_self)
  have qf: "unat (max (drop_bit 12 ((2::u64) ^ k)) 1) = quantum k"
    using unat_quantize_factor [of k] k by (simp add: quantize_factor_def)
  have d: "unat (ph div max (drop_bit 12 ((2::u64) ^ k)) 1) = q"
    using ph quantum_pos [of k] by (simp add: unat_div qf)
  have "unat (push_bit 4 (ph div max (drop_bit 12 ((2::u64) ^ k)) 1)) = push_bit 4 q"
    using q by (simp only: unsigned_push_bit_eq d) (simp add: push_bit_eq_mult take_bit_nat_eq_self)
  then have b: "unat (ucast (push_bit 4 (ph div max (drop_bit 12 ((2::u64) ^ k)) 1)) :: u16) = push_bit 4 q"
    using q by (simp only: unsigned_ucast_eq) (simp add: push_bit_eq_mult take_bit_nat_eq_self)
  have "k - 1 < 16" using k by simp
  then have "unat ((ucast (trailing_zeros ((2::u64) ^ k) - 1) :: u16)
              OR ucast (push_bit 4 (ph div max (drop_bit 12 ((2::u64) ^ k)) 1))) = k - 1 + 16 * q"
    by (simp only: unsigned_or_eq a b or_low_nibble) (simp add: push_bit_eq_mult)
  then show ?thesis
    by (simp add: era_encode_def encode_u16_def cl Let_def)
qed

lemma era_decode_pow2:
  assumes k: "2 \<le> k" "k \<le> 16"
    and ph: "unat ph = q * quantum k" and lt: "q * quantum k < 2 ^ k"
  shows "era_decode (le_encode 2 (k - 1 + 16 * q) @ rest) = Inr (Mortal (2 ^ k) ph, rest)"
proof -
  define a where "a = k - 1"
  have ka: "k = Suc a" and a: "a < 16" using k by (simp_all add: a_def)
  define e where "e = a + 16 * q"
  have q: "q < 4096" using k(2) lt by (rule quantum_grid)
  then have e: "e < 65536" using a by (simp add: e_def)
  have e16: "e mod 16 = a" using a by (simp add: e_def)
  define f :: byte where "f = word_of_nat (e mod 256)"
  define s :: byte where "s = word_of_nat (e div 256 mod 256)"
  have bytes: "le_encode 2 e = [f, s]" by (simp add: f_def s_def numeral_2_eq_2)
  have uf: "unat f = e mod 256" and us: "unat s = e div 256 mod 256"
    by (simp_all add: f_def s_def)
  have "e mod 256 mod 16 = a" using e16 by (simp add: mod_mod_cancel)
  then have "f \<noteq> 0" using k uf by (auto simp: a_def unat_0_iff [symmetric])
  have uf64: "unat (ucast f :: u64) = e mod 256"
    using uf by (simp add: unsigned_ucast_eq take_bit_nat_eq_self)
  have us64: "unat (push_bit 8 (ucast s) :: u64) = 256 * (e div 256 mod 256)"
    using us by (simp only: unsigned_push_bit_eq unsigned_ucast_eq)
      (simp add: take_bit_nat_eq_self push_bit_eq_mult)
  have "e div 256 < 256" using e by simp
  then have sum: "e mod 256 + 256 * (e div 256 mod 256) = e" by simp
  define E :: u64 where "E = ucast f + push_bit 8 (ucast s)"
  have uE: "unat E = e"
    using uf64 us64 sum e by (simp add: E_def unat_add_lem [THEN iffD1])
  have "unat (E mod 16) = a" using uE e16 by (simp add: unat_mod)
  then have per: "push_bit (unat (E mod 16)) (2::u64) = 2 ^ k"
    by (simp add: push_bit_eq_mult ka)
  have uq: "unat (max (drop_bit 12 ((2::u64) ^ k)) 1) = quantum k"
    using unat_quantize_factor [of k] k by (simp add: quantize_factor_def)
  have d4: "unat (drop_bit 4 E) = q"
    using uE a by (simp only: unat_drop_bit_eq) (simp add: drop_bit_eq_div e_def)
  have "(2::nat) ^ k \<le> 2 ^ 16" using k by (intro power_increasing) simp_all
  then have "q * quantum k < 2 ^ 64" using lt by simp
  then have "unat (drop_bit 4 E * max (drop_bit 12 ((2::u64) ^ k)) 1) = unat ph"
    using d4 uq ph by (simp add: unat_mult_lem [THEN iffD1])
  then have phw: "drop_bit 4 E * max (drop_bit 12 ((2::u64) ^ k)) 1 = ph"
    by (simp add: word_unat_eq_iff)
  have uP: "unat ((2::u64) ^ k) = 2 ^ k" using k by (simp add: unat_pow2)
  have "(2::nat) ^ 2 \<le> 2 ^ k" using k by (intro power_increasing) simp_all
  then have lo: "4 \<le> (2::u64) ^ k" by (simp add: word_le_nat_alt uP)
  have hi: "ph < (2::u64) ^ k" using ph lt by (simp add: word_less_nat_alt uP)
  have ee: "k - 1 + 16 * q = e" by (simp add: e_def a_def)
  show ?thesis
    unfolding ee bytes era_decode_def Let_def
    using \<open>f \<noteq> 0\<close> per phw lo hi by (simp add: E_def [symmetric])
qed

lemma era_wf_mortal_cases:
  assumes "era_wf (Mortal P ph)"
  obtains k q where "2 \<le> k" "k \<le> 16" "P = 2 ^ k" "unat ph = q * quantum k" "q * quantum k < 2 ^ k"
proof -
  define k where "k = unat (trailing_zeros P)"
  from assms have lo: "4 \<le> P" and hi: "P \<le> 65536" and P: "P = 2 ^ k"
    and lt: "ph < P" and md: "ph mod quantize_factor P = 0"
    by (simp_all add: era_wf_def k_def)
  have "k < 64"
  proof (rule ccontr)
    assume "\<not> k < 64"
    then have "P = 0" using P by (simp add: pow2_word_overflow)
    with lo show False by simp
  qed
  then have uP: "unat P = 2 ^ k" using P by (simp add: unat_pow2)
  from lo hi have "(2::nat) ^ 2 \<le> 2 ^ k" and "(2::nat) ^ k \<le> 2 ^ 16"
    by (simp_all add: word_le_nat_alt uP)
  then have k2: "2 \<le> k" and k16: "k \<le> 16"
    using power_le_imp_le_exp [of "2::nat" 2 k] power_le_imp_le_exp [of "2::nat" k 16] by simp_all
  have uq: "unat (quantize_factor P) = quantum k" using \<open>k < 64\<close> P by (simp add: unat_quantize_factor)
  from md have "unat ph mod quantum k = 0" by (metis uq unat_0 unat_mod)
  then have ph: "unat ph = unat ph div quantum k * quantum k"
    using div_mult_mod_eq [of "unat ph" "quantum k"] by simp
  from lt have "unat ph < 2 ^ k" by (simp add: word_less_nat_alt uP)
  with ph have "unat ph div quantum k * quantum k < 2 ^ k" by simp
  with k2 k16 P ph show ?thesis by (rule that)
qed

theorem era_roundtrip: "era_wf e \<Longrightarrow> era_decode (era_encode e @ rest) = Inr (e, rest)"
proof (cases e)
  case Immortal
  then show ?thesis by (simp add: era_encode_def era_decode_def)
next
  case (Mortal P ph)
  assume wf: "era_wf e"
  with Mortal have "era_wf (Mortal P ph)" by simp
  then obtain k q where k: "2 \<le> k" "k \<le> 16" and P: "P = 2 ^ k"
    and ph: "unat ph = q * quantum k" and lt: "q * quantum k < 2 ^ k"
    by (rule era_wf_mortal_cases)
  from k ph lt have "era_encode (Mortal (2 ^ k) ph) = le_encode 2 (k - 1 + 16 * q)"
    by (rule era_encode_pow2)
  moreover from k ph lt have "era_decode (le_encode 2 (k - 1 + 16 * q) @ rest) = Inr (Mortal (2 ^ k) ph, rest)"
    by (rule era_decode_pow2)
  ultimately show ?thesis by (simp add: Mortal P)
qed

corollary mortal_roundtrip: "era_decode (era_encode (mortal p c) @ rest) = Inr (mortal p c, rest)"
  using mortal_wf by (rule era_roundtrip)


subsection \<open>Lemmas: the validity window\<close>

lemma mortal_parts:
  obtains P ph where "mortal p c = Mortal P ph" "unat P = 2 ^ era_exp p"
    "unat ph = unat c mod 2 ^ era_exp p div quantum (era_exp p) * quantum (era_exp p)"
  using mortal_closed unat_mortal by blast

lemma birth_mortal_unat:
  "unat (birth (mortal p n) n) = unat n - unat n mod 2 ^ era_exp p mod quantum (era_exp p)"
proof -
  define PP Q N where "PP = (2::nat) ^ era_exp p" and "Q = quantum (era_exp p)" and "N = unat n"
  define r where "r = N mod PP"
  obtain P ph where m: "mortal p n = Mortal P ph" and uP: "unat P = PP"
    and uph: "unat ph = r div Q * Q"
    using mortal_parts [of p n] by (auto simp: PP_def Q_def N_def r_def)
  have PP: "0 < PP" by (simp add: PP_def)
  have rq: "r div Q * Q \<le> r" by (rule div_times_less_eq_dividend)
  have rlt: "r < PP" using PP by (simp add: r_def)
  have "r \<le> N" by (simp add: r_def N_def)
  with rq have "r div Q * Q \<le> N" by linarith
  then have "ph \<le> n" by (simp add: word_le_nat_alt uph N_def)
  then have mx: "max n ph = n" by (simp add: max_def)
  have sub: "unat (n - ph) = N - r div Q * Q" using \<open>ph \<le> n\<close> by (simp add: unat_sub uph N_def)
  have Nsplit: "N = N div PP * PP + r" by (simp add: r_def)
  define d where "d = r - r div Q * Q"
  have "N - r div Q * Q = d + N div PP * PP" using Nsplit rq by (simp add: d_def)
  moreover have "d < PP" using rlt by (simp add: d_def)
  ultimately have dv: "(N - r div Q * Q) div PP = N div PP" using PP by simp
  have lo: "unat ((n - ph) div P * P) = N div PP * PP" by (simp add: unat_div_mult sub uP dv)
  have "N div PP * PP + r div Q * Q \<le> N" using Nsplit rq by linarith
  moreover have "N < 2 ^ LENGTH(64)" unfolding N_def by (rule unsigned_less)
  ultimately have "unat ((n - ph) div P * P) + unat ph < 2 ^ LENGTH(64)" using uph lo by linarith
  then have "unat ((n - ph) div P * P + ph) = N div PP * PP + r div Q * Q"
    by (simp add: unat_add_lem [THEN iffD1] uph lo)
  moreover have "N div PP * PP + r div Q * Q = N - r mod Q"
    using Nsplit div_mult_mod_eq [of r Q] by linarith
  ultimately show ?thesis by (simp add: birth_def m mx PP_def Q_def N_def r_def)
qed

lemma quantum_le: "quantum k \<le> 2 ^ k"
  by (simp add: quantum_def)

theorem mortal_window:
  assumes ovf: "unat n + 2 ^ era_exp p < 2 ^ 64"
  shows "birth (mortal p n) n \<le> n \<and> n < death (mortal p n) n
         \<and> unat (death (mortal p n) n) = unat (birth (mortal p n) n) + 2 ^ era_exp p"
proof -
  define E where "E = era_exp p"
  obtain P ph where m: "mortal p n = Mortal P ph" and uP: "unat P = 2 ^ era_exp p"
    and "unat ph = unat n mod 2 ^ era_exp p div quantum (era_exp p) * quantum (era_exp p)"
    by (rule mortal_parts)
  define B where "B = birth (mortal p n) n"
  have uB: "unat B = unat n - unat n mod 2 ^ E mod quantum E"
    by (simp add: B_def E_def birth_mortal_unat)
  have "unat n mod 2 ^ E mod quantum E < quantum E" using quantum_pos [of E] by simp
  also have "\<dots> \<le> 2 ^ E" by (rule quantum_le)
  finally have gap: "unat n - unat B < 2 ^ E" using uB by simp
  have le: "unat B \<le> unat n" using uB by simp
  then have bnd: "unat B + unat P < 2 ^ LENGTH(64)" using ovf uP by (simp add: E_def)
  have "death (mortal p n) n = B + P" by (simp add: death_def B_def m)
  then have uD: "unat (death (mortal p n) n) = unat B + 2 ^ E"
    using bnd uP by (simp add: unat_add_lem [THEN iffD1] E_def)
  have "B \<le> n" using le by (simp add: word_le_nat_alt)
  moreover have "n < death (mortal p n) n" using gap le uD by (simp add: word_less_nat_alt)
  ultimately show ?thesis using uD by (simp add: B_def E_def)
qed

theorem mortal_spec:
  "mortal p c = Mortal P ph \<longleftrightarrow>
     unat P = 2 ^ era_exp p
     \<and> unat ph = unat c mod 2 ^ era_exp p div quantum (era_exp p) * quantum (era_exp p)"
proof -
  obtain P' ph' where m: "mortal p c = Mortal P' ph'" and uP: "unat P' = 2 ^ era_exp p"
    and uph: "unat ph' = unat c mod 2 ^ era_exp p div quantum (era_exp p) * quantum (era_exp p)"
    by (rule mortal_parts)
  show ?thesis by (auto simp: m uP uph word_unat_eq_iff)
qed

lemma pow2_exp_from_least: "k \<le> j \<Longrightarrow> n \<le> 2 ^ j \<Longrightarrow> pow2_exp_from n k \<le> j"
proof (induction n k rule: pow2_exp_from.induct)
  case (1 n k)
  show ?case
  proof (cases "2 ^ k < n")
    case True
    with "1.prems" have "k \<noteq> j" by auto
    with "1.prems" have "Suc k \<le> j" by simp
    with True "1.IH" "1.prems"(2) show ?thesis by (subst pow2_exp_from.simps) auto
  next
    case False
    with "1.prems" show ?thesis by (subst pow2_exp_from.simps) auto
  qed
qed

theorem era_exp_least: "era_exp p = clamp (LEAST k. unat p \<le> 2 ^ k) 2 16"
proof -
  have "pow2_exp_from (unat p) 0 = (LEAST k. unat p \<le> 2 ^ k)"
  proof (rule Least_equality [symmetric])
    show "unat p \<le> 2 ^ pow2_exp_from (unat p) 0" by (rule pow2_exp_from_ge)
  next
    fix j assume "unat p \<le> 2 ^ j"
    then show "pow2_exp_from (unat p) 0 \<le> j" by (intro pow2_exp_from_least) simp_all
  qed
  then show ?thesis by (simp add: era_exp_def)
qed


subsection \<open>Lemmas: the era decoder accepts only canonical encodings\<close>

text \<open>A successful \<^const>\<open>era_decode\<close> consumed exactly the bytes \<^const>\<open>era_encode\<close>
  writes for the era it returns: the two-byte form is unique.\<close>

lemma era_canonical:
  assumes d: "era_decode input = Inr (e, rest)"
  shows "input = era_encode e @ rest"
proof -
  obtain f r where input: "input = f # r" using d by (cases input) (auto simp: era_decode_def)
  show ?thesis
  proof (cases "f = 0")
    case True
    with d input show ?thesis by (simp add: era_decode_def era_encode_def)
  next
    case False
    obtain s r' where r: "r = s # r'" using d input False by (cases r) (auto simp: era_decode_def)
    define n where "n = unat f + 256 * unat s"
    have uf: "unat f < 256" and us: "unat s < 256" using unsigned_less [of f] unsigned_less [of s] by simp_all
    then have n: "n < 65536" by (simp add: n_def)
    define E :: u64 where "E = ucast f + push_bit 8 (ucast s)"
    have "unat f < 2 ^ 64" using uf by simp
    then have uf64: "unat (ucast f :: u64) = unat f" by (simp add: unsigned_ucast_eq take_bit_nat_eq_self)
    have us64: "unat (push_bit 8 (ucast s) :: u64) = 256 * unat s"
      using us by (simp only: unsigned_push_bit_eq unsigned_ucast_eq) (simp add: take_bit_nat_eq_self push_bit_eq_mult)
    have uE: "unat E = n" using uf64 us64 n by (simp add: E_def n_def unat_add_lem [THEN iffD1])
    define a where "a = n mod 16"
    define q where "q = n div 16"
    have a16: "a < 16" by (simp add: a_def)
    have q: "q < 4096" using n by (simp add: q_def)
    have "unat (E mod 16) = a" using uE by (simp add: unat_mod a_def)
    then have per: "push_bit (unat (E mod 16)) (2::u64) = 2 ^ Suc a" by (simp add: push_bit_eq_mult)
    define PH where "PH = drop_bit 4 E * max (drop_bit 12 ((2::u64) ^ Suc a)) 1"
    have dd: "era_decode (f # s # r') =
        (if 4 \<le> (2::u64) ^ Suc a \<and> PH < 2 ^ Suc a then Inr (Mortal (2 ^ Suc a) PH, r') else Inl InvalidEra)"
      unfolding era_decode_def Let_def using False per by (simp add: E_def [symmetric] PH_def)
    with d input r have lo: "4 \<le> (2::u64) ^ Suc a" and lt: "PH < 2 ^ Suc a"
      and e: "e = Mortal (2 ^ Suc a) PH" and rest: "rest = r'" by (simp_all split: if_splits)
    have uP: "unat ((2::u64) ^ Suc a) = 2 ^ Suc a" using a16 by (intro unat_pow2) simp
    from lo have "unat (4::u64) \<le> 2 ^ Suc a" unfolding word_le_nat_alt uP .
    then have "(2::nat) ^ 2 \<le> 2 ^ Suc a" by simp
    then have k2: "2 \<le> Suc a" using power_le_imp_le_exp [of "2::nat" 2 "Suc a"] by simp
    have k16: "Suc a \<le> 16" using a16 by simp
    have uq: "unat (max (drop_bit 12 ((2::u64) ^ Suc a)) 1) = quantum (Suc a)"
      using unat_quantize_factor [of "Suc a"] a16 by (simp add: quantize_factor_def)
    have d4: "unat (drop_bit 4 E) = q"
      using uE by (simp only: unat_drop_bit_eq) (simp add: drop_bit_eq_div q_def)
    have "quantum (Suc a) \<le> 16"
    proof -
      have "(2::nat) ^ Suc a \<le> 2 ^ 16" using k16 by (intro power_increasing) simp_all
      then show ?thesis by (simp add: quantum_def)
    qed
    with q have "q * quantum (Suc a) \<le> 4096 * 16" by (intro mult_le_mono) simp_all
    then have "q * quantum (Suc a) < 2 ^ 64" by simp
    then have uPH: "unat PH = q * quantum (Suc a)"
      using d4 uq by (simp add: PH_def unat_mult_lem [THEN iffD1])
    from lt have "q * quantum (Suc a) < 2 ^ Suc a" unfolding word_less_nat_alt uP uPH .
    with k2 k16 uPH have "era_encode (Mortal (2 ^ Suc a) PH) = le_encode 2 (Suc a - 1 + 16 * q)"
      by (intro era_encode_pow2)
    moreover have "Suc a - 1 + 16 * q = le_decode [f, s]" by (simp add: a_def q_def n_def)
    moreover have "le_encode 2 (le_decode [f, s]) = [f, s]"
    proof -
      have "length [f, s] = 2" by simp
      then show ?thesis using le_encode_decode [of "[f, s]"] by (simp only:)
    qed
    ultimately show ?thesis by (simp only: input r e rest) simp
  qed
qed

end
