(* ===== verification/Scale.thy ===== *)
theory Scale
  imports Prelude
begin

text \<open>
  The SCALE encodings the program relies on besides the era (parity-scale-codec):
  \<open>Compact<u32>\<close>, the variable-length integer used for the signer's nonce and for
  the length prefix of every \<open>Vec<u8>\<close>; \<open>Vec<u8>\<close> itself, the type of the
  three arguments of the \<open>disassembled\<close> call (\<open>src/main.rs\<close> lines 57-61); and the
  compact encoding of a \<open>u128\<close> balance, the type of the tip. Decoders check the
  canonical range of each mode, as the library does.
\<close>

text \<open>
  \<open>Encode for Compact<u32>\<close>: two low bits select the mode: one byte for values below
  \<open>2^6\<close>, two bytes below \<open>2^14\<close>, four below \<open>2^30\<close>, otherwise the prefix byte 3
  followed by the four bytes of the value.
\<close>

definition compact_encode_u32 :: "u32 \<Rightarrow> bytes" where
  "compact_encode_u32 x =
     (let n = unat x
      in if n < 2 ^ 6 then [word_of_nat (n * 4)]
         else if n < 2 ^ 14 then le_encode 2 (n * 4 + 1)
         else if n < 2 ^ 30 then le_encode 4 (n * 4 + 2)
         else 3 # le_encode 4 n)"

text \<open>\<open>Decode for Compact<u32>\<close>, with the library's out-of-range checks.\<close>

definition compact_decode_u32 :: "bytes \<Rightarrow> codec_error + (u32 \<times> bytes)" where
  "compact_decode_u32 input =
     (case read_byte input of
        Inl e \<Rightarrow> Inl e
      | Inr (prefix, rest) \<Rightarrow>
          (let mode = unat prefix mod 4
           in if mode = 0 then Inr (word_of_nat (unat prefix div 4), rest)
              else if mode = 1 then
                (case read_bytes 1 rest of
                   Inl e \<Rightarrow> Inl e
                 | Inr (bs, rest') \<Rightarrow>
                     (let x = le_decode (prefix # bs) div 4
                      in if 2 ^ 6 \<le> x \<and> x < 2 ^ 14 then Inr (word_of_nat x, rest')
                         else Inl CompactOutOfRange))
              else if mode = 2 then
                (case read_bytes 3 rest of
                   Inl e \<Rightarrow> Inl e
                 | Inr (bs, rest') \<Rightarrow>
                     (let x = le_decode (prefix # bs) div 4
                      in if 2 ^ 14 \<le> x \<and> x < 2 ^ 30 then Inr (word_of_nat x, rest')
                         else Inl CompactOutOfRange))
              else if unat prefix div 4 = 0 then
                (case read_bytes 4 rest of
                   Inl e \<Rightarrow> Inl e
                 | Inr (bs, rest') \<Rightarrow>
                     (let x = le_decode bs
                      in if 2 ^ 30 \<le> x then Inr (word_of_nat x, rest')
                         else Inl CompactOutOfRange))
              else Inl CompactOutOfRange))"

text \<open>
  \<open>Encode for Vec<u8>\<close>: the length as \<open>Compact<u32>\<close> (\<open>len as u32\<close>), then the
  bytes; and its decoder.
\<close>

definition encode_vec :: "bytes \<Rightarrow> bytes" where
  "encode_vec v = compact_encode_u32 (word_of_nat (length v)) @ v"

definition decode_vec :: "bytes \<Rightarrow> codec_error + (bytes \<times> bytes)" where
  "decode_vec input =
     (case compact_decode_u32 input of
        Inl e \<Rightarrow> Inl e
      | Inr (len, rest) \<Rightarrow> read_bytes (unat len) rest)"

text \<open>A run of \<open>n\<close> byte vectors, as a tuple of \<open>n\<close> \<open>Vec<u8>\<close> fields decodes.\<close>

fun decode_vecs :: "nat \<Rightarrow> bytes \<Rightarrow> codec_error + (bytes list \<times> bytes)" where
  "decode_vecs 0 input = Inr ([], input)"
| "decode_vecs (Suc n) input =
     (case decode_vec input of
        Inl e \<Rightarrow> Inl e
      | Inr (v, rest) \<Rightarrow>
          (case decode_vecs n rest of
             Inl e \<Rightarrow> Inl e
           | Inr (vs, rest') \<Rightarrow> Inr (v # vs, rest')))"

text \<open>
  \<open>Encode for Compact<u128>\<close> (the tip, \<open>PlainTip<Balance>\<close>): the first three modes
  as for \<open>u32\<close>; above \<open>2^30\<close> the prefix \<open>((k - 4) << 2) | 3\<close> and the \<open>k\<close>
  bytes the value needs, at least four.
\<close>

fun bytes_needed :: "nat \<Rightarrow> nat" where
  "bytes_needed n = (if n = 0 then 0 else Suc (bytes_needed (n div 256)))"

declare bytes_needed.simps [simp del]

definition compact_encode_u128 :: "nat \<Rightarrow> bytes" where
  "compact_encode_u128 n =
     (if n < 2 ^ 6 then [word_of_nat (n * 4)]
      else if n < 2 ^ 14 then le_encode 2 (n * 4 + 1)
      else if n < 2 ^ 30 then le_encode 4 (n * 4 + 2)
      else (let k = bytes_needed n in word_of_nat ((k - 4) * 4 + 3) # le_encode k n))"

text \<open>
  \<open>Decode for Compact<u128>\<close>: in the fourth mode the prefix's upper six bits give the
  number of bytes minus four, at most 16 bytes; the value must need all of them (at
  least \<open>2^30\<close> for four bytes), as the library checks.
\<close>

definition compact_decode_u128 :: "bytes \<Rightarrow> codec_error + (nat \<times> bytes)" where
  "compact_decode_u128 input =
     (case read_byte input of
        Inl e \<Rightarrow> Inl e
      | Inr (prefix, rest) \<Rightarrow>
          (let mode = unat prefix mod 4
           in if mode = 0 then Inr (unat prefix div 4, rest)
              else if mode = 1 then
                (case read_bytes 1 rest of
                   Inl e \<Rightarrow> Inl e
                 | Inr (bs, rest') \<Rightarrow>
                     (let x = le_decode (prefix # bs) div 4
                      in if 2 ^ 6 \<le> x \<and> x < 2 ^ 14 then Inr (x, rest') else Inl CompactOutOfRange))
              else if mode = 2 then
                (case read_bytes 3 rest of
                   Inl e \<Rightarrow> Inl e
                 | Inr (bs, rest') \<Rightarrow>
                     (let x = le_decode (prefix # bs) div 4
                      in if 2 ^ 14 \<le> x \<and> x < 2 ^ 30 then Inr (x, rest') else Inl CompactOutOfRange))
              else
                (let k = unat prefix div 4 + 4
                 in if 16 < k then Inl CompactOutOfRange
                    else (case read_bytes k rest of
                            Inl e \<Rightarrow> Inl e
                          | Inr (bs, rest') \<Rightarrow>
                              (let x = le_decode bs
                               in if (if k = 4 then 2 ^ 30 else 256 ^ (k - 1)) \<le> x
                                  then Inr (x, rest') else Inl CompactOutOfRange)))))"

subsection \<open>Lemmas: the codecs are inverse\<close>

lemma le_encode_Suc_hd:
  "le_encode (Suc k) m = word_of_nat (m mod 256) # le_encode k (m div 256)"
  by simp

lemma unat_hd_mod4: "unat (word_of_nat (m mod 256) :: byte) mod 4 = m mod 4"
  by (simp add: mod_mod_cancel)

lemma compact_mode_prefix:
  assumes "0 < k" and "m < 256 ^ k"
  shows "\<exists>b bs. le_encode k m = b # bs \<and> unat b mod 4 = m mod 4 \<and> le_decode (b # bs) = m
          \<and> length bs = k - 1"
proof -
  obtain k' where k: "k = Suc k'" using assms(1) by (cases k) auto
  have "le_decode (le_encode k m) = m" using assms(2) by simp
  then show ?thesis using k by (simp add: mod_mod_cancel)
qed

theorem compact_u32_roundtrip:
  "compact_decode_u32 (compact_encode_u32 x @ rest) = Inr (x, rest)"
proof -
  define n where "n = unat x"
  have x: "word_of_nat n = x" by (simp add: n_def)
  have n32: "n < 2 ^ 32" unfolding n_def using unsigned_less [of x] by simp
  have enc: "compact_encode_u32 x =
     (if n < 2 ^ 6 then [word_of_nat (n * 4)]
      else if n < 2 ^ 14 then le_encode 2 (n * 4 + 1)
      else if n < 2 ^ 30 then le_encode 4 (n * 4 + 2)
      else 3 # le_encode 4 n)"
    by (simp only: compact_encode_u32_def Let_def n_def)
  consider (m0) "n < 2 ^ 6" | (m1) "2 ^ 6 \<le> n" "n < 2 ^ 14" | (m2) "2 ^ 14 \<le> n" "n < 2 ^ 30"
    | (m3) "2 ^ 30 \<le> n" by linarith
  then show ?thesis
  proof cases
    case m0
    then have "unat (word_of_nat (n * 4) :: byte) = n * 4" by (simp only: unat_of_nat) simp
    with m0 x show ?thesis
      by (simp add: enc compact_decode_u32_def Let_def del: of_nat_mult)
  next
    case m1
    have "n * 4 + 1 < 256 ^ 2" using m1 by simp
    then obtain b bs where e: "le_encode 2 (n * 4 + 1) = b # bs" and b: "unat b mod 4 = (n * 4 + 1) mod 4"
      and d: "le_decode (b # bs) = n * 4 + 1" and l: "length bs = 2 - 1"
      using compact_mode_prefix [of 2 "n * 4 + 1"] by auto
    have "(n * 4 + 1) mod 4 = 1" and "(n * 4 + 1) div 4 = n" by presburger+
    with m1 e b d l x show ?thesis
      by (simp add: enc compact_decode_u32_def Let_def)
  next
    case m2
    have "n * 4 + 2 < 256 ^ 4" using m2 by simp
    then obtain b bs where e: "le_encode 4 (n * 4 + 2) = b # bs" and b: "unat b mod 4 = (n * 4 + 2) mod 4"
      and d: "le_decode (b # bs) = n * 4 + 2" and l: "length bs = 4 - 1"
      using compact_mode_prefix [of 4 "n * 4 + 2"] by auto
    have "(n * 4 + 2) mod 4 = 2" and "(n * 4 + 2) div 4 = n" by presburger+
    with m2 e b d l x show ?thesis
      by (simp add: enc compact_decode_u32_def Let_def)
  next
    case m3
    have "le_decode (le_encode 4 n) = n" using n32 by simp
    with m3 x show ?thesis
      by (simp add: enc compact_decode_u32_def Let_def)
  qed
qed

lemma vec_roundtrip:
  "length v < 2 ^ 32 \<Longrightarrow> decode_vec (encode_vec v @ rest) = Inr (v, rest)"
proof -
  assume l: "length v < 2 ^ 32"
  have "decode_vec (compact_encode_u32 (word_of_nat (length v)) @ v @ rest)
        = read_bytes (unat (word_of_nat (length v) :: u32)) (v @ rest)"
    by (simp add: decode_vec_def compact_u32_roundtrip)
  also have "unat (word_of_nat (length v) :: u32) = length v" using l by (simp add: unat_of_nat)
  finally show ?thesis by (simp add: encode_vec_def)
qed

lemma decode_vecs_prefix:
  "\<forall>v\<in>set vs. length v < 2 ^ 32 \<Longrightarrow>
   decode_vecs (length vs + m) (concat (map encode_vec vs) @ rest) =
     (case decode_vecs m rest of Inl e \<Rightarrow> Inl e | Inr (ws, r) \<Rightarrow> Inr (vs @ ws, r))"
  by (induction vs) (simp_all add: vec_roundtrip split: sum.split)

lemma decode_vecs_empty: "decode_vecs (Suc n) [] = Inl EndOfInput"
  by (simp add: decode_vec_def compact_decode_u32_def)

lemma le_encode_nonempty: "0 < k \<Longrightarrow> le_encode k n \<noteq> []"
  by (metis length_le_encode less_numeral_extra(3) list.size(3))

lemma encode_vec_nonempty: "encode_vec v \<noteq> []"
  by (simp add: encode_vec_def compact_encode_u32_def Let_def le_encode_nonempty)

lemma decode_vecs_short:
  assumes "k < length vs" and "\<forall>v\<in>set vs. length v < 2 ^ 32"
  shows "decode_vecs k (concat (map encode_vec vs)) = Inr (take k vs, concat (map encode_vec (drop k vs)))"
proof -
  have eq: "concat (map encode_vec vs) = concat (map encode_vec (take k vs)) @ concat (map encode_vec (drop k vs))"
    by (metis append_take_drop_id concat_append map_append)
  have l: "length (take k vs) + 0 = k" using assms(1) by simp
  have "\<forall>v\<in>set (take k vs). length v < 2 ^ 32" using assms(2) by (auto dest: in_set_takeD)
  from decode_vecs_prefix [OF this, of 0 "concat (map encode_vec (drop k vs))"]
  have "decode_vecs k (concat (map encode_vec (take k vs)) @ concat (map encode_vec (drop k vs)))
        = Inr (take k vs, concat (map encode_vec (drop k vs)))"
    by (simp only: l decode_vecs.simps(1) sum.case prod.case append_Nil2)
  then show ?thesis by (simp only: eq [symmetric])
qed


lemma decode_vecs_long:
  assumes "length vs < k" and "\<forall>v\<in>set vs. length v < 2 ^ 32"
  shows "decode_vecs k (concat (map encode_vec vs)) = Inl EndOfInput"
proof -
  define j where "j = k - Suc (length vs)"
  have k: "k = length vs + Suc j" using assms(1) by (simp add: j_def)
  from decode_vecs_prefix [OF assms(2), of "Suc j" "[]"]
  have "decode_vecs k (concat (map encode_vec vs) @ []) = Inl EndOfInput"
    by (simp only: k decode_vecs_empty sum.case)
  then show ?thesis by (simp only: append_Nil2)
qed

lemma vecs_roundtrip:
  "\<forall>v\<in>set vs. length v < 2 ^ 32 \<Longrightarrow>
   decode_vecs (length vs) (concat (map encode_vec vs) @ rest) = Inr (vs, rest)"
  by (induction vs) (simp_all add: vec_roundtrip)


subsection \<open>Lemmas: \<open>Compact<u128>\<close>\<close>

lemma bytes_needed_bound: "n < 256 ^ bytes_needed n"
proof (induction n rule: bytes_needed.induct)
  case (1 n)
  show ?case
  proof (cases "n = 0")
    case True
    then show ?thesis by (simp add: bytes_needed.simps)
  next
    case False
    with 1 have "n div 256 < 256 ^ bytes_needed (n div 256)" by simp
    with False show ?thesis by (subst bytes_needed.simps) simp
  qed
qed

lemma bytes_needed_le: "n < 256 ^ k \<Longrightarrow> bytes_needed n \<le> k"
proof (induction k arbitrary: n)
  case 0
  then show ?case by (simp add: bytes_needed.simps)
next
  case (Suc k)
  show ?case
  proof (cases "n = 0")
    case True
    then show ?thesis by (simp add: bytes_needed.simps)
  next
    case False
    from Suc.prems have "n div 256 < 256 ^ k" by simp
    then have "bytes_needed (n div 256) \<le> k" by (rule Suc.IH)
    with False show ?thesis by (subst bytes_needed.simps) simp
  qed
qed

lemma bytes_needed_low: "256 ^ k \<le> n \<Longrightarrow> k < bytes_needed n"
proof (rule ccontr)
  assume k: "256 ^ k \<le> n" and "\<not> k < bytes_needed n"
  then have "(256::nat) ^ bytes_needed n \<le> 256 ^ k" by (intro power_increasing) simp_all
  with k bytes_needed_bound [of n] show False by simp
qed

lemma bytes_needed_high: "0 < n \<Longrightarrow> 256 ^ (bytes_needed n - 1) \<le> n"
proof (rule ccontr)
  assume n: "0 < n" and "\<not> 256 ^ (bytes_needed n - 1) \<le> n"
  then have "bytes_needed n \<le> bytes_needed n - 1" by (intro bytes_needed_le) simp
  moreover have "bytes_needed n \<noteq> 0" using n by (subst bytes_needed.simps) simp
  ultimately show False by simp
qed


lemma compact_u128_mode0: "n < 2 ^ 6 \<Longrightarrow> compact_decode_u128 (compact_encode_u128 n @ rest) = Inr (n, rest)"
proof -
  assume m0: "n < 2 ^ 6"
  then have "unat (word_of_nat (n * 4) :: byte) = n * 4" by (simp only: unat_of_nat) simp
  with m0 show ?thesis
    by (simp add: compact_encode_u128_def compact_decode_u128_def Let_def del: of_nat_mult)
qed

lemma compact_u128_mode1: "2 ^ 6 \<le> n \<Longrightarrow> n < 2 ^ 14 \<Longrightarrow> compact_decode_u128 (compact_encode_u128 n @ rest) = Inr (n, rest)"
proof -
  assume m1: "2 ^ 6 \<le> n" "n < 2 ^ 14"
    have "n * 4 + 1 < 256 ^ 2" using m1 by simp
    then obtain b bs where e: "le_encode 2 (n * 4 + 1) = b # bs" and b: "unat b mod 4 = (n * 4 + 1) mod 4"
      and d: "le_decode (b # bs) = n * 4 + 1" and l: "length bs = 2 - 1"
      using compact_mode_prefix [of 2 "n * 4 + 1"] by auto
    have "(n * 4 + 1) mod 4 = 1" and "(n * 4 + 1) div 4 = n" by presburger+
    with m1 e b d l show ?thesis
      by (simp add: compact_encode_u128_def compact_decode_u128_def Let_def)
qed

lemma compact_u128_mode2: "2 ^ 14 \<le> n \<Longrightarrow> n < 2 ^ 30 \<Longrightarrow> compact_decode_u128 (compact_encode_u128 n @ rest) = Inr (n, rest)"
proof -
  assume m2: "2 ^ 14 \<le> n" "n < 2 ^ 30"
    have "n * 4 + 2 < 256 ^ 4" using m2 by simp
    then obtain b bs where e: "le_encode 4 (n * 4 + 2) = b # bs" and b: "unat b mod 4 = (n * 4 + 2) mod 4"
      and d: "le_decode (b # bs) = n * 4 + 2" and l: "length bs = 4 - 1"
      using compact_mode_prefix [of 4 "n * 4 + 2"] by auto
    have "(n * 4 + 2) mod 4 = 2" and "(n * 4 + 2) div 4 = n" by presburger+
    with m2 e b d l show ?thesis
      by (simp add: compact_encode_u128_def compact_decode_u128_def Let_def)
qed


lemma compact_u128_mode3:
  assumes m3: "2 ^ 30 \<le> n" and n: "n < 2 ^ 128"
  shows "compact_decode_u128 (compact_encode_u128 n @ rest) = Inr (n, rest)"
proof -
  define k where "k = bytes_needed n"
  have "(256::nat) ^ 3 \<le> n" using m3 by simp
  then have k4: "4 \<le> k" unfolding k_def using bytes_needed_low [of 3 n] by simp
  have "n < 256 ^ 16" using n by simp
  then have k16: "k \<le> 16" unfolding k_def by (rule bytes_needed_le)
  have nk: "n < 256 ^ k" unfolding k_def by (rule bytes_needed_bound)
  have lo: "256 ^ (k - 1) \<le> n" unfolding k_def using m3 by (intro bytes_needed_high) simp
  have "(k - 4) * 4 + 3 < 256" using k16 by simp
  then have up: "unat (word_of_nat ((k - 4) * 4 + 3) :: byte) = (k - 4) * 4 + 3"
    by (simp only: unat_of_nat) simp
  have md: "((k - 4) * 4 + 3) mod 4 = 3" and dv: "((k - 4) * 4 + 3) div 4 + 4 = k"
    using k4 by (simp_all add: le_iff_add)
  have ck: "(if k = 4 then 2 ^ 30 else 256 ^ (k - 1)) \<le> n" using m3 lo by simp
  have enc: "compact_encode_u128 n = word_of_nat ((k - 4) * 4 + 3) # le_encode k n"
    using m3 by (simp add: compact_encode_u128_def k_def Let_def)
  have "\<not> 16 < k" using k16 by simp
  then show ?thesis
    unfolding enc compact_decode_u128_def using up md dv ck nk
    by (simp add: Let_def del: of_nat_mult of_nat_add)
qed

theorem compact_u128_roundtrip:
  "n < 2 ^ 128 \<Longrightarrow> compact_decode_u128 (compact_encode_u128 n @ rest) = Inr (n, rest)"
  using compact_u128_mode0 compact_u128_mode1 compact_u128_mode2 compact_u128_mode3
  by (meson not_le)


subsection \<open>Lemmas: the decoders accept only canonical encodings\<close>

text \<open>
  What a decoder reads successfully is the encoding of what it returns, followed by the
  rest of the input: the range checks of the compact modes leave each number exactly one
  encoding.
\<close>

lemma le_decode_mod4: "le_decode (b # bs) mod 4 = unat b mod 4"
  by simp presburger

lemma compact_prefix_reencode:
  assumes "length (p # bs) = k" and "unat p mod 4 = m"
  shows "le_encode k (le_decode (p # bs) div 4 * 4 + m) = p # bs"
proof -
  have "le_decode (p # bs) mod 4 = m" using assms(2) by (simp only: le_decode_mod4)
  then have "le_decode (p # bs) div 4 * 4 + m = le_decode (p # bs)" by (metis div_mult_mod_eq)
  moreover have "le_encode k (le_decode (p # bs)) = p # bs" using le_encode_decode [of "p # bs"] unfolding assms(1) .
  ultimately show ?thesis by simp
qed

lemma compact_u32_canonical_mode0:
  assumes d: "compact_decode_u32 (p # r) = Inr (x, rest)" and m0: "unat p mod 4 = 0"
  shows "p # r = compact_encode_u32 x @ rest"
proof -
  have p256: "unat p < 256" using unsigned_less [of p] by simp
  from d m0 have x: "x = word_of_nat (unat p div 4)" and rest: "rest = r"
    by (simp_all add: compact_decode_u32_def Let_def)
  have ux: "unat x = unat p div 4" using p256 by (simp add: x unat_of_nat)
  have "unat p div 4 * 4 = unat p" using m0 by (metis div_mult_mod_eq add_0_right)
  then have "(word_of_nat (unat x * 4) :: byte) = p" by (simp add: ux)
  moreover have "unat x < 2 ^ 6" using ux p256 by simp
  ultimately show ?thesis by (simp add: rest compact_encode_u32_def Let_def)
qed

lemma compact_u32_canonical_mode1:
  assumes d: "compact_decode_u32 (p # r) = Inr (x, rest)" and m1: "unat p mod 4 = 1"
  shows "p # r = compact_encode_u32 x @ rest"
proof (cases "read_bytes 1 r")
  case (Inl e)
  with d m1 show ?thesis by (simp add: compact_decode_u32_def)
next
  case (Inr a)
  then obtain bs rest' where rd: "read_bytes 1 r = Inr (bs, rest')" by (cases a) auto
  then have r: "r = bs @ rest'" and l: "length bs = 1" by (simp_all add: read_bytes_Inr)
  define X where "X = le_decode (p # bs) div 4"
  have dd: "compact_decode_u32 (p # r) =
      (if 2 ^ 6 \<le> X \<and> X < 2 ^ 14 then Inr (word_of_nat X, rest') else Inl CompactOutOfRange)"
    using rd by (simp add: compact_decode_u32_def m1 X_def Let_def)
  with d have rng: "2 ^ 6 \<le> X \<and> X < 2 ^ 14" and x: "x = word_of_nat X" and rest: "rest = rest'"
    by (simp_all split: if_splits)
  have ux: "unat x = X" using rng by (simp add: x unat_of_nat)
  have "le_encode 2 (unat x * 4 + 1) = p # bs"
    unfolding ux X_def using l m1 by (intro compact_prefix_reencode) simp_all
  with rng ux show ?thesis by (simp add: r rest compact_encode_u32_def Let_def)
qed

lemma compact_u32_canonical_mode2:
  assumes d: "compact_decode_u32 (p # r) = Inr (x, rest)" and m2: "unat p mod 4 = 2"
  shows "p # r = compact_encode_u32 x @ rest"
proof (cases "read_bytes 3 r")
  case (Inl e)
  with d m2 show ?thesis by (simp add: compact_decode_u32_def)
next
  case (Inr a)
  then obtain bs rest' where rd: "read_bytes 3 r = Inr (bs, rest')" by (cases a) auto
  then have r: "r = bs @ rest'" and l: "length bs = 3" by (simp_all add: read_bytes_Inr)
  define X where "X = le_decode (p # bs) div 4"
  have dd: "compact_decode_u32 (p # r) =
      (if 2 ^ 14 \<le> X \<and> X < 2 ^ 30 then Inr (word_of_nat X, rest') else Inl CompactOutOfRange)"
    using rd by (simp add: compact_decode_u32_def m2 X_def Let_def)
  with d have rng: "2 ^ 14 \<le> X \<and> X < 2 ^ 30" and x: "x = word_of_nat X" and rest: "rest = rest'"
    by (simp_all split: if_splits)
  have ux: "unat x = X" using rng by (simp add: x unat_of_nat)
  have "le_encode 4 (unat x * 4 + 2) = p # bs"
    unfolding ux X_def using l m2 by (intro compact_prefix_reencode) simp_all
  with rng ux show ?thesis by (simp add: r rest compact_encode_u32_def Let_def)
qed


lemma compact_u32_canonical_mode3:
  assumes d: "compact_decode_u32 (p # r) = Inr (x, rest)" and m3: "unat p mod 4 = 3"
  shows "p # r = compact_encode_u32 x @ rest"
proof (cases "unat p div 4 = 0")
  case False
  with d m3 show ?thesis by (simp add: compact_decode_u32_def)
next
  case True
  with m3 have "unat p = 3" by linarith
  then have p: "p = 3" by (simp add: word_unat_eq_iff)
  show ?thesis
  proof (cases "read_bytes 4 r")
    case (Inl e)
    with d m3 True show ?thesis by (simp add: compact_decode_u32_def)
  next
    case (Inr a)
    then obtain bs rest' where rd: "read_bytes 4 r = Inr (bs, rest')" by (cases a) auto
    then have r: "r = bs @ rest'" and l: "length bs = 4" by (simp_all add: read_bytes_Inr)
    have dd: "compact_decode_u32 (p # r) =
        (if 2 ^ 30 \<le> le_decode bs then Inr (word_of_nat (le_decode bs), rest') else Inl CompactOutOfRange)"
      using rd True by (simp add: compact_decode_u32_def m3 Let_def)
    with d have rng: "2 ^ 30 \<le> le_decode bs" and x: "x = word_of_nat (le_decode bs)" and rest: "rest = rest'"
      by (simp_all split: if_splits)
    have "le_decode bs < 256 ^ 4" using le_decode_bound [of bs] l by simp
    then have ux: "unat x = le_decode bs" by (simp add: x unat_of_nat)
    have "le_encode 4 (unat x) = bs" using l le_encode_decode [of bs] by (simp add: ux)
    with rng ux p show ?thesis by (simp add: r rest compact_encode_u32_def Let_def)
  qed
qed

theorem compact_u32_canonical:
  assumes d: "compact_decode_u32 input = Inr (x, rest)"
  shows "input = compact_encode_u32 x @ rest"
proof (cases input)
  case Nil
  with d show ?thesis by (simp add: compact_decode_u32_def)
next
  case (Cons p r)
  with d have d': "compact_decode_u32 (p # r) = Inr (x, rest)" by simp
  consider "unat p mod 4 = 0" | "unat p mod 4 = 1" | "unat p mod 4 = 2" | "unat p mod 4 = 3" by linarith
  then have "p # r = compact_encode_u32 x @ rest"
    by cases (fact compact_u32_canonical_mode0 [OF d'] compact_u32_canonical_mode1 [OF d']
        compact_u32_canonical_mode2 [OF d'] compact_u32_canonical_mode3 [OF d'])+
  with Cons show ?thesis by simp
qed


lemma compact_u128_canonical_mode0:
  assumes d: "compact_decode_u128 (p # r) = Inr (x, rest)" and m0: "unat p mod 4 = 0"
  shows "p # r = compact_encode_u128 x @ rest"
proof -
  have p256: "unat p < 256" using unsigned_less [of p] by simp
  from d m0 have x: "x = unat p div 4" and rest: "rest = r"
    by (simp_all add: compact_decode_u128_def Let_def)
  have "unat p div 4 * 4 = unat p" using m0 by (metis div_mult_mod_eq add_0_right)
  then have "(word_of_nat (x * 4) :: byte) = p" by (simp add: x)
  moreover have "x < 2 ^ 6" using x p256 by simp
  ultimately show ?thesis by (simp add: rest compact_encode_u128_def)
qed

lemma compact_u128_canonical_mode1:
  assumes d: "compact_decode_u128 (p # r) = Inr (x, rest)" and m1: "unat p mod 4 = 1"
  shows "p # r = compact_encode_u128 x @ rest"
proof (cases "read_bytes 1 r")
  case (Inl e)
  with d m1 show ?thesis by (simp add: compact_decode_u128_def)
next
  case (Inr a)
  then obtain bs rest' where rd: "read_bytes 1 r = Inr (bs, rest')" by (cases a) auto
  then have r: "r = bs @ rest'" and l: "length bs = 1" by (simp_all add: read_bytes_Inr)
  have dd: "compact_decode_u128 (p # r) =
      (if 2 ^ 6 \<le> le_decode (p # bs) div 4 \<and> le_decode (p # bs) div 4 < 2 ^ 14
       then Inr (le_decode (p # bs) div 4, rest') else Inl CompactOutOfRange)"
    using rd by (simp add: compact_decode_u128_def m1 Let_def)
  with d have rng: "2 ^ 6 \<le> x \<and> x < 2 ^ 14" and x: "x = le_decode (p # bs) div 4" and rest: "rest = rest'"
    by (simp_all split: if_splits)
  have "le_encode 2 (x * 4 + 1) = p # bs"
    unfolding x using l m1 by (intro compact_prefix_reencode) simp_all
  with rng show ?thesis by (simp add: r rest compact_encode_u128_def)
qed

lemma compact_u128_canonical_mode2:
  assumes d: "compact_decode_u128 (p # r) = Inr (x, rest)" and m2: "unat p mod 4 = 2"
  shows "p # r = compact_encode_u128 x @ rest"
proof (cases "read_bytes 3 r")
  case (Inl e)
  with d m2 show ?thesis by (simp add: compact_decode_u128_def)
next
  case (Inr a)
  then obtain bs rest' where rd: "read_bytes 3 r = Inr (bs, rest')" by (cases a) auto
  then have r: "r = bs @ rest'" and l: "length bs = 3" by (simp_all add: read_bytes_Inr)
  have dd: "compact_decode_u128 (p # r) =
      (if 2 ^ 14 \<le> le_decode (p # bs) div 4 \<and> le_decode (p # bs) div 4 < 2 ^ 30
       then Inr (le_decode (p # bs) div 4, rest') else Inl CompactOutOfRange)"
    using rd by (simp add: compact_decode_u128_def m2 Let_def)
  with d have rng: "2 ^ 14 \<le> x \<and> x < 2 ^ 30" and x: "x = le_decode (p # bs) div 4" and rest: "rest = rest'"
    by (simp_all split: if_splits)
  have "le_encode 4 (x * 4 + 2) = p # bs"
    unfolding x using l m2 by (intro compact_prefix_reencode) simp_all
  with rng show ?thesis by (simp add: r rest compact_encode_u128_def)
qed

lemma compact_u128_canonical_mode3:
  assumes d: "compact_decode_u128 (p # r) = Inr (x, rest)" and m3: "unat p mod 4 = 3"
  shows "p # r = compact_encode_u128 x @ rest"
proof -
  define k where "k = unat p div 4 + 4"
  have k16: "k \<le> 16" using d m3 by (auto simp: compact_decode_u128_def Let_def k_def split: if_splits)
  show ?thesis
  proof (cases "read_bytes k r")
    case (Inl e)
    with d m3 k16 show ?thesis by (simp add: compact_decode_u128_def Let_def k_def [symmetric])
  next
    case (Inr a)
    then obtain bs rest' where rd: "read_bytes k r = Inr (bs, rest')" by (cases a) auto
    then have r: "r = bs @ rest'" and l: "length bs = k" by (simp_all add: read_bytes_Inr)
    have dd: "compact_decode_u128 (p # r) =
        (if (if k = 4 then 2 ^ 30 else 256 ^ (k - 1)) \<le> le_decode bs
         then Inr (le_decode bs, rest') else Inl CompactOutOfRange)"
      using rd k16 m3 by (simp add: compact_decode_u128_def Let_def k_def [symmetric])
    with d have thr: "(if k = 4 then 2 ^ 30 else 256 ^ (k - 1)) \<le> x" and x: "x = le_decode bs"
      and rest: "rest = rest'" by (simp_all split: if_splits)
    have k4: "4 \<le> k" by (simp add: k_def)
    have lo: "256 ^ (k - 1) \<le> x"
    proof (cases "k = 4")
      case True
      with thr show ?thesis by simp
    next
      case False
      with thr show ?thesis by simp
    qed
    have big: "2 ^ 30 \<le> x"
    proof (cases "k = 4")
      case True
      with thr show ?thesis by simp
    next
      case False
      then have "(256::nat) ^ 4 \<le> 256 ^ (k - 1)" using k4 by (intro power_increasing) simp_all
      with lo show ?thesis by simp
    qed
    have hi: "x < 256 ^ k" using le_decode_bound [of bs] l by (simp add: x)
    have "bytes_needed x \<le> k" using hi by (rule bytes_needed_le)
    moreover have "k - 1 < bytes_needed x" using lo by (rule bytes_needed_low)
    ultimately have bn: "bytes_needed x = k" using k4 by simp
    have "(k - 4) * 4 + 3 = unat p" using m3 by (simp add: k_def) (metis div_mult_mod_eq)
    then have "(word_of_nat ((k - 4) * 4 + 3) :: byte) = p" by simp
    moreover have "le_encode k x = bs" using le_encode_decode [of bs] by (simp add: x l)
    ultimately show ?thesis using big bn by (simp add: r rest compact_encode_u128_def Let_def)
  qed
qed

theorem compact_u128_canonical:
  assumes d: "compact_decode_u128 input = Inr (x, rest)"
  shows "input = compact_encode_u128 x @ rest"
proof (cases input)
  case Nil
  with d show ?thesis by (simp add: compact_decode_u128_def)
next
  case (Cons p r)
  with d have d': "compact_decode_u128 (p # r) = Inr (x, rest)" by simp
  consider "unat p mod 4 = 0" | "unat p mod 4 = 1" | "unat p mod 4 = 2" | "unat p mod 4 = 3" by linarith
  then have "p # r = compact_encode_u128 x @ rest"
    by cases (fact compact_u128_canonical_mode0 [OF d'] compact_u128_canonical_mode1 [OF d']
        compact_u128_canonical_mode2 [OF d'] compact_u128_canonical_mode3 [OF d'])+
  with Cons show ?thesis by simp
qed

lemma vec_canonical:
  assumes d: "decode_vec input = Inr (v, rest)"
  shows "input = encode_vec v @ rest"
proof (cases "compact_decode_u32 input")
  case (Inl e)
  with d show ?thesis by (simp add: decode_vec_def)
next
  case (Inr a)
  then obtain len r where c: "compact_decode_u32 input = Inr (len, r)" by (cases a) auto
  with d have "read_bytes (unat len) r = Inr (v, rest)" by (simp add: decode_vec_def)
  then have r: "r = v @ rest" and l: "length v = unat len" by (simp_all add: read_bytes_Inr)
  have "input = compact_encode_u32 len @ r" using c by (rule compact_u32_canonical)
  moreover have "(word_of_nat (length v) :: u32) = len" by (simp add: l)
  ultimately show ?thesis by (simp add: r encode_vec_def)
qed

lemma vecs_canonical:
  "decode_vecs n input = Inr (vs, rest) \<Longrightarrow> input = concat (map encode_vec vs) @ rest \<and> length vs = n"
proof (induction n arbitrary: input vs)
  case 0
  then show ?case by simp
next
  case (Suc n)
  from Suc.prems obtain v r vs' where v: "decode_vec input = Inr (v, r)"
    and vs: "decode_vecs n r = Inr (vs', rest)" and eq: "vs = v # vs'"
    by (auto split: sum.splits)
  from vs have "r = concat (map encode_vec vs') @ rest \<and> length vs' = n" by (rule Suc.IH)
  moreover have "input = encode_vec v @ r" using v by (rule vec_canonical)
  ultimately show ?case by (simp add: eq)
qed

end
