(* ===== verification/Call.thy ===== *)
theory Call
  imports Scale
begin

text \<open>
  The call encoder: \<open>compose_call!\<close> of ac-compose-macros, which \<open>src/main.rs\<close>
  uses at lines 63-70 to build the \<open>TemplateModule::disassembled\<close> call from the
  metadata the session fetched. The macro looks the pallet up by name, then the call
  variant by name, and yields the tuple \<open>([pallet index, call index], args...)\<close>,
  or \<open>None\<close>; it does not look at the variant's fields. The SCALE encoding of that tuple
  is the two index bytes followed by each argument's encoding; every argument here is a
  \<open>Vec<u8>\<close>.

  Metadata is modelled as what the macro and the runtime's decoder read of it: pallets
  with a name, an index and call variants, each variant with a name, an index and its
  field names (all fields of the calls considered are \<open>Vec<u8>\<close>). The decoder is the
  runtime side: it dispatches on the two index bytes and reads one vector per field.
\<close>

record call_variant =
  cv_name :: string
  cv_index :: u8
  cv_fields :: "string list"

record pallet_metadata =
  pm_name :: string
  pm_index :: u8
  pm_calls :: "call_variant list"

type_synonym metadata = "pallet_metadata list"

text \<open>The composed call: the tuple \<open>([u8; 2], Vec<u8>, ...)\<close>.\<close>

record composed_call =
  call_pallet :: u8
  call_variant_idx :: u8
  call_args :: "bytes list"

definition pallet_by_name :: "metadata \<Rightarrow> string \<Rightarrow> pallet_metadata option" where
  "pallet_by_name md name = find (\<lambda>p. pm_name p = name) md"

definition call_variant_by_name :: "pallet_metadata \<Rightarrow> string \<Rightarrow> call_variant option" where
  "call_variant_by_name p name = find (\<lambda>v. cv_name v = name) (pm_calls p)"

definition compose_call :: "metadata \<Rightarrow> string \<Rightarrow> string \<Rightarrow> bytes list \<Rightarrow> composed_call option" where
  "compose_call md pallet_name call_name args =
     (case pallet_by_name md pallet_name of
        None \<Rightarrow> None
      | Some pallet \<Rightarrow>
          (case call_variant_by_name pallet call_name of
             None \<Rightarrow> None
           | Some v \<Rightarrow> Some \<lparr>call_pallet = pm_index pallet, call_variant_idx = cv_index v,
                            call_args = args\<rparr>))"

definition encode_call :: "composed_call \<Rightarrow> bytes" where
  "encode_call c = [call_pallet c, call_variant_idx c] @ concat (map encode_vec (call_args c))"

subsection \<open>The runtime's view: decoding a call against the metadata\<close>

definition pallet_by_index :: "metadata \<Rightarrow> u8 \<Rightarrow> pallet_metadata option" where
  "pallet_by_index md i = find (\<lambda>p. pm_index p = i) md"

definition variant_by_index :: "pallet_metadata \<Rightarrow> u8 \<Rightarrow> call_variant option" where
  "variant_by_index p i = find (\<lambda>v. cv_index v = i) (pm_calls p)"

definition decode_call :: "metadata \<Rightarrow> bytes \<Rightarrow> codec_error + (string \<times> string \<times> bytes list)" where
  "decode_call md input =
     (case input of
        pi # ci # rest \<Rightarrow>
          (case pallet_by_index md pi of
             None \<Rightarrow> Inl UnknownPallet
           | Some p \<Rightarrow>
               (case variant_by_index p ci of
                  None \<Rightarrow> Inl UnknownCall
                | Some v \<Rightarrow>
                    (case decode_vecs (length (cv_fields v)) rest of
                       Inl e \<Rightarrow> Inl e
                     | Inr (args, rest') \<Rightarrow>
                         (if rest' = [] then Inr (pm_name p, cv_name v, args)
                          else Inl TrailingBytes))))
      | _ \<Rightarrow> Inl EndOfInput)"

text \<open>Metadata as a chain publishes it: names and indices unique at each level.\<close>

definition metadata_wf :: "metadata \<Rightarrow> bool" where
  "metadata_wf md \<longleftrightarrow>
     distinct (map pm_name md) \<and> distinct (map pm_index md)
     \<and> list_all (\<lambda>p. distinct (map cv_name (pm_calls p)) \<and> distinct (map cv_index (pm_calls p))) md"

text \<open>The number of arguments the metadata declares for a call.\<close>

definition call_arity :: "metadata \<Rightarrow> string \<Rightarrow> string \<Rightarrow> nat option" where
  "call_arity md pallet_name call_name =
     (case pallet_by_name md pallet_name of
        None \<Rightarrow> None
      | Some p \<Rightarrow> map_option (\<lambda>v. length (cv_fields v)) (call_variant_by_name p call_name))"

subsection \<open>Lemmas\<close>

lemma compose_call_Some:
  "compose_call md pn cn args = Some c \<longleftrightarrow>
   (\<exists>p v. pallet_by_name md pn = Some p \<and> call_variant_by_name p cn = Some v
          \<and> c = \<lparr>call_pallet = pm_index p, call_variant_idx = cv_index v, call_args = args\<rparr>)"
  by (auto simp: compose_call_def split: option.splits)

lemma compose_call_None_iff_arity:
  "compose_call md pn cn args = None \<longleftrightarrow> call_arity md pn cn = None"
  by (simp add: compose_call_def call_arity_def split: option.splits)

text \<open>On well-formed metadata the runtime finds the pallet and variant of a composed call
  and reads as many vectors as the variant declares.\<close>

lemma decode_composed_call:
  assumes wf: "metadata_wf md"
    and c: "compose_call md pn cn args = Some c"
    and ar: "call_arity md pn cn = Some k"
  shows "decode_call md (encode_call c) =
           (case decode_vecs k (concat (map encode_vec args)) of
              Inl e \<Rightarrow> Inl e
            | Inr (args', r) \<Rightarrow> if r = [] then Inr (pn, cn, args') else Inl TrailingBytes)"
proof -
  from c obtain p v where p: "pallet_by_name md pn = Some p" and v: "call_variant_by_name p cn = Some v"
    and cc: "c = \<lparr>call_pallet = pm_index p, call_variant_idx = cv_index v, call_args = args\<rparr>"
    by (auto simp: compose_call_Some)
  from p have pin: "p \<in> set md" and pn: "pm_name p = pn"
    by (auto simp: pallet_by_name_def find_Some_iff in_set_conv_nth)
  from v have vin: "v \<in> set (pm_calls p)" and cn: "cv_name v = cn"
    by (auto simp: call_variant_by_name_def find_Some_iff in_set_conv_nth)
  from wf pin have "pallet_by_index md (pm_index p) = Some p"
    by (simp add: metadata_wf_def pallet_by_index_def find_distinct_key)
  moreover from wf pin vin have "variant_by_index p (cv_index v) = Some v"
    by (auto simp: metadata_wf_def variant_by_index_def list_all_iff find_distinct_key)
  moreover from ar p v have "length (cv_fields v) = k"
    by (simp add: call_arity_def)
  ultimately show ?thesis
    by (simp add: decode_call_def encode_call_def cc pn cn split: sum.split)
qed

lemma call_roundtrip:
  assumes wf: "metadata_wf md"
    and c: "compose_call md pn cn args = Some c"
    and ar: "call_arity md pn cn = Some (length args)"
    and len: "list_all (\<lambda>a. length a < 2 ^ 32) args"
  shows "decode_call md (encode_call c) = Inr (pn, cn, args)"
proof -
  from len have "decode_vecs (length args) (concat (map encode_vec args)) = Inr (args, [])"
    using vecs_roundtrip [of args "[]"] by (simp add: list_all_iff)
  with decode_composed_call [OF wf c ar] show ?thesis by simp
qed

text \<open>The runtime's decoder accepts only what \<^const>\<open>compose_call\<close> and
  \<^const>\<open>encode_call\<close> produce for the pallet and call it names.\<close>

lemma call_canonical:
  assumes wf: "metadata_wf md"
    and d: "decode_call md input = Inr (pn, cn, args)"
  shows "\<exists>c. compose_call md pn cn args = Some c \<and> input = encode_call c"
proof -
  obtain pi ci rest where input: "input = pi # ci # rest"
    using d by (cases input rule: remdups_adj.cases) (auto simp: decode_call_def)
  from d input obtain p where p: "pallet_by_index md pi = Some p"
    by (auto simp: decode_call_def split: option.splits)
  from d input p obtain v where v: "variant_by_index p ci = Some v"
    by (auto simp: decode_call_def split: option.splits)
  from d input p v obtain rest' where vs: "decode_vecs (length (cv_fields v)) rest = Inr (args, rest')"
    and r0: "rest' = []" and pn: "pn = pm_name p" and cn: "cn = cv_name v"
    by (auto simp: decode_call_def split: sum.splits if_splits)
  from p have pin: "p \<in> set md" and pi: "pm_index p = pi"
    by (auto simp: pallet_by_index_def find_Some_iff in_set_conv_nth)
  from v have vin: "v \<in> set (pm_calls p)" and ci: "cv_index v = ci"
    by (auto simp: variant_by_index_def find_Some_iff in_set_conv_nth)
  from wf pin have "pallet_by_name md (pm_name p) = Some p"
    by (simp add: metadata_wf_def pallet_by_name_def find_distinct_key)
  moreover from wf pin vin have "call_variant_by_name p (cv_name v) = Some v"
    by (auto simp: metadata_wf_def call_variant_by_name_def list_all_iff find_distinct_key)
  moreover have "rest = concat (map encode_vec args)" using vecs_canonical [OF vs] r0 by simp
  ultimately show ?thesis
    by (simp add: compose_call_def encode_call_def input pn cn pi ci)
qed

end
