(* ===== verification/Extrinsic.thy ===== *)
theory Extrinsic
  imports Era Call
begin

text \<open>
  The extrinsic builder. \<open>src/main.rs\<close> lines 80-82 build
  \<open>GenericAdditionalParams\<close> with the mortal era, its checkpoint (the finalized head's
  hash) and tip 0; lines 84-90 combine them with the versions, the nonce and the genesis
  hash in \<open>GenericExtrinsicParams::new\<close>; line 92 signs and assembles the transaction
  with \<open>compose_extrinsic_offline!\<close>. Modelled after substrate-api-client: the signed
  extra \<open>(era, Compact(nonce), tip)\<close>, the additional signed data
  \<open>(spec_version, transaction_version, genesis_hash, mortality_checkpoint)\<close>, the
  \<open>SignedPayload\<close> rule that a payload longer than 256 bytes is signed through its
  BLAKE2-256 hash, and the \<open>UncheckedExtrinsicV4\<close> wire format. The signing key and the
  hash function are parameters: the signer is Alice's sr25519 pair, whose cryptography
  is outside the model.
\<close>

text \<open>\<open>GenericAdditionalParams<PlainTip<Balance>, Hash>\<close>; the tip is a \<open>u128\<close>.\<close>

record additional_params =
  ap_era :: era
  ap_mortality_checkpoint :: "hash option"
  ap_tip :: nat

definition additional_params_new :: additional_params where
  "additional_params_new = \<lparr>ap_era = Immortal, ap_mortality_checkpoint = None, ap_tip = 0\<rparr>"

definition ap_with_era :: "additional_params \<Rightarrow> era \<Rightarrow> hash \<Rightarrow> additional_params" where
  "ap_with_era p e checkpoint = p\<lparr>ap_era := e, ap_mortality_checkpoint := Some checkpoint\<rparr>"

definition ap_with_tip :: "additional_params \<Rightarrow> nat \<Rightarrow> additional_params" where
  "ap_with_tip p t = p\<lparr>ap_tip := t\<rparr>"

text \<open>\<open>GenericExtrinsicParams\<close>; \<open>Index\<close> is \<open>u32\<close>.\<close>

record extrinsic_params =
  ep_era :: era
  ep_nonce :: u32
  ep_tip :: nat
  ep_spec_version :: u32
  ep_transaction_version :: u32
  ep_genesis_hash :: hash
  ep_mortality_checkpoint :: hash

text \<open>\<open>ExtrinsicParams::new\<close>: without a checkpoint the genesis hash is used.\<close>

definition extrinsic_params_new ::
  "u32 \<Rightarrow> u32 \<Rightarrow> u32 \<Rightarrow> hash \<Rightarrow> additional_params \<Rightarrow> extrinsic_params"
where
  "extrinsic_params_new spec_version transaction_version nonce genesis_hash ap =
     \<lparr>ep_era = ap_era ap, ep_nonce = nonce, ep_tip = ap_tip ap,
      ep_spec_version = spec_version, ep_transaction_version = transaction_version,
      ep_genesis_hash = genesis_hash,
      ep_mortality_checkpoint = (case ap_mortality_checkpoint ap of Some h \<Rightarrow> h | None \<Rightarrow> genesis_hash)\<rparr>"

record signed_extra =
  se_era :: era
  se_nonce :: u32
  se_tip :: nat

definition signed_extra :: "extrinsic_params \<Rightarrow> signed_extra" where
  "signed_extra p = \<lparr>se_era = ep_era p, se_nonce = ep_nonce p, se_tip = ep_tip p\<rparr>"

definition encode_signed_extra :: "signed_extra \<Rightarrow> bytes" where
  "encode_signed_extra x =
     era_encode (se_era x) @ compact_encode_u32 (se_nonce x) @ compact_encode_u128 (se_tip x)"

text \<open>\<open>additional_signed\<close>, encoded: the two versions as \<open>u32\<close>, then the two hashes.\<close>

definition encode_additional_signed :: "extrinsic_params \<Rightarrow> bytes" where
  "encode_additional_signed p =
     encode_u32 (ep_spec_version p) @ encode_u32 (ep_transaction_version p)
     @ ep_genesis_hash p @ ep_mortality_checkpoint p"

text \<open>The signing identity: its public key (\<open>AccountId32\<close>) and its signing function.\<close>

record signer =
  signer_public :: bytes
  signer_sign :: "bytes \<Rightarrow> bytes"

text \<open>\<open>SignedPayload::from_raw(call, extra, additional).encode()\<close>.\<close>

definition signed_payload :: "composed_call \<Rightarrow> extrinsic_params \<Rightarrow> bytes" where
  "signed_payload call p =
     encode_call call @ encode_signed_extra (signed_extra p) @ encode_additional_signed p"

text \<open>\<open>SignedPayload::using_encoded\<close>: what is handed to the signer.\<close>

definition payload_to_sign :: "(bytes \<Rightarrow> hash) \<Rightarrow> bytes \<Rightarrow> bytes" where
  "payload_to_sign blake2_256 payload =
     (if length payload > 256 then blake2_256 payload else payload)"

text \<open>\<open>UncheckedExtrinsicV4\<close> with its signature part \<open>(address, signature, extra)\<close>.\<close>

record unchecked_extrinsic =
  xt_address :: bytes
  xt_signature :: bytes
  xt_extra :: signed_extra
  xt_call :: composed_call

definition compose_extrinsic_offline ::
  "(bytes \<Rightarrow> hash) \<Rightarrow> signer \<Rightarrow> composed_call \<Rightarrow> extrinsic_params \<Rightarrow> unchecked_extrinsic"
where
  "compose_extrinsic_offline blake2_256 extrinsic_signer call params =
     (let extra = signed_extra params;
          signature = signer_sign extrinsic_signer (payload_to_sign blake2_256 (signed_payload call params))
      in \<lparr>xt_address = signer_public extrinsic_signer, xt_signature = signature, xt_extra = extra, xt_call = call\<rparr>)"

text \<open>
  \<open>Encode for UncheckedExtrinsicV4\<close>: a \<open>Vec\<close>-style length prefix, the version byte
  \<open>4 | 0b1000_0000\<close> of a signed extrinsic, the address as \<open>MultiAddress::Id\<close>
  (tag 0), the signature as \<open>MultiSignature::Sr25519\<close> (tag 1), the extra, the call.
\<close>

definition encode_extrinsic :: "unchecked_extrinsic \<Rightarrow> bytes" where
  "encode_extrinsic xt =
     encode_vec ([0x84] @ (0 # xt_address xt) @ (1 # xt_signature xt)
                 @ encode_signed_extra (xt_extra xt) @ encode_call (xt_call xt))"


subsection \<open>The runtime's view: decoding the transaction\<close>

text \<open>\<open>Decode for GenericSignedExtra\<close>: the era, the compact nonce, the compact tip.\<close>

definition decode_signed_extra :: "bytes \<Rightarrow> codec_error + (signed_extra \<times> bytes)" where
  "decode_signed_extra input =
     (case era_decode input of
        Inl e \<Rightarrow> Inl e
      | Inr (era, r1) \<Rightarrow>
          (case compact_decode_u32 r1 of
             Inl e \<Rightarrow> Inl e
           | Inr (nonce, r2) \<Rightarrow>
               (case compact_decode_u128 r2 of
                  Inl e \<Rightarrow> Inl e
                | Inr (tip, r3) \<Rightarrow> Inr (\<lparr>se_era = era, se_nonce = nonce, se_tip = tip\<rparr>, r3))))"

text \<open>
  \<open>Decode for UncheckedExtrinsicV4\<close> as the node applies it to the submitted bytes:
  the length prefix must cover the whole input; the version byte must be that of a
  signed version-4 extrinsic; then the address, the signature, the extra, and the call
  against the runtime's metadata. Only the address and signature variants the program
  produces are decoded.
\<close>

definition decode_extrinsic ::
  "metadata \<Rightarrow> bytes \<Rightarrow> codec_error + (bytes \<times> bytes \<times> signed_extra \<times> string \<times> string \<times> bytes list)"
where
  "decode_extrinsic md input =
     (case decode_vec input of
        Inl e \<Rightarrow> Inl e
      | Inr (body, rest) \<Rightarrow>
          if rest \<noteq> [] then Inl TrailingBytes
          else (case body of
            [] \<Rightarrow> Inl EndOfInput
          | v # b1 \<Rightarrow>
              if v \<noteq> 0x84 then Inl InvalidVersion
              else (case b1 of
                [] \<Rightarrow> Inl EndOfInput
              | at # b2 \<Rightarrow>
                  if at \<noteq> 0 then Inl UnsupportedAddress
                  else (case read_bytes 32 b2 of
                    Inl e \<Rightarrow> Inl e
                  | Inr (addr, b3) \<Rightarrow>
                      (case b3 of
                        [] \<Rightarrow> Inl EndOfInput
                      | st # b4 \<Rightarrow>
                          if st \<noteq> 1 then Inl UnsupportedSignature
                          else (case read_bytes 64 b4 of
                            Inl e \<Rightarrow> Inl e
                          | Inr (sig, b5) \<Rightarrow>
                              (case decode_signed_extra b5 of
                                Inl e \<Rightarrow> Inl e
                              | Inr (extra, b6) \<Rightarrow>
                                  (case decode_call md b6 of
                                    Inl e \<Rightarrow> Inl e
                                  | Inr (pn, cn, args) \<Rightarrow> Inr (addr, sig, extra, pn, cn, args)))))))))"

text \<open>
  An extrinsic whose values lie in the ranges of their Rust types: an era that
  \<open>Era::mortal\<close> or \<open>Era::Immortal\<close> can be, a tip that fits \<open>u128\<close>, and call
  arguments whose lengths fit the \<open>u32\<close> of their compact length prefix.
\<close>

definition extrinsic_wf :: "unchecked_extrinsic \<Rightarrow> bool" where
  "extrinsic_wf xt \<longleftrightarrow> era_wf (se_era (xt_extra xt)) \<and> se_tip (xt_extra xt) < 2 ^ 128
     \<and> list_all (\<lambda>a. length a < 2 ^ 32) (call_args (xt_call xt))"

subsection \<open>Lemmas: the transaction decodes to what was signed\<close>

lemma signed_extra_roundtrip:
  "era_wf (se_era x) \<Longrightarrow> se_tip x < 2 ^ 128 \<Longrightarrow>
   decode_signed_extra (encode_signed_extra x @ rest) = Inr (x, rest)"
  by (simp add: decode_signed_extra_def encode_signed_extra_def era_roundtrip compact_u32_roundtrip
      compact_u128_roundtrip)

lemma extrinsic_roundtrip:
  assumes "length (xt_address xt) = 32" and "length (xt_signature xt) = 64"
    and "era_wf (se_era (xt_extra xt))" and "se_tip (xt_extra xt) < 2 ^ 128"
    and "decode_call md (encode_call (xt_call xt)) = Inr (pn, cn, args)"
    and "length (encode_signed_extra (xt_extra xt) @ encode_call (xt_call xt)) < 2 ^ 31"
  shows "decode_extrinsic md (encode_extrinsic xt) =
           Inr (xt_address xt, xt_signature xt, xt_extra xt, pn, cn, args)"
proof -
  let ?body = "[0x84] @ (0 # xt_address xt) @ (1 # xt_signature xt)
                 @ encode_signed_extra (xt_extra xt) @ encode_call (xt_call xt)"
  have "length ?body < 2 ^ 32" using assms(1,2,6) by simp
  then have "decode_vec (encode_vec ?body @ []) = Inr (?body, [])" by (rule vec_roundtrip)
  then have v: "decode_vec (encode_extrinsic xt) = Inr (?body, [])" by (simp add: encode_extrinsic_def)
  have "decode_signed_extra (encode_signed_extra (xt_extra xt) @ encode_call (xt_call xt))
        = Inr (xt_extra xt, encode_call (xt_call xt))"
    using assms(3,4) by (rule signed_extra_roundtrip)
  with v assms(1,2,5) show ?thesis by (simp add: decode_extrinsic_def)
qed


subsection \<open>Lemmas: the node accepts only canonical encodings\<close>

text \<open>Every byte string the node's decoder accepts is the encoding of the transaction it
  decodes to, its call composed from the names the decoder returns: no other bytes are
  read as the same transaction.\<close>

lemma signed_extra_canonical:
  assumes d: "decode_signed_extra input = Inr (x, rest)"
  shows "input = encode_signed_extra x @ rest"
proof -
  from d obtain era r1 nonce r2 tip where e: "era_decode input = Inr (era, r1)"
    and n: "compact_decode_u32 r1 = Inr (nonce, r2)" and t: "compact_decode_u128 r2 = Inr (tip, rest)"
    and x: "x = \<lparr>se_era = era, se_nonce = nonce, se_tip = tip\<rparr>"
    by (auto simp: decode_signed_extra_def split: sum.splits)
  from era_canonical [OF e] compact_u32_canonical [OF n] compact_u128_canonical [OF t] x
  show ?thesis by (simp add: encode_signed_extra_def)
qed

lemma extrinsic_canonical:
  assumes wf: "metadata_wf md"
    and d: "decode_extrinsic md input = Inr (addr, sig, extra, pn, cn, args)"
  shows "\<exists>c. compose_call md pn cn args = Some c
           \<and> input = encode_extrinsic \<lparr>xt_address = addr, xt_signature = sig, xt_extra = extra, xt_call = c\<rparr>"
proof -
  from d obtain body where v: "decode_vec input = Inr (body, [])"
    by (auto simp: decode_extrinsic_def split: sum.splits if_splits)
  from d v obtain b2 b4 b5 b6 where body: "body = 0x84 # 0 # b2"
    and a: "read_bytes 32 b2 = Inr (addr, 1 # b4)" and s: "read_bytes 64 b4 = Inr (sig, b5)"
    and x: "decode_signed_extra b5 = Inr (extra, b6)" and c: "decode_call md b6 = Inr (pn, cn, args)"
    by (auto simp: decode_extrinsic_def split: sum.splits if_splits list.splits)
  obtain cc where cc: "compose_call md pn cn args = Some cc" and b6: "b6 = encode_call cc"
    using call_canonical [OF wf c] by blast
  have "body = [0x84] @ (0 # addr) @ (1 # sig) @ encode_signed_extra extra @ encode_call cc"
    using body read_bytes_Inr [OF a] read_bytes_Inr [OF s] signed_extra_canonical [OF x] b6 by simp
  then have "input = encode_extrinsic \<lparr>xt_address = addr, xt_signature = sig, xt_extra = extra, xt_call = cc\<rparr>"
    using vec_canonical [OF v] by (simp add: encode_extrinsic_def)
  with cc show ?thesis by blast
qed

end
