(* ===== verification/Watch.thy ===== *)
theory Watch
  imports Prelude
begin

text \<open>
  The submission tracker: \<open>SubmitAndWatch::submit_and_watch_extrinsic_until\<close> of
  substrate-api-client, which \<open>src/main.rs\<close> calls at line 93 with
  \<open>XtStatus::InBlock\<close>. It submits the encoded extrinsic, then reads the node's
  status subscription until a status is reached or rejected, and unsubscribes.

  The subscription is an infinite stream of events: \<open>Status st\<close> and
  \<open>StatusError e\<close> are \<open>subscription.next()\<close> returning \<open>Some (Ok st)\<close> and
  \<open>Some (Err e)\<close>, \<open>Closed\<close> is \<open>None\<close> (the stream ended), and \<open>Idle\<close> is a
  moment in which the node sends nothing and \<open>next().await\<close> keeps waiting. The loop is
  a \<^theory_text>\<open>partial_function (option)\<close>: \<open>None\<close> is a watch that never returns.
\<close>

type_synonym rpc_error = string

datatype tx_status =
    Future | Ready | Broadcast "string list" | InBlock hash | Retracted hash
  | FinalityTimeout hash | Finalized hash | Usurped hash | Dropped | Invalid

datatype xt_status = XtReady | XtBroadcast | XtInBlock | XtFinalized

datatype api_error =
    RpcClient rpc_error | NoSigner | NoStream | UnexpectedTxStatus tx_status

datatype sub_event = Status tx_status | StatusError rpc_error | Closed | Idle

record subscription =
  sub_events :: "sub_event stream"
  sub_unsubscribe :: "rpc_error option"

record extrinsic_report =
  extrinsic_hash :: hash
  block_hash :: "hash option"
  report_status :: tx_status

fun as_u8 :: "tx_status \<Rightarrow> u8" where
  "as_u8 Future = 0"
| "as_u8 Ready = 1"
| "as_u8 (Broadcast _) = 2"
| "as_u8 (InBlock _) = 3"
| "as_u8 (Retracted _) = 4"
| "as_u8 (FinalityTimeout _) = 5"
| "as_u8 (Finalized _) = 6"
| "as_u8 (Usurped _) = 7"
| "as_u8 Dropped = 8"
| "as_u8 Invalid = 9"

text \<open>The discriminants of \<open>XtStatus\<close>, read by \<open>status as u8\<close>.\<close>

fun xt_status_u8 :: "xt_status \<Rightarrow> u8" where
  "xt_status_u8 XtReady = 1"
| "xt_status_u8 XtBroadcast = 2"
| "xt_status_u8 XtInBlock = 3"
| "xt_status_u8 XtFinalized = 6"

fun is_expected :: "tx_status \<Rightarrow> api_error + unit" where
  "is_expected Ready = Inr ()"
| "is_expected (Broadcast _) = Inr ()"
| "is_expected Future = Inr ()"
| "is_expected (InBlock _) = Inr ()"
| "is_expected (Finalized _) = Inr ()"
| "is_expected st = Inl (UnexpectedTxStatus st)"

definition reached_status :: "tx_status \<Rightarrow> xt_status \<Rightarrow> bool" where
  "reached_status st until \<longleftrightarrow> xt_status_u8 until \<le> as_u8 st"

fun get_maybe_block_hash :: "tx_status \<Rightarrow> hash option" where
  "get_maybe_block_hash (InBlock h) = Some h"
| "get_maybe_block_hash (Retracted h) = Some h"
| "get_maybe_block_hash (FinalityTimeout h) = Some h"
| "get_maybe_block_hash (Finalized h) = Some h"
| "get_maybe_block_hash _ = None"

text \<open>
  The \<open>while let Some(transaction_status) = subscription.next().await\<close> loop. After a
  decision the subscription is unsubscribed; a failing unsubscribe (\<open>?\<close>) replaces
  the outcome by its error.
\<close>

partial_function (option) watch_until ::
  "xt_status \<Rightarrow> hash \<Rightarrow> rpc_error option \<Rightarrow> sub_event stream \<Rightarrow> (api_error + extrinsic_report) option"
where
  "watch_until until tx_hash unsub s =
     (case shd s of
        Idle \<Rightarrow> watch_until until tx_hash unsub (stl s)
      | Closed \<Rightarrow> Some (Inl NoStream)
      | StatusError e \<Rightarrow> Some (Inl (RpcClient e))
      | Status st \<Rightarrow>
          (case is_expected st of
             Inr _ \<Rightarrow>
               (if reached_status st until
                then (case unsub of
                        Some e \<Rightarrow> Some (Inl (RpcClient e))
                      | None \<Rightarrow> Some (Inr \<lparr>extrinsic_hash = tx_hash,
                                           block_hash = get_maybe_block_hash st,
                                           report_status = st\<rparr>))
                else watch_until until tx_hash unsub (stl s))
           | Inl err \<Rightarrow>
               (case unsub of
                  Some e \<Rightarrow> Some (Inl (RpcClient e))
                | None \<Rightarrow> Some (Inl err))))"

text \<open>
  \<open>submit_and_watch_opaque_extrinsic_until\<close>: the transaction hash is the runtime
  hasher (BLAKE2-256, a parameter here) of the encoded extrinsic; a failing submission
  is the \<open>?\<close> on \<open>submit_and_watch_opaque_extrinsic\<close>.
\<close>

definition submit_and_watch_until ::
  "(bytes \<Rightarrow> rpc_error + subscription) \<Rightarrow> (bytes \<Rightarrow> hash) \<Rightarrow> bytes \<Rightarrow> xt_status
   \<Rightarrow> (api_error + extrinsic_report) option"
where
  "submit_and_watch_until submit hasher encoded until =
     (case submit encoded of
        Inl e \<Rightarrow> Some (Inl (RpcClient e))
      | Inr sub \<Rightarrow> watch_until until (hasher encoded) (sub_unsubscribe sub) (sub_events sub))"

text \<open>
  An event on which the loop stops (when it is the first such event): anything but
  \<open>Idle\<close> and a status that is expected but not yet at the requested level.
\<close>

fun decisive :: "xt_status \<Rightarrow> sub_event \<Rightarrow> bool" where
  "decisive until Idle = False"
| "decisive until (Status st) = (is_expected st \<noteq> Inr () \<or> reached_status st until)"
| "decisive until _ = True"

text \<open>
  What the watch promises: its outcome is decided by the first decisive event alone.
  A failing unsubscribe after the decision wins over the decision.
\<close>

fun decide :: "xt_status \<Rightarrow> hash \<Rightarrow> rpc_error option \<Rightarrow> sub_event \<Rightarrow> api_error + extrinsic_report" where
  "decide until h unsub (Status st) =
     (case unsub of
        Some e \<Rightarrow> Inl (RpcClient e)
      | None \<Rightarrow>
          (case is_expected st of
             Inl err \<Rightarrow> Inl err
           | Inr _ \<Rightarrow> Inr \<lparr>extrinsic_hash = h, block_hash = get_maybe_block_hash st, report_status = st\<rparr>))"
| "decide until h unsub (StatusError e) = Inl (RpcClient e)"
| "decide until h unsub _ = Inl NoStream"

text \<open>
  The watch as the state machine of the specification (section 4.6), one rule per branch
  of the loop: the outcome \<open>r\<close> is reached from the stream \<open>s\<close> by skipping idle
  moments and statuses below the requested level, until a status at that level, an
  unexpected status, an error or the end of the stream.
\<close>

inductive watch_run :: "xt_status \<Rightarrow> hash \<Rightarrow> rpc_error option \<Rightarrow> sub_event stream \<Rightarrow> api_error + extrinsic_report \<Rightarrow> bool"
  for until h u
where
  run_idle: "shd s = Idle \<Longrightarrow> watch_run until h u (stl s) r \<Longrightarrow> watch_run until h u s r"
| run_pending: "shd s = Status st \<Longrightarrow> is_expected st = Inr () \<Longrightarrow> \<not> reached_status st until
    \<Longrightarrow> watch_run until h u (stl s) r \<Longrightarrow> watch_run until h u s r"
| run_reached: "shd s = Status st \<Longrightarrow> is_expected st = Inr () \<Longrightarrow> reached_status st until
    \<Longrightarrow> watch_run until h u s (case u of Some e \<Rightarrow> Inl (RpcClient e)
           | None \<Rightarrow> Inr \<lparr>extrinsic_hash = h, block_hash = get_maybe_block_hash st, report_status = st\<rparr>)"
| run_rejected: "shd s = Status st \<Longrightarrow> is_expected st = Inl err
    \<Longrightarrow> watch_run until h u s (case u of Some e \<Rightarrow> Inl (RpcClient e) | None \<Rightarrow> Inl err)"
| run_error: "shd s = StatusError e \<Longrightarrow> watch_run until h u s (Inl (RpcClient e))"
| run_closed: "shd s = Closed \<Longrightarrow> watch_run until h u s (Inl NoStream)"

subsection \<open>Lemmas: the watch loop decides on the first decisive event\<close>

lemma watch_until_nondecisive:
  "\<not> decisive until (shd s) \<Longrightarrow> watch_until until h u s = watch_until until h u (stl s)"
  by (subst watch_until.simps) (auto split: sub_event.splits sum.splits)

lemma watch_until_decisive:
  "decisive until (shd s) \<Longrightarrow> watch_until until h u s = Some (decide until h u (shd s))"
  by (subst watch_until.simps) (auto split: sub_event.splits sum.splits option.splits)

lemma watch_until_first:
  "decisive until (s !! n) \<Longrightarrow> (\<forall>m<n. \<not> decisive until (s !! m))
   \<Longrightarrow> watch_until until h u s = Some (decide until h u (s !! n))"
proof (induction n arbitrary: s)
  case 0
  then show ?case by (simp add: watch_until_decisive)
next
  case (Suc n)
  from Suc.prems(2) have nd: "\<not> decisive until (shd s)" by (metis snth.simps(1) zero_less_Suc)
  from Suc.prems have "decisive until (stl s !! n)" and "\<forall>m<n. \<not> decisive until (stl s !! m)"
    by auto
  then have "watch_until until h u (stl s) = Some (decide until h u (stl s !! n))" by (rule Suc.IH)
  with nd show ?case by (simp add: watch_until_nondecisive)
qed

lemma watch_until_Some_decisive:
  assumes "watch_until until h u s = Some r"
  shows "\<exists>n. decisive until (s !! n)"
  apply (rule watch_until.raw_induct [where P = "\<lambda>until h u s r. \<exists>n. decisive until (s !! n)", OF _ assms])
  subgoal premises prems for f until h u s r
  proof (cases "decisive until (shd s)")
    case True
    then have "decisive until (s !! 0)" by simp
    then show ?thesis ..
  next
    case False
    with prems(2) have "f until h u (stl s) = Some r"
      by (auto split: sub_event.splits sum.splits)
    then obtain n where "decisive until (stl s !! n)" using prems(1) by blast
    then have "decisive until (s !! Suc n)" by simp
    then show ?thesis ..
  qed
  done

theorem watch_until_spec:
  "watch_until until h u s =
     (if \<exists>n. decisive until (s !! n)
      then Some (decide until h u (s !! (LEAST n. decisive until (s !! n))))
      else None)"
proof (cases "\<exists>n. decisive until (s !! n)")
  case True
  define n where "n = (LEAST n. decisive until (s !! n))"
  from True have "decisive until (s !! n)" unfolding n_def by (rule LeastI_ex)
  moreover have "\<forall>m<n. \<not> decisive until (s !! m)" unfolding n_def using not_less_Least by blast
  ultimately have "watch_until until h u s = Some (decide until h u (s !! n))"
    by (rule watch_until_first)
  with True show ?thesis by (simp add: n_def)
next
  case False
  then have "watch_until until h u s = None"
    using watch_until_Some_decisive by (cases "watch_until until h u s") blast+
  with False show ?thesis by simp
qed

lemma decide_inblock:
  "decisive XtInBlock (Status st) \<Longrightarrow> decide XtInBlock h None (Status st) = Inr rep
   \<Longrightarrow> \<exists>bh. block_hash rep = Some bh \<and> (report_status rep = InBlock bh \<or> report_status rep = Finalized bh)"
  by (cases st) (auto simp: reached_status_def word_le_nat_alt)


lemma submit_and_watch_None_iff:
  "submit_and_watch_until submit hasher enc until = None \<longleftrightarrow>
   (\<exists>sub. submit enc = Inr sub \<and> (\<forall>n. \<not> decisive until (sub_events sub !! n)))"
  by (auto simp: submit_and_watch_until_def watch_until_spec split: sum.splits)

lemma watch_until_skip:
  "list_all (\<lambda>e. \<not> decisive until e) pre \<Longrightarrow> watch_until until h u (pre @- s) = watch_until until h u s"
  by (induction pre) (simp_all add: watch_until_nondecisive)

lemma watch_inblock_hash:
  "watch_until XtInBlock h u s = Some (Inr rep) \<Longrightarrow>
   \<exists>bh. block_hash rep = Some bh \<and> (report_status rep = InBlock bh \<or> report_status rep = Finalized bh)"
proof -
  assume w: "watch_until XtInBlock h u s = Some (Inr rep)"
  then have ex: "\<exists>n. decisive XtInBlock (s !! n)" by (auto simp: watch_until_spec split: if_splits)
  define n where "n = (LEAST n. decisive XtInBlock (s !! n))"
  from ex have dn: "decisive XtInBlock (s !! n)" unfolding n_def by (rule LeastI_ex)
  from w ex have d: "decide XtInBlock h u (s !! n) = Inr rep" by (simp add: watch_until_spec n_def)
  then obtain st where st: "s !! n = Status st" and u: "u = None"
    by (cases "s !! n") (auto split: option.splits)
  with dn d show ?thesis by (intro decide_inblock) simp_all
qed



lemma watch_until_ends:
  "s !! n = Closed \<or> (\<exists>e. s !! n = StatusError e) \<Longrightarrow> watch_until until h u s \<noteq> None"
proof
  assume e: "s !! n = Closed \<or> (\<exists>e. s !! n = StatusError e)" and "watch_until until h u s = None"
  then have "\<forall>n. \<not> decisive until (s !! n)" by (simp add: watch_until_spec split: if_splits)
  with e show False by (metis decisive.simps(3,4))
qed

subsection \<open>Lemmas: the loop computes the state machine's outcome\<close>

lemma is_expected_cases: "is_expected st = Inr () \<or> is_expected st = Inl (UnexpectedTxStatus st)"
  by (cases st) simp_all

lemma watch_run_until: "watch_run until h u s r \<Longrightarrow> watch_until until h u s = Some r"
proof (induction rule: watch_run.induct)
  case (run_idle s r)
  then show ?case by (subst watch_until.simps) simp
next
  case (run_pending s st r)
  then show ?case by (subst watch_until.simps) simp
next
  case (run_reached s st)
  then show ?case by (subst watch_until.simps) (simp split: option.splits)
next
  case (run_rejected s st err)
  then show ?case by (subst watch_until.simps) (simp split: option.splits)
next
  case (run_error s e)
  then show ?case by (subst watch_until.simps) simp
next
  case (run_closed s)
  then show ?case by (subst watch_until.simps) simp
qed


lemma watch_run_decisive:
  "decisive until (shd s) \<Longrightarrow> watch_run until h u s (decide until h u (shd s))"
proof (cases "shd s")
  case (Status st)
  assume d: "decisive until (shd s)"
  consider "is_expected st = Inr ()" | "is_expected st = Inl (UnexpectedTxStatus st)"
    using is_expected_cases by blast
  then show ?thesis
  proof cases
    case 1
    with d Status have "reached_status st until" by simp
    from run_reached [where h = h and u = u, OF Status 1 this] Status 1 show ?thesis by (cases u) simp_all
  next
    case 2
    from run_rejected [where h = h and u = u, OF Status 2] Status 2 show ?thesis by (cases u) simp_all
  qed
qed (simp_all add: run_error run_closed)

lemma watch_run_nondecisive:
  "\<not> decisive until (shd s) \<Longrightarrow> watch_run until h u (stl s) r \<Longrightarrow> watch_run until h u s r"
proof (cases "shd s")
  case (Status st)
  assume "\<not> decisive until (shd s)" "watch_run until h u (stl s) r"
  with Status show ?thesis by (intro run_pending [of s st]) simp_all
qed (simp_all add: run_idle)

lemma watch_run_first:
  "decisive until (s !! n) \<Longrightarrow> (\<forall>m<n. \<not> decisive until (s !! m))
   \<Longrightarrow> watch_run until h u s (decide until h u (s !! n))"
proof (induction n arbitrary: s)
  case 0
  then show ?case by (simp add: watch_run_decisive)
next
  case (Suc n)
  from Suc.prems(2) have nd: "\<not> decisive until (shd s)" by (metis snth.simps(1) zero_less_Suc)
  from Suc.prems have "decisive until (stl s !! n)" and "\<forall>m<n. \<not> decisive until (stl s !! m)"
    by auto
  then have "watch_run until h u (stl s) (decide until h u (stl s !! n))" by (rule Suc.IH)
  with nd show ?case by (simp add: watch_run_nondecisive)
qed

lemma watch_until_run:
  assumes w: "watch_until until h u s = Some r"
  shows "watch_run until h u s r"
proof -
  from w have ex: "\<exists>n. decisive until (s !! n)" by (rule watch_until_Some_decisive)
  define n where "n = (LEAST n. decisive until (s !! n))"
  from ex have dn: "decisive until (s !! n)" unfolding n_def by (rule LeastI_ex)
  have lt: "\<forall>m<n. \<not> decisive until (s !! m)" unfolding n_def using not_less_Least by blast
  from dn lt have "watch_until until h u s = Some (decide until h u (s !! n))" by (rule watch_until_first)
  with w have "r = decide until h u (s !! n)" by simp
  with dn lt show ?thesis by (simp add: watch_run_first)
qed

theorem watch_until_iff_run: "watch_until until h u s = Some r \<longleftrightarrow> watch_run until h u s r"
  using watch_until_run watch_run_until by blast

lemma watch_run_deterministic:
  "watch_run until h u s r \<Longrightarrow> watch_run until h u s r' \<Longrightarrow> r' = r"
  by (metis watch_run_until option.inject)

end
