(* ===== verification/Pipeline.thy ===== *)
theory Pipeline
  imports Extrinsic Watch
begin

text \<open>
  The program itself: \<open>main\<close> of \<open>src/main.rs\<close>, one definition per step, composed
  in the order of the source. The node is an environment record that answers each RPC
  the program makes (\<open>node\<close>); the program's result is the list of requests it sent
  and its outcome, a panic at one of its \<open>unwrap()\<close>s or the hash of the block that
  included the extrinsic, and \<open>None\<close> when it never returns. The printed output is
  added to this run in theory \<open>Console\<close>.
\<close>

subsection \<open>The chain session and the node\<close>

record runtime_version =
  rv_spec_version :: u32
  rv_transaction_version :: u32

text \<open>The header fields the program reads: \<open>number\<close> (a \<open>u32\<close> block number).\<close>

record header =
  hd_parent_hash :: hash
  hd_number :: u32

text \<open>
  The node's answer to every RPC, from the point of view of one run: connecting to a URL,
  the three fetches of \<open>Api::new\<close>, the account information of an account (\<open>None\<close>:
  no such account), the finalized head, a header by hash, and submit-and-watch.
\<close>

record node =
  nd_connect :: "string \<Rightarrow> rpc_error option"
  nd_genesis_hash :: "rpc_error + hash"
  nd_metadata :: "rpc_error + metadata"
  nd_runtime_version :: "rpc_error + runtime_version"
  nd_account_nonce :: "bytes \<Rightarrow> rpc_error + u32 option"
  nd_finalized_head :: "rpc_error + hash option"
  nd_header :: "hash \<Rightarrow> rpc_error + header option"
  nd_submit :: "bytes \<Rightarrow> rpc_error + subscription"

datatype request =
    Connect string | GetGenesisHash | GetMetadata | GetRuntimeVersion
  | GetAccountInfo bytes | GetFinalizedHead | GetHeader hash | SubmitAndWatch bytes

text \<open>\<open>Api<DefaultRuntimeConfig, JsonrpseeClient>\<close>: what the session caches.\<close>

record session =
  ss_genesis_hash :: hash
  ss_metadata :: metadata
  ss_runtime_version :: runtime_version
  ss_signer :: "signer option"

text \<open>Every \<open>unwrap()\<close> of \<open>main\<close> that can fail, by the step it guards.\<close>

datatype panic =
    ConnectFailed rpc_error | ApiNewFailed rpc_error | NonceFailed api_error
  | ComposeCallFailed | FinalizedHeadFailed rpc_error | NoFinalizedHead
  | HeaderFailed rpc_error | NoHeader | SubmitFailed api_error | NoBlockHash

datatype outcome = Panicked panic | Included hash

subsection \<open>The steps of \<open>main\<close>\<close>

definition node_url :: string where
  "node_url = ''ws://127.0.0.1:9944''"

definition connect :: "node \<Rightarrow> rpc_error + unit" where
  "connect nd = (case nd_connect nd node_url of Some e \<Rightarrow> Inl e | None \<Rightarrow> Inr ())"

text \<open>\<open>Api::new\<close>: genesis hash, metadata and runtime version, all three required.\<close>

definition api_new :: "node \<Rightarrow> rpc_error + session" where
  "api_new nd =
     (case nd_genesis_hash nd of
        Inl e \<Rightarrow> Inl e
      | Inr g \<Rightarrow>
          (case nd_metadata nd of
             Inl e \<Rightarrow> Inl e
           | Inr md \<Rightarrow>
               (case nd_runtime_version nd of
                  Inl e \<Rightarrow> Inl e
                | Inr rv \<Rightarrow> Inr \<lparr>ss_genesis_hash = g, ss_metadata = md,
                                  ss_runtime_version = rv, ss_signer = None\<rparr>)))"

definition set_signer :: "session \<Rightarrow> signer \<Rightarrow> session" where
  "set_signer s sig = s\<lparr>ss_signer := Some sig\<rparr>"

text \<open>\<open>GetAccountInformation::get_nonce\<close>: the signer's account nonce, 0 for an unknown account.\<close>

definition get_nonce :: "node \<Rightarrow> session \<Rightarrow> api_error + u32" where
  "get_nonce nd s =
     (case ss_signer s of
        None \<Rightarrow> Inl NoSigner
      | Some sig \<Rightarrow>
          (case nd_account_nonce nd (signer_public sig) of
             Inl e \<Rightarrow> Inl (RpcClient e)
           | Inr info \<Rightarrow> Inr (case info of None \<Rightarrow> 0 | Some n \<Rightarrow> n)))"

text \<open>The \<open>Disassembled\<close> value of lines 57-61.\<close>

record disassembled =
  creation_time :: bytes
  file_path :: bytes
  event_key :: bytes

definition disassembled_call :: disassembled where
  "disassembled_call =
     \<lparr>creation_time = bytes_lit ''2024GMTest'', file_path = bytes_lit ''/path/test.txt'',
      event_key = bytes_lit ''update''\<rparr>"

definition main_call :: "metadata \<Rightarrow> composed_call option" where
  "main_call md =
     compose_call md ''TemplateModule'' ''disassembled''
       [creation_time disassembled_call, file_path disassembled_call, event_key disassembled_call]"

definition period :: u64 where
  "period = 5"

text \<open>Lines 80-82: the mortal era from the header's number, checkpoint and tip.\<close>

definition main_additional_params :: "header \<Rightarrow> hash \<Rightarrow> additional_params" where
  "main_additional_params hdr h =
     ap_with_tip (ap_with_era additional_params_new (mortal period (ucast (hd_number hdr))) h) 0"

definition main_extrinsic_params :: "session \<Rightarrow> u32 \<Rightarrow> header \<Rightarrow> hash \<Rightarrow> extrinsic_params" where
  "main_extrinsic_params s nonce hdr h =
     extrinsic_params_new (rv_spec_version (ss_runtime_version s))
       (rv_transaction_version (ss_runtime_version s)) nonce (ss_genesis_hash s)
       (main_additional_params hdr h)"

text \<open>
  Line 93: submit, watch until \<open>InBlock\<close>, then \<open>.unwrap().block_hash.unwrap()\<close>.
\<close>

definition report_outcome :: "api_error + extrinsic_report \<Rightarrow> outcome" where
  "report_outcome r =
     (case r of
        Inl e \<Rightarrow> Panicked (SubmitFailed e)
      | Inr rep \<Rightarrow> (case block_hash rep of None \<Rightarrow> Panicked NoBlockHash | Some h \<Rightarrow> Included h))"

definition main_submit :: "(bytes \<Rightarrow> hash) \<Rightarrow> node \<Rightarrow> unchecked_extrinsic \<Rightarrow> outcome option" where
  "main_submit blake2_256 nd xt =
     map_option report_outcome
       (submit_and_watch_until (nd_submit nd) blake2_256 (encode_extrinsic xt) XtInBlock)"

text \<open>
  Lines 31-92 of \<open>main\<close>: everything before the submission. After the connection (one
  request) come the three fetches of \<open>Api::new\<close>, the nonce, the finalized head and
  its header, each logged when it is sent; composing the call and the extrinsic sends
  nothing. The result is the request log and the first panic or the signed extrinsic.
\<close>

definition main_build ::
  "(bytes \<Rightarrow> hash) \<Rightarrow> signer \<Rightarrow> node \<Rightarrow> request list \<times> (panic + unchecked_extrinsic)"
where
  "main_build blake2_256 alice nd =
     (let log0 = [Connect node_url] in
      case connect nd of
        Inl e \<Rightarrow> (log0, Inl (ConnectFailed e))
      | Inr _ \<Rightarrow>
      let log1 = log0 @ [GetGenesisHash, GetMetadata, GetRuntimeVersion] in
      case api_new nd of
        Inl e \<Rightarrow> (log1, Inl (ApiNewFailed e))
      | Inr api0 \<Rightarrow>
      let api = set_signer api0 alice;
          log2 = log1 @ [GetAccountInfo (signer_public alice)] in
      case get_nonce nd api of
        Inl e \<Rightarrow> (log2, Inl (NonceFailed e))
      | Inr nonce \<Rightarrow>
      case main_call (ss_metadata api) of
        None \<Rightarrow> (log2, Inl ComposeCallFailed)
      | Some call \<Rightarrow>
      let log3 = log2 @ [GetFinalizedHead] in
      case nd_finalized_head nd of
        Inl e \<Rightarrow> (log3, Inl (FinalizedHeadFailed e))
      | Inr None \<Rightarrow> (log3, Inl NoFinalizedHead)
      | Inr (Some h) \<Rightarrow>
      let log4 = log3 @ [GetHeader h] in
      case nd_header nd h of
        Inl e \<Rightarrow> (log4, Inl (HeaderFailed e))
      | Inr None \<Rightarrow> (log4, Inl NoHeader)
      | Inr (Some hdr) \<Rightarrow>
      let params = main_extrinsic_params api nonce hdr h
      in (log4, Inr (compose_extrinsic_offline blake2_256 alice call params)))"

text \<open>\<open>main\<close>, lines 30-95: build, then submit and watch (line 93).\<close>

definition main :: "(bytes \<Rightarrow> hash) \<Rightarrow> signer \<Rightarrow> node \<Rightarrow> (request list \<times> outcome) option" where
  "main blake2_256 alice nd =
     (case main_build blake2_256 alice nd of
        (log, Inl p) \<Rightarrow> Some (log, Panicked p)
      | (log, Inr xt) \<Rightarrow>
          map_option (\<lambda>out. (log @ [SubmitAndWatch (encode_extrinsic xt)], out))
            (main_submit blake2_256 nd xt))"

subsection \<open>Specification of the run: order of the requests, stage of a panic\<close>

text \<open>The position of each request in the program's fixed order.\<close>

fun request_rank :: "request \<Rightarrow> nat" where
  "request_rank (Connect _) = 0"
| "request_rank GetGenesisHash = 1"
| "request_rank GetMetadata = 2"
| "request_rank GetRuntimeVersion = 3"
| "request_rank (GetAccountInfo _) = 4"
| "request_rank GetFinalizedHead = 5"
| "request_rank (GetHeader _) = 6"
| "request_rank (SubmitAndWatch _) = 7"

text \<open>The rank of the last request sent before each panic.\<close>

fun panic_stage :: "panic \<Rightarrow> nat" where
  "panic_stage (ConnectFailed _) = 0"
| "panic_stage (ApiNewFailed _) = 3"
| "panic_stage (NonceFailed _) = 4"
| "panic_stage ComposeCallFailed = 4"
| "panic_stage (FinalizedHeadFailed _) = 5"
| "panic_stage NoFinalizedHead = 5"
| "panic_stage (HeaderFailed _) = 6"
| "panic_stage NoHeader = 6"
| "panic_stage (SubmitFailed _) = 7"
| "panic_stage NoBlockHash = 7"

text \<open>The nonce \<open>get_nonce\<close> reports for an account information answer.\<close>

definition nonce_of :: "u32 option \<Rightarrow> u32" where
  "nonce_of info = (case info of None \<Rightarrow> 0 | Some n \<Rightarrow> n)"


subsection \<open>Lemmas\<close>

text \<open>The parameters of lines 80-90, field by field.\<close>

lemma main_extrinsic_params_fields [simp]:
  "ep_era (main_extrinsic_params s n hdr h) = mortal period (ucast (hd_number hdr))"
  "ep_nonce (main_extrinsic_params s n hdr h) = n"
  "ep_tip (main_extrinsic_params s n hdr h) = 0"
  "ep_spec_version (main_extrinsic_params s n hdr h) = rv_spec_version (ss_runtime_version s)"
  "ep_transaction_version (main_extrinsic_params s n hdr h) = rv_transaction_version (ss_runtime_version s)"
  "ep_genesis_hash (main_extrinsic_params s n hdr h) = ss_genesis_hash s"
  "ep_mortality_checkpoint (main_extrinsic_params s n hdr h) = h"
  by (simp_all add: main_extrinsic_params_def extrinsic_params_new_def main_additional_params_def
      ap_with_tip_def ap_with_era_def additional_params_new_def)

lemma main_signed_extra:
  "signed_extra (main_extrinsic_params s n hdr h) =
     \<lparr>se_era = mortal period (ucast (hd_number hdr)), se_nonce = n, se_tip = 0\<rparr>"
  by (simp add: signed_extra_def)

lemma period_exp: "era_exp period = 3"
proof -
  have "pow2_exp_from 5 0 = 3" by (simp add: pow2_exp_from.simps)
  then show ?thesis by (simp add: period_def era_exp_def clamp_def)
qed

lemma period_era: "mortal period n = Mortal 8 (n mod 8)"
proof -
  have "quantize_factor 8 = 1" by (simp add: quantize_factor_def)
  then show ?thesis using period_exp by (simp add: mortal_closed)
qed


lemma main_build_success:
  assumes "connect nd = Inr u" "api_new nd = Inr s"
    "nd_account_nonce nd (signer_public alice) = Inr info"
    "main_call (ss_metadata s) = Some call"
    "nd_finalized_head nd = Inr (Some h)" "nd_header nd h = Inr (Some hdr)"
  shows "main_build b alice nd =
     ([Connect node_url, GetGenesisHash, GetMetadata, GetRuntimeVersion,
       GetAccountInfo (signer_public alice), GetFinalizedHead, GetHeader h],
      Inr (compose_extrinsic_offline b alice call
             (main_extrinsic_params (set_signer s alice) (nonce_of info) hdr h)))"
  using assms by (simp add: main_build_def get_nonce_def set_signer_def nonce_of_def)

lemma main_build_cases:
  obtains
    (connect_failed) e where "connect nd = Inl e"
      "main_build b alice nd = ([Connect node_url], Inl (ConnectFailed e))"
  | (api_failed) u e where "connect nd = Inr u" "api_new nd = Inl e"
      "main_build b alice nd =
         ([Connect node_url, GetGenesisHash, GetMetadata, GetRuntimeVersion], Inl (ApiNewFailed e))"
  | (nonce_failed) u s e where "connect nd = Inr u" "api_new nd = Inr s"
      "nd_account_nonce nd (signer_public alice) = Inl e"
      "main_build b alice nd =
         ([Connect node_url, GetGenesisHash, GetMetadata, GetRuntimeVersion,
           GetAccountInfo (signer_public alice)], Inl (NonceFailed (RpcClient e)))"
  | (compose_failed) u s info where "connect nd = Inr u" "api_new nd = Inr s"
      "nd_account_nonce nd (signer_public alice) = Inr info" "main_call (ss_metadata s) = None"
      "main_build b alice nd =
         ([Connect node_url, GetGenesisHash, GetMetadata, GetRuntimeVersion,
           GetAccountInfo (signer_public alice)], Inl ComposeCallFailed)"
  | (head_failed) u s info call r where "connect nd = Inr u" "api_new nd = Inr s"
      "nd_account_nonce nd (signer_public alice) = Inr info" "main_call (ss_metadata s) = Some call"
      "nd_finalized_head nd = r" "\<forall>h. r \<noteq> Inr (Some h)"
      "main_build b alice nd =
         ([Connect node_url, GetGenesisHash, GetMetadata, GetRuntimeVersion,
           GetAccountInfo (signer_public alice), GetFinalizedHead],
          Inl (case r of Inl e \<Rightarrow> FinalizedHeadFailed e | Inr _ \<Rightarrow> NoFinalizedHead))"
  | (header_failed) u s info call h r where "connect nd = Inr u" "api_new nd = Inr s"
      "nd_account_nonce nd (signer_public alice) = Inr info" "main_call (ss_metadata s) = Some call"
      "nd_finalized_head nd = Inr (Some h)" "nd_header nd h = r" "\<forall>hdr. r \<noteq> Inr (Some hdr)"
      "main_build b alice nd =
         ([Connect node_url, GetGenesisHash, GetMetadata, GetRuntimeVersion,
           GetAccountInfo (signer_public alice), GetFinalizedHead, GetHeader h],
          Inl (case r of Inl e \<Rightarrow> HeaderFailed e | Inr _ \<Rightarrow> NoHeader))"
  | (built) u s info call h hdr where "connect nd = Inr u" "api_new nd = Inr s"
      "nd_account_nonce nd (signer_public alice) = Inr info" "main_call (ss_metadata s) = Some call"
      "nd_finalized_head nd = Inr (Some h)" "nd_header nd h = Inr (Some hdr)"
      "main_build b alice nd =
         ([Connect node_url, GetGenesisHash, GetMetadata, GetRuntimeVersion,
           GetAccountInfo (signer_public alice), GetFinalizedHead, GetHeader h],
          Inr (compose_extrinsic_offline b alice call
                 (main_extrinsic_params (set_signer s alice) (nonce_of info) hdr h)))"
proof (cases "connect nd")
  case (Inl e)
  then show ?thesis using connect_failed by (simp add: main_build_def)
next
  case (Inr u)
  note c = this
  show ?thesis
  proof (cases "api_new nd")
    case (Inl e)
    then show ?thesis using c api_failed by (simp add: main_build_def)
  next
    case (Inr s)
    note a = this
    show ?thesis
    proof (cases "nd_account_nonce nd (signer_public alice)")
      case (Inl e)
      then show ?thesis using c a nonce_failed
        by (simp add: main_build_def get_nonce_def set_signer_def)
    next
      case (Inr info)
      note n = this
      show ?thesis
      proof (cases "main_call (ss_metadata s)")
        case None
        then show ?thesis using c a n compose_failed
          by (simp add: main_build_def get_nonce_def set_signer_def)
      next
        case (Some call)
        note m = this
        show ?thesis
        proof (cases "nd_finalized_head nd")
          case (Inl e)
          then show ?thesis using c a n m head_failed [of u s info call "nd_finalized_head nd"]
            by (simp add: main_build_def get_nonce_def set_signer_def)
        next
          case (Inr fh)
          show ?thesis
          proof (cases fh)
            case None
            then show ?thesis using c a n m Inr head_failed [of u s info call "nd_finalized_head nd"]
              by (simp add: main_build_def get_nonce_def set_signer_def)
          next
            case (Some h)
            with Inr have f: "nd_finalized_head nd = Inr (Some h)" by simp
            show ?thesis
            proof (cases "nd_header nd h")
              case (Inl e)
              then show ?thesis using c a n m f header_failed [of u s info call h "nd_header nd h"]
                by (simp add: main_build_def get_nonce_def set_signer_def)
            next
              case (Inr hh)
              show ?thesis
              proof (cases hh)
                case None
                then show ?thesis using c a n m f Inr header_failed [of u s info call h "nd_header nd h"]
                  by (simp add: main_build_def get_nonce_def set_signer_def)
              next
                case (Some hdr)
                with Inr have "nd_header nd h = Inr (Some hdr)" by simp
                then show ?thesis using c a n m f built
                  by (simp add: main_build_def get_nonce_def set_signer_def nonce_of_def)
              qed
            qed
          qed
        qed
      qed
    qed
  qed
qed

lemma main_submit_stage: "main_submit b nd xt = Some (Panicked p) \<Longrightarrow> panic_stage p = 7"
proof -
  assume "main_submit b nd xt = Some (Panicked p)"
  then obtain r where "report_outcome r = Panicked p" by (auto simp: main_submit_def)
  then show ?thesis by (cases r) (auto simp: report_outcome_def split: option.splits)
qed


end
