(* ===== verification/Run_Build.thy ===== *)
theory Run_Build
  imports Pipeline
begin

text \<open>
  Properties of the extrinsic that \<open>main\<close> builds (\<open>src/main.rs\<close> lines 31-92): its
  fields and signed payload, its era and mortality window, the composed call and its
  decoding by the runtime, and the decoding of the whole transaction.
\<close>

text \<open>
  C3. The extrinsic the program builds is signed by the signer's account over the call,
  the signed extra (mortal era of period 8 and phase block number mod 8, the fetched
  nonce, or 0 for an unknown account, tip 0), both versions, the genesis hash and the
  finalized head's hash, all as fetched from the node.
\<close>

theorem main_built_extrinsic:
  assumes "main_build b alice nd = (log, Inr xt)"
  shows "\<exists>s info h hdr. api_new nd = Inr s \<and> nd_account_nonce nd (signer_public alice) = Inr info
     \<and> nd_finalized_head nd = Inr (Some h) \<and> nd_header nd h = Inr (Some hdr)
     \<and> xt_address xt = signer_public alice
     \<and> xt_extra xt = \<lparr>se_era = Mortal 8 (ucast (hd_number hdr) mod 8), se_nonce = nonce_of info, se_tip = 0\<rparr>
     \<and> xt_signature xt = signer_sign alice (payload_to_sign b
          (encode_call (xt_call xt) @ encode_signed_extra (xt_extra xt)
           @ encode_u32 (rv_spec_version (ss_runtime_version s))
           @ encode_u32 (rv_transaction_version (ss_runtime_version s))
           @ ss_genesis_hash s @ h))"
proof (cases rule: main_build_cases [of nd b alice])
  case (built u s info call h hdr)
  with assms show ?thesis
    by (auto simp: compose_extrinsic_offline_def signed_payload_def main_signed_extra
        encode_additional_signed_def set_signer_def period_era)
qed (use assms in \<open>simp_all split: sum.splits\<close>)

text \<open>
  C24. The window is the eight blocks starting at the finalized block the header
  describes: the era's birth is that block's number and its death eight blocks later,
  for every \<open>u32\<close> block number. The window is counted from the finalized head, not
  from the best block the extrinsic will be included in.
\<close>

theorem program_era_birth_death:
  fixes n :: u32
  shows "birth (mortal period (ucast n)) (ucast n) = ucast n
   \<and> death (mortal period (ucast n)) (ucast n) = ucast n + 8"
proof -
  have "quantum 3 = 1" by (simp add: quantum_def)
  then have "unat (birth (mortal period (ucast n)) (ucast n)) = unat (ucast n :: u64)"
    using birth_mortal_unat [of period "ucast n"] by (simp add: period_exp)
  then have b: "birth (mortal period (ucast n)) (ucast n) = ucast n" by (simp add: word_unat_eq_iff)
  then show ?thesis by (simp add: death_def period_era)
qed

lemma disassembled_args:
  "[creation_time disassembled_call, file_path disassembled_call, event_key disassembled_call]
   = [bytes_lit ''2024GMTest'', bytes_lit ''/path/test.txt'', bytes_lit ''update'']"
  by (simp add: disassembled_call_def)

text \<open>
  C4. When the metadata is well formed and declares the \<open>disassembled\<close> call with three
  fields, the program's composed call decodes, on the runtime's side, to that call with
  the three byte strings of lines 57-61.
\<close>

theorem main_call_roundtrip:
  assumes "metadata_wf md" and "call_arity md ''TemplateModule'' ''disassembled'' = Some 3"
  shows "\<exists>c. main_call md = Some c \<and> decode_call md (encode_call c) =
           Inr (''TemplateModule'', ''disassembled'',
                [bytes_lit ''2024GMTest'', bytes_lit ''/path/test.txt'', bytes_lit ''update''])"
proof -
  let ?args = "[bytes_lit ''2024GMTest'', bytes_lit ''/path/test.txt'', bytes_lit ''update'']"
  from assms(2) obtain c where c: "compose_call md ''TemplateModule'' ''disassembled'' ?args = Some c"
    using compose_call_None_iff_arity by fastforce
  have "list_all (\<lambda>a. length a < 2 ^ 32) ?args" by (simp add: bytes_lit_def)
  with assms c have "decode_call md (encode_call c) = Inr (''TemplateModule'', ''disassembled'', ?args)"
    by (intro call_roundtrip) simp_all
  with c show ?thesis by (simp add: main_call_def disassembled_args)
qed

text \<open>
  C7. Composing the program's call fails exactly when the metadata lacks the
  \<open>TemplateModule\<close> pallet or its \<open>disassembled\<close> call, whatever the call's fields.
\<close>

theorem main_call_fails_iff_unknown:
  "main_call md = None \<longleftrightarrow> call_arity md ''TemplateModule'' ''disassembled'' = None"
  by (simp add: main_call_def compose_call_None_iff_arity)

text \<open>
  C6. Composing the call does not check the argument count against the metadata: for
  every well-formed metadata declaring the \<open>disassembled\<close> call with \<open>k \<noteq> 3\<close>
  fields, the program still composes its three-argument call, and the runtime's decoder
  rejects it, with trailing bytes when fewer fields are declared and for lack of input
  when more are.
\<close>

theorem main_call_arity_unchecked:
  assumes wf: "metadata_wf md" and ar: "call_arity md ''TemplateModule'' ''disassembled'' = Some k"
    and k: "k \<noteq> 3"
  shows "\<exists>c. main_call md = Some c
           \<and> decode_call md (encode_call c) = Inl (if k < 3 then TrailingBytes else EndOfInput)"
proof -
  let ?args = "[bytes_lit ''2024GMTest'', bytes_lit ''/path/test.txt'', bytes_lit ''update'']"
  obtain c where c: "compose_call md ''TemplateModule'' ''disassembled'' ?args = Some c"
    using compose_call_None_iff_arity [of md "''TemplateModule''" "''disassembled''" ?args] ar by auto
  have len: "\<forall>v\<in>set ?args. length v < 2 ^ 32" by (simp add: bytes_lit_def)
  have "decode_call md (encode_call c) = Inl (if k < 3 then TrailingBytes else EndOfInput)"
  proof (cases "k < 3")
    case True
    then obtain x xs where x: "drop k ?args = x # xs" by (cases "drop k ?args") auto
    have "decode_vecs k (concat (map encode_vec ?args)) = Inr (take k ?args, encode_vec x @ concat (map encode_vec xs))"
      using decode_vecs_short [of k ?args] True len x by simp
    with True show ?thesis
      using decode_composed_call [OF wf c ar] by (simp add: encode_vec_nonempty del: decode_vecs.simps)
  next
    case False
    with k have "length ?args < k" by simp
    then have "decode_vecs k (concat (map encode_vec ?args)) = Inl EndOfInput" using len by (rule decode_vecs_long)
    with False show ?thesis using decode_composed_call [OF wf c ar] by (simp del: decode_vecs.simps)
  qed
  with c show ?thesis by (simp add: main_call_def disassembled_args)
qed

lemma main_call_args:
  "main_call md = Some c \<Longrightarrow>
   call_args c = [bytes_lit ''2024GMTest'', bytes_lit ''/path/test.txt'', bytes_lit ''update'']"
  by (auto simp: main_call_def compose_call_Some disassembled_args)

lemma main_call_decodes:
  assumes "metadata_wf md" and "call_arity md ''TemplateModule'' ''disassembled'' = Some 3"
    and "main_call md = Some c"
  shows "decode_call md (encode_call c) =
           Inr (''TemplateModule'', ''disassembled'',
                [bytes_lit ''2024GMTest'', bytes_lit ''/path/test.txt'', bytes_lit ''update''])"
proof -
  have "list_all (\<lambda>a. length a < 2 ^ 32)
          [bytes_lit ''2024GMTest'', bytes_lit ''/path/test.txt'', bytes_lit ''update'']"
    by (simp add: bytes_lit_def)
  with assms show ?thesis by (intro call_roundtrip) (simp_all add: main_call_def disassembled_args)
qed

lemma main_call_length: "main_call md = Some c \<Longrightarrow> length (encode_call c) = 35"
  by (simp add: main_call_args encode_call_def encode_vec_def compact_encode_u32_def bytes_lit_def)

lemma length_era_encode: "length (era_encode e) \<le> 2"
  by (cases e) (simp_all add: era_encode_def encode_u16_def Let_def)

lemma length_compact_u32: "length (compact_encode_u32 x) \<le> 5"
  by (simp add: compact_encode_u32_def Let_def)

lemma main_extra_length: "length (encode_signed_extra \<lparr>se_era = e, se_nonce = n, se_tip = 0\<rparr>) \<le> 8"
  using length_era_encode [of e] length_compact_u32 [of n]
  by (simp add: encode_signed_extra_def compact_encode_u128_def)

text \<open>The extrinsic \<open>main\<close> builds from a call of \<^const>\<open>main_call\<close> decodes on a node
  with well-formed metadata declaring three fields, whatever the nonce and header.\<close>

lemma built_extrinsic_decodes:
  assumes "metadata_wf md" and "call_arity md ''TemplateModule'' ''disassembled'' = Some 3"
    and "main_call md = Some call"
    and "length (signer_public alice) = 32" and "\<forall>m. length (signer_sign alice m) = 64"
    and xt_def: "xt = compose_extrinsic_offline b alice call (main_extrinsic_params s n hdr h)"
  shows "decode_extrinsic md (encode_extrinsic xt) =
           Inr (signer_public alice, xt_signature xt, xt_extra xt, ''TemplateModule'', ''disassembled'',
                [bytes_lit ''2024GMTest'', bytes_lit ''/path/test.txt'', bytes_lit ''update''])"
proof -
  have extra: "xt_extra xt = \<lparr>se_era = mortal period (ucast (hd_number hdr)), se_nonce = n, se_tip = 0\<rparr>"
    by (simp add: xt_def compose_extrinsic_offline_def main_signed_extra)
  have "decode_extrinsic md (encode_extrinsic xt) =
          Inr (xt_address xt, xt_signature xt, xt_extra xt, ''TemplateModule'', ''disassembled'',
               [bytes_lit ''2024GMTest'', bytes_lit ''/path/test.txt'', bytes_lit ''update''])"
  proof (rule extrinsic_roundtrip)
    show "length (xt_address xt) = 32" using assms(4) by (simp add: xt_def compose_extrinsic_offline_def)
    show "length (xt_signature xt) = 64" using assms(5) by (simp add: xt_def compose_extrinsic_offline_def)
    show "era_wf (se_era (xt_extra xt))" by (simp add: extra mortal_wf)
    show "se_tip (xt_extra xt) < 2 ^ 128" by (simp add: extra)
    show "decode_call md (encode_call (xt_call xt)) =
            Inr (''TemplateModule'', ''disassembled'',
                 [bytes_lit ''2024GMTest'', bytes_lit ''/path/test.txt'', bytes_lit ''update''])"
      using assms(1,2,3) by (simp add: xt_def compose_extrinsic_offline_def main_call_decodes)
    have "length (encode_call (xt_call xt)) = 35"
      using assms(3) by (simp add: xt_def compose_extrinsic_offline_def main_call_length)
    then show "length (encode_signed_extra (xt_extra xt) @ encode_call (xt_call xt)) < 2 ^ 31"
      using main_extra_length [of "mortal period (ucast (hd_number hdr))" n]
      by (simp add: extra)
  qed
  then show ?thesis by (simp add: xt_def compose_extrinsic_offline_def)
qed

text \<open>
  C5. The transaction the program submits decodes, on the node, to what it signed: when
  the metadata is well formed and declares the call with three fields, and the key and
  signatures have their sr25519 sizes, decoding the submitted bytes yields the signer's
  account, the signature, the signed extra and the \<open>disassembled\<close> call with its three
  arguments, with no byte left over.
\<close>

theorem main_extrinsic_decodes:
  assumes "main_build b alice nd = (log, Inr xt)" and "api_new nd = Inr s"
    and "metadata_wf (ss_metadata s)"
    and "call_arity (ss_metadata s) ''TemplateModule'' ''disassembled'' = Some 3"
    and "length (signer_public alice) = 32" and "\<forall>m. length (signer_sign alice m) = 64"
  shows "decode_extrinsic (ss_metadata s) (encode_extrinsic xt) =
           Inr (signer_public alice, xt_signature xt, xt_extra xt, ''TemplateModule'', ''disassembled'',
                [bytes_lit ''2024GMTest'', bytes_lit ''/path/test.txt'', bytes_lit ''update''])"
proof (cases rule: main_build_cases [of nd b alice])
  case (built u s' info call h hdr)
  with assms(1,2) have "main_call (ss_metadata s) = Some call"
    and "xt = compose_extrinsic_offline b alice call
                (main_extrinsic_params (set_signer s alice) (nonce_of info) hdr h)" by simp_all
  with assms(3-6) show ?thesis by (simp add: built_extrinsic_decodes)
qed (use assms in \<open>simp_all split: sum.splits\<close>)

text \<open>
  C20. The node reads no other bytes as the program's transaction: with well-formed
  metadata, any byte string that decodes to the signer's account, the signature, the
  signed extra and the \<open>disassembled\<close> call with the program's three arguments is exactly
  the submitted encoding. The era, the compact nonce, tip and lengths, and the call admit
  one encoding each, so the transaction hash the node reports for it is that of these
  bytes.
\<close>

theorem main_extrinsic_unique:
  assumes "main_build b alice nd = (log, Inr xt)" and "api_new nd = Inr s"
    and "metadata_wf (ss_metadata s)"
    and "decode_extrinsic (ss_metadata s) bs =
           Inr (signer_public alice, xt_signature xt, xt_extra xt, ''TemplateModule'', ''disassembled'',
                [bytes_lit ''2024GMTest'', bytes_lit ''/path/test.txt'', bytes_lit ''update''])"
  shows "bs = encode_extrinsic xt"
proof (cases rule: main_build_cases [of nd b alice])
  case (built u s' info call h hdr)
  with assms(1,2) have mc: "main_call (ss_metadata s) = Some call"
    and xt: "xt = compose_extrinsic_offline b alice call
                (main_extrinsic_params (set_signer s alice) (nonce_of info) hdr h)" by simp_all
  from extrinsic_canonical [OF assms(3,4)] obtain c where
    c: "compose_call (ss_metadata s) ''TemplateModule'' ''disassembled''
          [bytes_lit ''2024GMTest'', bytes_lit ''/path/test.txt'', bytes_lit ''update''] = Some c"
    and bs: "bs = encode_extrinsic \<lparr>xt_address = signer_public alice, xt_signature = xt_signature xt,
                                    xt_extra = xt_extra xt, xt_call = c\<rparr>" by blast
  from mc c have "c = call" by (simp add: main_call_def disassembled_call_def)
  with bs xt show ?thesis by (simp add: compose_extrinsic_offline_def)
qed (use assms in \<open>simp_all split: sum.splits\<close>)

lemma compose_extrinsic_fields:
  "xt_address (compose_extrinsic_offline b alice call p) = signer_public alice"
  "xt_call (compose_extrinsic_offline b alice call p) = call"
  "xt_extra (compose_extrinsic_offline b alice call p) = signed_extra p"
  by (simp_all add: compose_extrinsic_offline_def)

text \<open>
  C17. The program's signed payload (call, signed extra, versions, genesis hash and
  checkpoint) is at most 115 bytes when the two hashes have their 32 bytes, so the
  \<open>SignedPayload\<close> rule never replaces it by its BLAKE2-256 hash: the signer signs the
  payload itself.
\<close>

theorem main_payload_unhashed:
  assumes "main_build b alice nd = (log, Inr xt)" and "api_new nd = Inr s"
    and "nd_finalized_head nd = Inr (Some h)"
    and "hash_wf (ss_genesis_hash s)" and "hash_wf h"
  shows "xt_signature xt = signer_sign alice
           (encode_call (xt_call xt) @ encode_signed_extra (xt_extra xt)
            @ encode_u32 (rv_spec_version (ss_runtime_version s))
            @ encode_u32 (rv_transaction_version (ss_runtime_version s)) @ ss_genesis_hash s @ h)
       \<and> length (encode_call (xt_call xt) @ encode_signed_extra (xt_extra xt)
            @ encode_u32 (rv_spec_version (ss_runtime_version s))
            @ encode_u32 (rv_transaction_version (ss_runtime_version s)) @ ss_genesis_hash s @ h) \<le> 115"
proof (cases rule: main_build_cases [of nd b alice])
  case (built u s' info call h' hdr)
  with assms have s': "s' = s" and h': "h' = h" by simp_all
  let ?p = "main_extrinsic_params (set_signer s alice) (nonce_of info) hdr h"
  from built assms s' h' have xt: "xt = compose_extrinsic_offline b alice call ?p" by simp
  have extra: "xt_extra xt = \<lparr>se_era = mortal period (ucast (hd_number hdr)), se_nonce = nonce_of info, se_tip = 0\<rparr>"
    by (simp add: xt compose_extrinsic_fields main_signed_extra)
  have call: "length (encode_call (xt_call xt)) = 35"
    using built s' by (simp add: xt compose_extrinsic_fields main_call_length)
  have "length (encode_signed_extra (xt_extra xt)) \<le> 8"
    unfolding extra by (rule main_extra_length)
  with call assms(4,5) have len: "length (encode_call (xt_call xt) @ encode_signed_extra (xt_extra xt)
            @ encode_u32 (rv_spec_version (ss_runtime_version s))
            @ encode_u32 (rv_transaction_version (ss_runtime_version s)) @ ss_genesis_hash s @ h) \<le> 115"
    by (simp add: encode_u32_def hash_wf_def)
  have "signed_payload call ?p = encode_call (xt_call xt) @ encode_signed_extra (xt_extra xt)
            @ encode_u32 (rv_spec_version (ss_runtime_version s))
            @ encode_u32 (rv_transaction_version (ss_runtime_version s)) @ ss_genesis_hash s @ h"
    unfolding signed_payload_def encode_additional_signed_def xt compose_extrinsic_fields
    by (simp add: set_signer_def)
  moreover have "xt_signature xt = signer_sign alice (payload_to_sign b (signed_payload call ?p))"
    by (simp add: xt compose_extrinsic_offline_def Let_def)
  moreover have "payload_to_sign b P = P" if "length P \<le> 115" for P
    using that by (simp add: payload_to_sign_def)
  ultimately show ?thesis using len by simp
qed (use assms in \<open>simp_all split: sum.splits\<close>)



end
