(* ===== verification/Run_Outcome.thy ===== *)
theory Run_Outcome
  imports Pipeline
begin

text \<open>
  Properties of the outcome of a run of \<open>main\<close>: the order of its requests, the panics
  its unwraps can and cannot raise, the submission of line 93 against its
  specification, and when the run does not return.
\<close>

text \<open>
  C2. Every run that ends sends its requests in the program's fixed order (connect,
  genesis hash, metadata, runtime version, account nonce, finalized head, header,
  submission), each at most once, and stops right after the request whose step failed:
  the log is a prefix of that order whose length is fixed by the outcome.
\<close>

theorem main_request_order:
  assumes "main b alice nd = Some (log, out)"
  shows "map request_rank log = [0..<length log]
         \<and> length log = (case out of Panicked p \<Rightarrow> Suc (panic_stage p) | Included _ \<Rightarrow> 8)"
proof (cases rule: main_build_cases [of nd b alice])
  case (built u s info call h hdr)
  with assms obtain o' where "main_submit b nd (compose_extrinsic_offline b alice call
      (main_extrinsic_params (set_signer s alice) (nonce_of info) hdr h)) = Some o'" and "out = o'"
    by (auto simp: main_def)
  with built assms show ?thesis
    by (auto simp: main_def split: outcome.splits dest: main_submit_stage)
qed (use assms in \<open>auto simp: main_def split: sum.splits\<close>)


lemma main_build_panic_stage: "main_build b alice nd = (log, Inl p) \<Longrightarrow> panic_stage p < 7"
  by (cases rule: main_build_cases [of nd b alice]) (auto split: sum.splits)

text \<open>
  C10. The \<open>block_hash.unwrap()\<close> of line 93 never panics: a report for
  \<open>InBlock\<close> always carries a block hash.
\<close>

theorem main_never_no_block_hash: "main b alice nd \<noteq> Some (log, Panicked NoBlockHash)"
proof
  assume m: "main b alice nd = Some (log, Panicked NoBlockHash)"
  obtain log0 r where mb: "main_build b alice nd = (log0, r)" by fastforce
  show False
  proof (cases r)
    case (Inl p)
    with m mb have "main_build b alice nd = (log0, Inl NoBlockHash)" by (simp add: main_def)
    then show False by (auto dest: main_build_panic_stage)
  next
    case (Inr xt)
    with m mb have "main_submit b nd xt = Some (Panicked NoBlockHash)" by (auto simp: main_def)
    then obtain res where w: "submit_and_watch_until (nd_submit nd) b (encode_extrinsic xt) XtInBlock = Some res"
      and "report_outcome res = Panicked NoBlockHash" by (auto simp: main_submit_def)
    then obtain rep where res: "res = Inr rep" and bh: "block_hash rep = None"
      by (cases res) (auto simp: report_outcome_def split: option.splits)
    from w res obtain sub :: subscription where "watch_until XtInBlock (b (encode_extrinsic xt)) (sub_unsubscribe sub) (sub_events sub) = Some (Inr rep)"
      by (auto simp: submit_and_watch_until_def split: sum.splits)
    with bh show False by (auto dest: watch_inblock_hash)
  qed
qed

text \<open>
  C9. The program fails to terminate exactly when it reaches the submission and the
  node's subscription never delivers a decisive event: the watch has no timeout.
\<close>

theorem main_None_iff:
  "main b alice nd = None \<longleftrightarrow>
   (\<exists>log xt sub. main_build b alice nd = (log, Inr xt) \<and> nd_submit nd (encode_extrinsic xt) = Inr sub
      \<and> (\<forall>n. \<not> decisive XtInBlock (sub_events sub !! n)))"
proof -
  obtain log r where mb: "main_build b alice nd = (log, r)" by fastforce
  show ?thesis
  proof (cases r)
    case (Inl p)
    with mb show ?thesis by (simp add: main_def)
  next
    case (Inr xt)
    with mb show ?thesis by (simp add: main_def main_submit_def submit_and_watch_None_iff)
  qed
qed

text \<open>
  C8. The submission step implements its specification: a failed submission panics
  with its RPC error; otherwise the outcome is decided by the first decisive event of the
  subscription alone, and the step does not return when there is none.
\<close>

theorem main_submit_refines:
  "main_submit b nd xt =
     (case nd_submit nd (encode_extrinsic xt) of
        Inl e \<Rightarrow> Some (Panicked (SubmitFailed (RpcClient e)))
      | Inr sub \<Rightarrow>
          (if \<exists>n. decisive XtInBlock (sub_events sub !! n)
           then Some (report_outcome (decide XtInBlock (b (encode_extrinsic xt)) (sub_unsubscribe sub)
                  (sub_events sub !! (LEAST n. decisive XtInBlock (sub_events sub !! n)))))
           else None))"
  by (simp add: main_submit_def submit_and_watch_until_def watch_until_spec report_outcome_def
      split: sum.splits)

lemma main_first_decisive:
  assumes "main_build b alice nd = (log, Inr xt)"
    and "nd_submit nd (encode_extrinsic xt) = Inr sub"
    and "sub_events sub = pre @- (ev ## rest)"
    and "list_all (\<lambda>e. \<not> decisive XtInBlock e) pre" and "decisive XtInBlock ev"
  shows "main b alice nd = Some (log @ [SubmitAndWatch (encode_extrinsic xt)],
           report_outcome (decide XtInBlock (b (encode_extrinsic xt)) (sub_unsubscribe sub) ev))"
proof -
  have "watch_until XtInBlock (b (encode_extrinsic xt)) (sub_unsubscribe sub) (pre @- (ev ## rest))
        = Some (decide XtInBlock (b (encode_extrinsic xt)) (sub_unsubscribe sub) ev)"
    using assms(4,5) by (simp add: watch_until_skip watch_until_decisive)
  with assms(1-3) show ?thesis by (simp add: main_def main_submit_def submit_and_watch_until_def)
qed

text \<open>
  C15. Every failure status the library rejects ends the run with a panic carrying that
  status: besides the Invalid, Dropped and Usurped of the specification, also Retracted
  and FinalityTimeout, which the specification does not name as failures.
\<close>

theorem main_rejected_status:
  assumes "main_build b alice nd = (log, Inr xt)"
    and "nd_submit nd (encode_extrinsic xt) = Inr sub" and "sub_unsubscribe sub = None"
    and "sub_events sub = pre @- (Status st ## rest)"
    and "list_all (\<lambda>e. \<not> decisive XtInBlock e) pre"
    and "st = Dropped \<or> st = Invalid \<or> (\<exists>h. st = Usurped h \<or> st = Retracted h \<or> st = FinalityTimeout h)"
  shows "main b alice nd =
           Some (log @ [SubmitAndWatch (encode_extrinsic xt)], Panicked (SubmitFailed (UnexpectedTxStatus st)))"
proof -
  from assms(6) have "is_expected st = Inl (UnexpectedTxStatus st)" by auto
  then have "decisive XtInBlock (Status st)" by simp
  from main_first_decisive [OF assms(1,2,4,5) this] assms(3,6) \<open>is_expected st = _\<close> show ?thesis
    by (simp add: report_outcome_def)
qed

text \<open>
  C16. A first decisive status InBlock or Finalized (a status at least as strong as the
  requested InBlock) ends the run with the hash of the block it names.
\<close>

theorem main_included_status:
  assumes "main_build b alice nd = (log, Inr xt)"
    and "nd_submit nd (encode_extrinsic xt) = Inr sub" and "sub_unsubscribe sub = None"
    and "sub_events sub = pre @- (Status st ## rest)"
    and "list_all (\<lambda>e. \<not> decisive XtInBlock e) pre"
    and "st = InBlock h \<or> st = Finalized h"
  shows "main b alice nd = Some (log @ [SubmitAndWatch (encode_extrinsic xt)], Included h)"
proof -
  from assms(6) have "decisive XtInBlock (Status st)" by (auto simp: reached_status_def word_le_nat_alt)
  from main_first_decisive [OF assms(1,2,4,5) this] assms(3,6) show ?thesis
    by (auto simp: report_outcome_def)
qed


text \<open>
  C18. A failing unsubscribe hides an inclusion: when the first decisive status is
  InBlock but unsubscribing from the status stream fails, the run panics with the
  unsubscribe's RPC error instead of reporting the block, although the transaction is in
  it.
\<close>

theorem main_unsubscribe_hides_inclusion:
  assumes "main_build b alice nd = (log, Inr xt)"
    and "nd_submit nd (encode_extrinsic xt) = Inr sub" and "sub_unsubscribe sub = Some e"
    and "sub_events sub = pre @- (Status (InBlock h) ## rest)"
    and "list_all (\<lambda>e. \<not> decisive XtInBlock e) pre"
  shows "main b alice nd =
           Some (log @ [SubmitAndWatch (encode_extrinsic xt)], Panicked (SubmitFailed (RpcClient e)))"
proof -
  have "decisive XtInBlock (Status (InBlock h))" by (simp add: reached_status_def)
  from main_first_decisive [OF assms(1,2,4,5) this] assms(3) show ?thesis
    by (simp add: report_outcome_def)
qed

lemma main_Panicked:
  "main b alice nd = Some (log, Panicked p) \<Longrightarrow> main_build b alice nd = (log, Inl p) \<or> panic_stage p = 7"
proof -
  assume m: "main b alice nd = Some (log, Panicked p)"
  obtain log0 r where mb: "main_build b alice nd = (log0, r)" by fastforce
  show ?thesis
  proof (cases r)
    case (Inl q)
    with m mb show ?thesis by (simp add: main_def)
  next
    case (Inr xt)
    with m mb have "main_submit b nd xt = Some (Panicked p)" by (auto simp: main_def)
    then show ?thesis by (simp add: main_submit_stage)
  qed
qed

text \<open>
  C11. The nonce lookup never fails for want of a signer: the signer is set before it.
\<close>

theorem main_never_no_signer: "main b alice nd \<noteq> Some (log, Panicked (NonceFailed NoSigner))"
proof
  assume "main b alice nd = Some (log, Panicked (NonceFailed NoSigner))"
  then have "main_build b alice nd = (log, Inl (NonceFailed NoSigner))" by (auto dest: main_Panicked)
  then show False by (cases rule: main_build_cases [of nd b alice]) (auto split: sum.splits)
qed

end
