(* ===== verification/Scenario.thy ===== *)
theory Scenario
  imports Run_Build Run_Outcome
begin

text \<open>
  The end-to-end scenario of the specification (section 8) as a concrete node, and the
  concrete runs that discharge the hypotheses of the claims: a constant hasher and a
  fixed signer with a 32-byte key and 64-byte signatures.
\<close>


text \<open>
  A node with genesis hash \<open>0xAA..\<close>, spec version 100, transaction version 5, nonce 3,
  finalized header number 1000 with hash \<open>0xBB..\<close>, a \<open>TemplateModule\<close> pallet whose
  \<open>disassembled\<close> call has the three fields of \<open>Disassembled\<close>, and a subscription
  reporting \<open>Ready\<close>, \<open>Broadcast\<close>, \<open>InBlock 0xCC..\<close>.
\<close>

definition spec_metadata :: metadata where
  "spec_metadata =
     [\<lparr>pm_name = ''TemplateModule'', pm_index = 8,
       pm_calls = [\<lparr>cv_name = ''disassembled'', cv_index = 0,
                    cv_fields = [''creation_time'', ''file_path'', ''event_key'']\<rparr>]\<rparr>]"

definition spec_node :: node where
  "spec_node =
     \<lparr>nd_connect = (\<lambda>_. None),
      nd_genesis_hash = Inr (replicate 32 0xAA),
      nd_metadata = Inr spec_metadata,
      nd_runtime_version = Inr \<lparr>rv_spec_version = 100, rv_transaction_version = 5\<rparr>,
      nd_account_nonce = (\<lambda>_. Inr (Some 3)),
      nd_finalized_head = Inr (Some (replicate 32 0xBB)),
      nd_header = (\<lambda>h. if h = replicate 32 0xBB
                        then Inr (Some \<lparr>hd_parent_hash = replicate 32 0, hd_number = 1000\<rparr>)
                        else Inr None),
      nd_submit = (\<lambda>_. Inr \<lparr>sub_events = [Status Ready, Status (Broadcast []),
                                          Status (InBlock (replicate 32 0xCC))] @- sconst Closed,
                             sub_unsubscribe = None\<rparr>)\<rparr>"


subsection \<open>Lemmas\<close>

lemma spec_node_watch:
  "watch_until XtInBlock h None (Status Ready ## Status (Broadcast []) ##
      Status (InBlock (replicate 32 0xCC)) ## sconst Closed)
   = Some (Inr \<lparr>extrinsic_hash = h, block_hash = Some (replicate 32 0xCC),
                 report_status = InBlock (replicate 32 0xCC)\<rparr>)"
proof -
  have "list_all (\<lambda>e. \<not> decisive XtInBlock e) [Status Ready, Status (Broadcast [])]"
    by (simp add: reached_status_def word_le_nat_alt)
  then have "watch_until XtInBlock h None ([Status Ready, Status (Broadcast [])]
                @- (Status (InBlock (replicate 32 0xCC)) ## sconst Closed))
             = watch_until XtInBlock h None (Status (InBlock (replicate 32 0xCC)) ## sconst Closed)"
    by (rule watch_until_skip)
  also have "\<dots> = Some (Inr \<lparr>extrinsic_hash = h, block_hash = Some (replicate 32 0xCC),
                 report_status = InBlock (replicate 32 0xCC)\<rparr>)"
    by (simp add: watch_until_decisive reached_status_def)
  finally show ?thesis by simp
qed

text \<open>The scenario node, with any subscription, builds the extrinsic with nonce 3 and era \<open>Mortal 8 0\<close>.\<close>

lemma spec_build:
  "\<exists>xt. main_build b alice (spec_node\<lparr>nd_submit := sb\<rparr>) =
          ([Connect node_url, GetGenesisHash, GetMetadata, GetRuntimeVersion,
            GetAccountInfo (signer_public alice), GetFinalizedHead, GetHeader (replicate 32 0xBB)], Inr xt)
     \<and> xt_extra xt = \<lparr>se_era = Mortal 8 0, se_nonce = 3, se_tip = 0\<rparr>"
proof -
  let ?nd = "spec_node\<lparr>nd_submit := sb\<rparr>"
  let ?s = "\<lparr>ss_genesis_hash = replicate 32 0xAA, ss_metadata = spec_metadata,
             ss_runtime_version = \<lparr>rv_spec_version = 100, rv_transaction_version = 5\<rparr>,
             ss_signer = None\<rparr>"
  let ?hdr = "\<lparr>hd_parent_hash = replicate 32 0, hd_number = 1000\<rparr>"
  have c: "connect ?nd = Inr ()" by (simp add: connect_def spec_node_def)
  have a: "api_new ?nd = Inr ?s" by (simp add: api_new_def spec_node_def)
  obtain call where mc: "main_call (ss_metadata ?s) = Some call"
    by (simp add: main_call_def compose_call_def pallet_by_name_def call_variant_by_name_def spec_metadata_def)
  have "nd_account_nonce ?nd (signer_public alice) = Inr (Some 3)"
    and "nd_finalized_head ?nd = Inr (Some (replicate 32 0xBB))"
    and "nd_header ?nd (replicate 32 0xBB) = Inr (Some ?hdr)"
    by (simp_all add: spec_node_def)
  from main_build_success [OF c a this(1) mc this(2,3)]
  obtain xt where mb: "main_build b alice ?nd =
          ([Connect node_url, GetGenesisHash, GetMetadata, GetRuntimeVersion,
            GetAccountInfo (signer_public alice), GetFinalizedHead, GetHeader (replicate 32 0xBB)], Inr xt)"
    and xt: "xt = compose_extrinsic_offline b alice call
                   (main_extrinsic_params (set_signer ?s alice) (nonce_of (Some 3)) ?hdr (replicate 32 0xBB))"
    by blast
  have "(ucast (1000::u32) :: u64) mod 8 = 0" by simp
  then have "xt_extra xt = \<lparr>se_era = Mortal 8 0, se_nonce = 3, se_tip = 0\<rparr>"
    by (simp add: xt compose_extrinsic_offline_def main_signed_extra nonce_of_def period_era)
  with mb show ?thesis by blast
qed

text \<open>
  C1. The end-to-end scenario of the specification: against a node with nonce 3,
  finalized block 1000 and a subscription reporting Ready, Broadcast and InBlock, the
  program sends its seven requests in order, signs an extrinsic with nonce 3, tip 0 and
  era \<open>Mortal 8 0\<close> (period 5 rounded up to 8, phase 1000 mod 8), submits it and
  reports the block hash of the InBlock status.
\<close>

theorem spec_scenario:
  "\<exists>xt. main_build b alice spec_node =
          ([Connect node_url, GetGenesisHash, GetMetadata, GetRuntimeVersion,
            GetAccountInfo (signer_public alice), GetFinalizedHead, GetHeader (replicate 32 0xBB)], Inr xt)
     \<and> xt_extra xt = \<lparr>se_era = Mortal 8 0, se_nonce = 3, se_tip = 0\<rparr>
     \<and> main b alice spec_node =
          Some ([Connect node_url, GetGenesisHash, GetMetadata, GetRuntimeVersion,
                 GetAccountInfo (signer_public alice), GetFinalizedHead, GetHeader (replicate 32 0xBB),
                 SubmitAndWatch (encode_extrinsic xt)], Included (replicate 32 0xCC))"
proof -
  have nd: "spec_node\<lparr>nd_submit := nd_submit spec_node\<rparr> = spec_node" by simp
  obtain xt where mb: "main_build b alice spec_node =
          ([Connect node_url, GetGenesisHash, GetMetadata, GetRuntimeVersion,
            GetAccountInfo (signer_public alice), GetFinalizedHead, GetHeader (replicate 32 0xBB)], Inr xt)"
    and ex: "xt_extra xt = \<lparr>se_era = Mortal 8 0, se_nonce = 3, se_tip = 0\<rparr>"
    using spec_build [of b alice "nd_submit spec_node"] unfolding nd by blast
  have "main_submit b spec_node xt = Some (Included (replicate 32 0xCC))"
    by (simp add: main_submit_def submit_and_watch_until_def spec_node_def spec_node_watch report_outcome_def)
  with mb ex show ?thesis by (simp add: main_def)
qed


lemma main_build_submit_indep: "main_build b alice (nd\<lparr>nd_submit := f\<rparr>) = main_build b alice nd"
proof -
  have "connect (nd\<lparr>nd_submit := f\<rparr>) = connect nd" "api_new (nd\<lparr>nd_submit := f\<rparr>) = api_new nd"
    "get_nonce (nd\<lparr>nd_submit := f\<rparr>) = get_nonce nd"
    by (simp_all add: connect_def api_new_def get_nonce_def fun_eq_iff cong: sum.case_cong option.case_cong)
  then show ?thesis by (simp add: main_build_def Let_def cong: sum.case_cong option.case_cong)
qed

text \<open>
  C19. A failed submission and an accepted one whose status stream, after any events
  that decide nothing, reports an error end the run identically, on every node on which
  the build succeeds: the same requests and the same panic, an RPC error at the unwrap
  of line 93. The outcome does not tell whether the node ever received the transaction.
\<close>

theorem main_submit_errors_conflated:
  assumes mb: "main_build b alice nd = (log, Inr xt)"
    and pre: "list_all (\<lambda>ev. \<not> decisive XtInBlock ev) pre"
  shows "main b alice (nd\<lparr>nd_submit := (\<lambda>_. Inl e)\<rparr>)
           = main b alice (nd\<lparr>nd_submit := (\<lambda>_. Inr \<lparr>sub_events = pre @- (StatusError e ## rest),
                                                  sub_unsubscribe = u\<rparr>)\<rparr>)
       \<and> main b alice (nd\<lparr>nd_submit := (\<lambda>_. Inl e)\<rparr>)
           = Some (log @ [SubmitAndWatch (encode_extrinsic xt)], Panicked (SubmitFailed (RpcClient e)))"
proof -
  let ?sub = "\<lparr>sub_events = pre @- (StatusError e ## rest), sub_unsubscribe = u\<rparr>"
  have mb1: "main_build b alice (nd\<lparr>nd_submit := (\<lambda>_. Inl e)\<rparr>) = (log, Inr xt)"
    and mb2: "main_build b alice (nd\<lparr>nd_submit := (\<lambda>_. Inr ?sub)\<rparr>) = (log, Inr xt)"
    using mb by (simp_all add: main_build_submit_indep)
  have "decisive XtInBlock (StatusError e)" by simp
  from main_first_decisive [OF mb2 _ _ pre this, of ?sub rest]
  have "main b alice (nd\<lparr>nd_submit := (\<lambda>_. Inr ?sub)\<rparr>) =
          Some (log @ [SubmitAndWatch (encode_extrinsic xt)], Panicked (SubmitFailed (RpcClient e)))"
    by (simp add: report_outcome_def)
  moreover have "main b alice (nd\<lparr>nd_submit := (\<lambda>_. Inl e)\<rparr>) =
          Some (log @ [SubmitAndWatch (encode_extrinsic xt)], Panicked (SubmitFailed (RpcClient e)))"
    using mb1 by (simp add: main_def main_submit_def submit_and_watch_until_def report_outcome_def)
  ultimately show ?thesis by simp
qed


subsection \<open>Witnesses\<close>

text \<open>Each hypothesis of a claim discharged at a concrete run, with a constant hasher and a fixed signer.\<close>

theorem main_request_order_witness:
  "main (\<lambda>_. replicate 32 0) \<lparr>signer_public = replicate 32 1, signer_sign = (\<lambda>_. replicate 64 2)\<rparr>
      (spec_node\<lparr>nd_connect := (\<lambda>_. Some ''connection refused'')\<rparr>)
     = Some ([Connect node_url], Panicked (ConnectFailed ''connection refused''))
   \<and> map request_rank [Connect node_url] = [0..<length [Connect node_url]]
   \<and> length [Connect node_url] = Suc (panic_stage (ConnectFailed ''connection refused''))"
proof -
  have m: "main (\<lambda>_. replicate 32 0) \<lparr>signer_public = replicate 32 1, signer_sign = (\<lambda>_. replicate 64 2)\<rparr>
      (spec_node\<lparr>nd_connect := (\<lambda>_. Some ''connection refused'')\<rparr>)
     = Some ([Connect node_url], Panicked (ConnectFailed ''connection refused''))"
    by (simp add: main_def main_build_def connect_def)
  from main_request_order [OF m] m show ?thesis by simp
qed

theorem main_built_extrinsic_witness:
  "\<exists>log xt. main_build (\<lambda>_. replicate 32 0) \<lparr>signer_public = replicate 32 1, signer_sign = (\<lambda>_. replicate 64 2)\<rparr>
      spec_node = (log, Inr xt)
   \<and> xt_address xt = replicate 32 1 \<and> se_nonce (xt_extra xt) = 3"
proof -
  have nd: "spec_node\<lparr>nd_submit := nd_submit spec_node\<rparr> = spec_node" by simp
  obtain log xt where mb: "main_build (\<lambda>_. replicate 32 0) \<lparr>signer_public = replicate 32 1, signer_sign = (\<lambda>_. replicate 64 2)\<rparr>
      spec_node = (log, Inr xt)"
    using spec_build [of "\<lambda>_. replicate 32 0" "\<lparr>signer_public = replicate 32 1, signer_sign = (\<lambda>_. replicate 64 2)\<rparr>"
        "nd_submit spec_node"] unfolding nd by blast
  from main_built_extrinsic [OF mb] obtain info where
    "nd_account_nonce spec_node (replicate 32 1) = Inr info" and
    "xt_address xt = replicate 32 1" and "se_nonce (xt_extra xt) = nonce_of info" by auto
  with mb show ?thesis by (auto simp: spec_node_def nonce_of_def)
qed

theorem main_call_roundtrip_witness:
  "metadata_wf spec_metadata \<and> call_arity spec_metadata ''TemplateModule'' ''disassembled'' = Some 3
   \<and> (\<exists>c. main_call spec_metadata = Some c \<and> decode_call spec_metadata (encode_call c) =
           Inr (''TemplateModule'', ''disassembled'',
                [bytes_lit ''2024GMTest'', bytes_lit ''/path/test.txt'', bytes_lit ''update'']))"
proof -
  have wf: "metadata_wf spec_metadata" by (simp add: metadata_wf_def spec_metadata_def)
  have ar: "call_arity spec_metadata ''TemplateModule'' ''disassembled'' = Some 3"
    by (simp add: call_arity_def pallet_by_name_def call_variant_by_name_def spec_metadata_def)
  from wf ar main_call_roundtrip [OF wf ar] show ?thesis by blast
qed


theorem main_extrinsic_decodes_witness:
  "\<exists>log xt. main_build (\<lambda>_. replicate 32 0) \<lparr>signer_public = replicate 32 1, signer_sign = (\<lambda>_. replicate 64 2)\<rparr>
      spec_node = (log, Inr xt)
   \<and> decode_extrinsic spec_metadata (encode_extrinsic xt) =
        Inr (replicate 32 1, xt_signature xt, xt_extra xt, ''TemplateModule'', ''disassembled'',
             [bytes_lit ''2024GMTest'', bytes_lit ''/path/test.txt'', bytes_lit ''update''])"
proof -
  let ?alice = "\<lparr>signer_public = replicate 32 1, signer_sign = (\<lambda>_. replicate 64 (2::byte))\<rparr>"
  let ?s = "\<lparr>ss_genesis_hash = replicate 32 0xAA, ss_metadata = spec_metadata,
             ss_runtime_version = \<lparr>rv_spec_version = 100, rv_transaction_version = 5\<rparr>,
             ss_signer = None\<rparr>"
  have nd: "spec_node\<lparr>nd_submit := nd_submit spec_node\<rparr> = spec_node" by simp
  obtain log xt where mb: "main_build (\<lambda>_. replicate 32 0) ?alice spec_node = (log, Inr xt)"
    using spec_build [of "\<lambda>_. replicate 32 0" ?alice "nd_submit spec_node"] unfolding nd by blast
  have a: "api_new spec_node = Inr ?s" by (simp add: api_new_def spec_node_def)
  have wf: "metadata_wf (ss_metadata ?s)" by (simp add: metadata_wf_def spec_metadata_def)
  have ar: "call_arity (ss_metadata ?s) ''TemplateModule'' ''disassembled'' = Some 3"
    by (simp add: call_arity_def pallet_by_name_def call_variant_by_name_def spec_metadata_def)
  have "length (signer_public ?alice) = 32" and "\<forall>m. length (signer_sign ?alice m) = 64" by simp_all
  from main_extrinsic_decodes [OF mb a wf ar this] mb show ?thesis by auto
qed


theorem main_extrinsic_unique_witness:
  "\<exists>log xt. main_build (\<lambda>_. replicate 32 0) \<lparr>signer_public = replicate 32 1, signer_sign = (\<lambda>_. replicate 64 2)\<rparr>
      spec_node = (log, Inr xt)
   \<and> metadata_wf spec_metadata
   \<and> decode_extrinsic spec_metadata (encode_extrinsic xt) =
        Inr (replicate 32 1, xt_signature xt, xt_extra xt, ''TemplateModule'', ''disassembled'',
             [bytes_lit ''2024GMTest'', bytes_lit ''/path/test.txt'', bytes_lit ''update''])
   \<and> encode_extrinsic xt = encode_extrinsic xt"
proof -
  let ?alice = "\<lparr>signer_public = replicate 32 1, signer_sign = (\<lambda>_. replicate 64 (2::byte))\<rparr>"
  let ?s = "\<lparr>ss_genesis_hash = replicate 32 0xAA, ss_metadata = spec_metadata,
             ss_runtime_version = \<lparr>rv_spec_version = 100, rv_transaction_version = 5\<rparr>,
             ss_signer = None\<rparr>"
  have nd: "spec_node\<lparr>nd_submit := nd_submit spec_node\<rparr> = spec_node" by simp
  obtain log xt where mb: "main_build (\<lambda>_. replicate 32 0) ?alice spec_node = (log, Inr xt)"
    using spec_build [of "\<lambda>_. replicate 32 0" ?alice "nd_submit spec_node"] unfolding nd by blast
  have a: "api_new spec_node = Inr ?s" by (simp add: api_new_def spec_node_def)
  have wf: "metadata_wf spec_metadata" by (simp add: metadata_wf_def spec_metadata_def)
  have ar: "call_arity spec_metadata ''TemplateModule'' ''disassembled'' = Some 3"
    by (simp add: call_arity_def pallet_by_name_def call_variant_by_name_def spec_metadata_def)
  have dec: "decode_extrinsic spec_metadata (encode_extrinsic xt) =
      Inr (replicate 32 1, xt_signature xt, xt_extra xt, ''TemplateModule'', ''disassembled'',
           [bytes_lit ''2024GMTest'', bytes_lit ''/path/test.txt'', bytes_lit ''update''])"
  proof (cases rule: main_build_cases [of spec_node "\<lambda>_. replicate 32 0" ?alice])
    case (built u s' info call h hdr)
    with mb a have "main_call spec_metadata = Some call"
      and "xt = compose_extrinsic_offline (\<lambda>_. replicate 32 0) ?alice call
                  (main_extrinsic_params (set_signer ?s ?alice) (nonce_of info) hdr h)" by simp_all
    with wf ar built_extrinsic_decodes [of spec_metadata call ?alice xt] show ?thesis by simp
  qed (use mb in simp_all)
  have wf': "metadata_wf (ss_metadata ?s)" using wf by simp
  have dec': "decode_extrinsic (ss_metadata ?s) (encode_extrinsic xt) =
      Inr (signer_public ?alice, xt_signature xt, xt_extra xt, ''TemplateModule'', ''disassembled'',
           [bytes_lit ''2024GMTest'', bytes_lit ''/path/test.txt'', bytes_lit ''update''])"
    using dec by simp
  from main_extrinsic_unique [OF mb a wf' dec'] mb wf dec show ?thesis by blast
qed

theorem main_rejected_status_witness:
  "\<exists>log xt. main_build (\<lambda>_. replicate 32 0) \<lparr>signer_public = replicate 32 1, signer_sign = (\<lambda>_. replicate 64 2)\<rparr>
        (spec_node\<lparr>nd_submit := (\<lambda>_. Inr \<lparr>sub_events = [Status Ready] @- (Status (Dropped) ## sconst Closed),
                                             sub_unsubscribe = None\<rparr>)\<rparr>) = (log, Inr xt)
   \<and> main (\<lambda>_. replicate 32 0) \<lparr>signer_public = replicate 32 1, signer_sign = (\<lambda>_. replicate 64 2)\<rparr>
        (spec_node\<lparr>nd_submit := (\<lambda>_. Inr \<lparr>sub_events = [Status Ready] @- (Status (Dropped) ## sconst Closed),
                                             sub_unsubscribe = None\<rparr>)\<rparr>)
      = Some (log @ [SubmitAndWatch (encode_extrinsic xt)], Panicked (SubmitFailed (UnexpectedTxStatus Dropped)))"
proof -
  let ?sub = "\<lparr>sub_events = [Status Ready] @- (Status (Dropped) ## sconst Closed), sub_unsubscribe = None\<rparr>"
  obtain log xt where mb: "main_build (\<lambda>_. replicate 32 0) \<lparr>signer_public = replicate 32 1, signer_sign = (\<lambda>_. replicate 64 2)\<rparr>
        (spec_node\<lparr>nd_submit := (\<lambda>_. Inr ?sub)\<rparr>) = (log, Inr xt)"
    using spec_build by blast
  have "list_all (\<lambda>e. \<not> decisive XtInBlock e) [Status Ready]"
    by (simp add: reached_status_def word_le_nat_alt)
  with mb main_rejected_status [OF mb, of ?sub "[Status Ready]" "Dropped" "sconst Closed"] show ?thesis by auto
qed

theorem main_included_status_witness:
  "\<exists>log xt. main_build (\<lambda>_. replicate 32 0) \<lparr>signer_public = replicate 32 1, signer_sign = (\<lambda>_. replicate 64 2)\<rparr>
        (spec_node\<lparr>nd_submit := (\<lambda>_. Inr \<lparr>sub_events = [Status Ready] @- (Status (Finalized (replicate 32 7)) ## sconst Closed),
                                             sub_unsubscribe = None\<rparr>)\<rparr>) = (log, Inr xt)
   \<and> main (\<lambda>_. replicate 32 0) \<lparr>signer_public = replicate 32 1, signer_sign = (\<lambda>_. replicate 64 2)\<rparr>
        (spec_node\<lparr>nd_submit := (\<lambda>_. Inr \<lparr>sub_events = [Status Ready] @- (Status (Finalized (replicate 32 7)) ## sconst Closed),
                                             sub_unsubscribe = None\<rparr>)\<rparr>)
      = Some (log @ [SubmitAndWatch (encode_extrinsic xt)], Included (replicate 32 7))"
proof -
  let ?sub = "\<lparr>sub_events = [Status Ready] @- (Status (Finalized (replicate 32 7)) ## sconst Closed), sub_unsubscribe = None\<rparr>"
  obtain log xt where mb: "main_build (\<lambda>_. replicate 32 0) \<lparr>signer_public = replicate 32 1, signer_sign = (\<lambda>_. replicate 64 2)\<rparr>
        (spec_node\<lparr>nd_submit := (\<lambda>_. Inr ?sub)\<rparr>) = (log, Inr xt)"
    using spec_build by blast
  have "list_all (\<lambda>e. \<not> decisive XtInBlock e) [Status Ready]"
    by (simp add: reached_status_def word_le_nat_alt)
  with mb main_included_status [OF mb, of ?sub "[Status Ready]" "Finalized (replicate 32 7)" "sconst Closed"] show ?thesis by auto
qed


theorem main_payload_unhashed_witness:
  "\<exists>log xt. main_build (\<lambda>_. replicate 32 0) \<lparr>signer_public = replicate 32 1, signer_sign = (\<lambda>_. replicate 64 2)\<rparr>
      spec_node = (log, Inr xt)
   \<and> length (encode_call (xt_call xt) @ encode_signed_extra (xt_extra xt) @ encode_u32 100 @ encode_u32 5
        @ replicate 32 0xAA @ replicate 32 0xBB) \<le> 115"
proof -
  let ?alice = "\<lparr>signer_public = replicate 32 1, signer_sign = (\<lambda>_. replicate 64 (2::byte))\<rparr>"
  let ?s = "\<lparr>ss_genesis_hash = replicate 32 0xAA, ss_metadata = spec_metadata,
             ss_runtime_version = \<lparr>rv_spec_version = 100, rv_transaction_version = 5\<rparr>,
             ss_signer = None\<rparr>"
  have nd: "spec_node\<lparr>nd_submit := nd_submit spec_node\<rparr> = spec_node" by simp
  obtain log xt where mb: "main_build (\<lambda>_. replicate 32 0) ?alice spec_node = (log, Inr xt)"
    using spec_build [of "\<lambda>_. replicate 32 0" ?alice "nd_submit spec_node"] unfolding nd by blast
  have a: "api_new spec_node = Inr ?s" by (simp add: api_new_def spec_node_def)
  have f: "nd_finalized_head spec_node = Inr (Some (replicate 32 0xBB))" by (simp add: spec_node_def)
  have "hash_wf (ss_genesis_hash ?s)" and "hash_wf (replicate 32 0xBB)" by (simp_all add: hash_wf_def)
  from main_payload_unhashed [OF mb a f this] mb show ?thesis by auto
qed


theorem main_unsubscribe_hides_inclusion_witness:
  "\<exists>log xt. main_build (\<lambda>_. replicate 32 0) \<lparr>signer_public = replicate 32 1, signer_sign = (\<lambda>_. replicate 64 2)\<rparr>
        (spec_node\<lparr>nd_submit := (\<lambda>_. Inr \<lparr>sub_events = [Status Ready] @- (Status (InBlock (replicate 32 7)) ## sconst Closed),
                                             sub_unsubscribe = Some ''unsubscribe failed''\<rparr>)\<rparr>) = (log, Inr xt)
   \<and> main (\<lambda>_. replicate 32 0) \<lparr>signer_public = replicate 32 1, signer_sign = (\<lambda>_. replicate 64 2)\<rparr>
        (spec_node\<lparr>nd_submit := (\<lambda>_. Inr \<lparr>sub_events = [Status Ready] @- (Status (InBlock (replicate 32 7)) ## sconst Closed),
                                             sub_unsubscribe = Some ''unsubscribe failed''\<rparr>)\<rparr>)
      = Some (log @ [SubmitAndWatch (encode_extrinsic xt)], Panicked (SubmitFailed (RpcClient ''unsubscribe failed'')))"
proof -
  let ?sub = "\<lparr>sub_events = [Status Ready] @- (Status (InBlock (replicate 32 7)) ## sconst Closed),
              sub_unsubscribe = Some ''unsubscribe failed''\<rparr>"
  obtain log xt where mb: "main_build (\<lambda>_. replicate 32 0) \<lparr>signer_public = replicate 32 1, signer_sign = (\<lambda>_. replicate 64 2)\<rparr>
        (spec_node\<lparr>nd_submit := (\<lambda>_. Inr ?sub)\<rparr>) = (log, Inr xt)"
    using spec_build by blast
  have "list_all (\<lambda>e. \<not> decisive XtInBlock e) [Status Ready]"
    by (simp add: reached_status_def word_le_nat_alt)
  with mb main_unsubscribe_hides_inclusion [OF mb, of ?sub "''unsubscribe failed''" "[Status Ready]" "replicate 32 7" "sconst Closed"]
  show ?thesis by auto
qed


theorem main_submit_errors_conflated_witness:
  "\<exists>log xt. main_build (\<lambda>_. replicate 32 0) \<lparr>signer_public = replicate 32 1, signer_sign = (\<lambda>_. replicate 64 2)\<rparr>
        spec_node = (log, Inr xt)
   \<and> list_all (\<lambda>ev. \<not> decisive XtInBlock ev) [Status Ready, Status (Broadcast [])]
   \<and> main (\<lambda>_. replicate 32 0) \<lparr>signer_public = replicate 32 1, signer_sign = (\<lambda>_. replicate 64 2)\<rparr>
        (spec_node\<lparr>nd_submit := (\<lambda>_. Inl ''connection reset'')\<rparr>)
      = main (\<lambda>_. replicate 32 0) \<lparr>signer_public = replicate 32 1, signer_sign = (\<lambda>_. replicate 64 2)\<rparr>
        (spec_node\<lparr>nd_submit := (\<lambda>_. Inr \<lparr>sub_events = [Status Ready, Status (Broadcast [])] @-
                                             (StatusError ''connection reset'' ## sconst Closed),
                                           sub_unsubscribe = None\<rparr>)\<rparr>)"
proof -
  have nd: "spec_node\<lparr>nd_submit := nd_submit spec_node\<rparr> = spec_node" by simp
  obtain log xt where mb: "main_build (\<lambda>_. replicate 32 0)
      \<lparr>signer_public = replicate 32 1, signer_sign = (\<lambda>_. replicate 64 (2::byte))\<rparr> spec_node = (log, Inr xt)"
    using spec_build [of "\<lambda>_. replicate 32 0" "\<lparr>signer_public = replicate 32 1, signer_sign = (\<lambda>_. replicate 64 2)\<rparr>"
        "nd_submit spec_node"] unfolding nd by blast
  have pre: "list_all (\<lambda>ev. \<not> decisive XtInBlock ev) [Status Ready, Status (Broadcast [])]"
    by (simp add: reached_status_def word_le_nat_alt)
  from main_submit_errors_conflated [OF mb pre, of "''connection reset''" "sconst Closed" None] mb pre
  show ?thesis by blast
qed


theorem main_call_arity_unchecked_witness:
  "metadata_wf [\<lparr>pm_name = ''TemplateModule'', pm_index = 8,
                 pm_calls = [\<lparr>cv_name = ''disassembled'', cv_index = 0,
                              cv_fields = [''creation_time'', ''file_path'']\<rparr>]\<rparr>]
   \<and> call_arity [\<lparr>pm_name = ''TemplateModule'', pm_index = 8,
                  pm_calls = [\<lparr>cv_name = ''disassembled'', cv_index = 0,
                               cv_fields = [''creation_time'', ''file_path'']\<rparr>]\<rparr>]
       ''TemplateModule'' ''disassembled'' = Some 2
   \<and> (\<exists>c. main_call [\<lparr>pm_name = ''TemplateModule'', pm_index = 8,
                        pm_calls = [\<lparr>cv_name = ''disassembled'', cv_index = 0,
                                     cv_fields = [''creation_time'', ''file_path'']\<rparr>]\<rparr>] = Some c
        \<and> decode_call [\<lparr>pm_name = ''TemplateModule'', pm_index = 8,
                         pm_calls = [\<lparr>cv_name = ''disassembled'', cv_index = 0,
                                      cv_fields = [''creation_time'', ''file_path'']\<rparr>]\<rparr>] (encode_call c)
            = Inl TrailingBytes)"
proof -
  let ?md = "[\<lparr>pm_name = ''TemplateModule'', pm_index = 8,
               pm_calls = [\<lparr>cv_name = ''disassembled'', cv_index = 0,
                            cv_fields = [''creation_time'', ''file_path'']\<rparr>]\<rparr>]"
  have wf: "metadata_wf ?md" by (simp add: metadata_wf_def)
  have ar: "call_arity ?md ''TemplateModule'' ''disassembled'' = Some 2"
    by (simp add: call_arity_def pallet_by_name_def call_variant_by_name_def)
  from main_call_arity_unchecked [OF wf ar] wf ar show ?thesis by simp
qed

end
