(* ===== verification/Concurrency.thy ===== *)
theory Concurrency
  imports Scenario
begin

text \<open>
  Several runs of the program against one chain. \<open>src/main.rs\<close> builds and submits one
  extrinsic; the specification (section 5) asks what happens when several such runs
  for the same signing identity overlap. The chain is modelled by the account nonces it
  stores: the node answers the nonce query of line 54 from them, and applying an
  extrinsic checks its nonce against the stored one and advances it (the runtime's
  \<open>CheckNonce\<close>: an older nonce is stale; a newer one cannot be included yet). Each run is
  two atomic actions, its build (lines 31-92, which read the chain once, at line 54)
  and its submission (line 93); a schedule interleaves the actions of the runs.
\<close>

record chain =
  ch_nonce :: "bytes \<Rightarrow> u32"

datatype apply_error = Stale | Future

text \<open>The node as it answers at a given chain state: the nonce query reads the chain.\<close>

definition node_at :: "node \<Rightarrow> chain \<Rightarrow> node" where
  "node_at nd ch = nd\<lparr>nd_account_nonce := (\<lambda>a. Inr (Some (ch_nonce ch a)))\<rparr>"

definition apply_extrinsic :: "chain \<Rightarrow> unchecked_extrinsic \<Rightarrow> apply_error + chain" where
  "apply_extrinsic ch xt =
     (let a = xt_address xt; n = se_nonce (xt_extra xt)
      in if n < ch_nonce ch a then Inl Stale
         else if ch_nonce ch a < n then Inl Future
         else Inr (ch\<lparr>ch_nonce := (ch_nonce ch)(a := n + 1)\<rparr>))"

datatype action = Build nat | Submit nat

record world =
  w_chain :: chain
  w_built :: "nat \<Rightarrow> unchecked_extrinsic option"
  w_results :: "(nat \<times> (apply_error + unit)) list"

fun exec_action :: "(bytes \<Rightarrow> hash) \<Rightarrow> signer \<Rightarrow> node \<Rightarrow> world \<Rightarrow> action \<Rightarrow> world" where
  "exec_action b alice nd w (Build i) =
     (case snd (main_build b alice (node_at nd (w_chain w))) of
        Inl _ \<Rightarrow> w
      | Inr xt \<Rightarrow> w\<lparr>w_built := (w_built w)(i \<mapsto> xt)\<rparr>)"
| "exec_action b alice nd w (Submit i) =
     (case w_built w i of
        None \<Rightarrow> w
      | Some xt \<Rightarrow>
          (case apply_extrinsic (w_chain w) xt of
             Inl e \<Rightarrow> w\<lparr>w_results := w_results w @ [(i, Inl e)]\<rparr>
           | Inr ch' \<Rightarrow> w\<lparr>w_chain := ch', w_results := w_results w @ [(i, Inr ())]\<rparr>))"

definition exec_schedule :: "(bytes \<Rightarrow> hash) \<Rightarrow> signer \<Rightarrow> node \<Rightarrow> world \<Rightarrow> action list \<Rightarrow> world" where
  "exec_schedule b alice nd w acts = foldl (exec_action b alice nd) w acts"

definition start :: "chain \<Rightarrow> world" where
  "start ch = \<lparr>w_chain = ch, w_built = (\<lambda>_. None), w_results = []\<rparr>"

text \<open>
  The worlds that some interleaving of the runs' actions reaches from a chain state,
  and the number of submissions the chain accepted so far.
\<close>

inductive reach_world :: "(bytes \<Rightarrow> hash) \<Rightarrow> signer \<Rightarrow> node \<Rightarrow> chain \<Rightarrow> world \<Rightarrow> bool"
  for b alice nd ch0
where
  reach_start: "reach_world b alice nd ch0 (start ch0)"
| reach_step: "reach_world b alice nd ch0 w \<Longrightarrow> reach_world b alice nd ch0 (exec_action b alice nd w act)"

definition accepted :: "world \<Rightarrow> nat" where
  "accepted w = length (filter (\<lambda>r. snd r = Inr ()) (w_results w))"

text \<open>The invariant: every built extrinsic is the signer's and carries a nonce the chain has
  held for the signer (its initial nonce plus at most the number of accepted submissions),
  and the chain advanced the signer's nonce once per accepted submission and no other
  account's.\<close>

definition world_inv :: "signer \<Rightarrow> chain \<Rightarrow> world \<Rightarrow> bool" where
  "world_inv alice ch0 w \<longleftrightarrow>
     (\<forall>i xt. w_built w i = Some xt \<longrightarrow> xt_address xt = signer_public alice
        \<and> (\<exists>m\<le>accepted w. se_nonce (xt_extra xt) = ch_nonce ch0 (signer_public alice) + of_nat m))
     \<and> ch_nonce (w_chain w) = (ch_nonce ch0)(signer_public alice :=
          ch_nonce ch0 (signer_public alice) + of_nat (accepted w))"

subsection \<open>Lemmas\<close>

lemma node_at_session: "connect (node_at nd ch) = connect nd" "api_new (node_at nd ch) = api_new nd"
  by (simp_all add: node_at_def connect_def api_new_def cong: sum.case_cong)

text \<open>A build against any chain state: the extrinsic carries the chain's current nonce.\<close>

lemma build_at:
  assumes "connect nd = Inr u" "api_new nd = Inr s" "main_call (ss_metadata s) = Some call"
    "nd_finalized_head nd = Inr (Some h)" "nd_header nd h = Inr (Some hdr)"
  shows "\<exists>xt. snd (main_build b alice (node_at nd ch)) = Inr xt
           \<and> xt_address xt = signer_public alice
           \<and> se_nonce (xt_extra xt) = ch_nonce ch (signer_public alice)"
proof -
  have "connect (node_at nd ch) = Inr u" "api_new (node_at nd ch) = Inr s"
    "nd_account_nonce (node_at nd ch) (signer_public alice) = Inr (Some (ch_nonce ch (signer_public alice)))"
    "nd_finalized_head (node_at nd ch) = Inr (Some h)" "nd_header (node_at nd ch) h = Inr (Some hdr)"
    using assms by (simp_all add: node_at_session) (simp_all add: node_at_def)
  from main_build_success [OF this(1,2,3) assms(3) this(4,5)] show ?thesis
    by (simp add: compose_extrinsic_offline_def main_signed_extra nonce_of_def)
qed


lemma apply_current:
  "se_nonce (xt_extra xt) = ch_nonce ch (xt_address xt) \<Longrightarrow>
   apply_extrinsic ch xt = Inr (ch\<lparr>ch_nonce := (ch_nonce ch)(xt_address xt := se_nonce (xt_extra xt) + 1)\<rparr>)"
  by (simp add: apply_extrinsic_def Let_def)

lemma apply_reused:
  "se_nonce (xt_extra xt) = ch_nonce ch (xt_address xt) \<Longrightarrow>
   \<exists>e. apply_extrinsic (ch\<lparr>ch_nonce := (ch_nonce ch)(xt_address xt := se_nonce (xt_extra xt) + 1)\<rparr>) xt = Inl e"
  by (auto simp: apply_extrinsic_def Let_def)

lemma exec_schedule_append [simp]:
  "exec_schedule b alice nd w (xs @ ys) = exec_schedule b alice nd (exec_schedule b alice nd w xs) ys"
  by (simp add: exec_schedule_def)

lemma exec_builds:
  "snd (main_build b alice (node_at nd (w_chain w))) = Inr xt \<Longrightarrow>
   exec_schedule b alice nd w (map Build is) =
     w\<lparr>w_built := (\<lambda>i. if i \<in> set is then Some xt else w_built w i)\<rparr>"
proof (induction "is" arbitrary: w)
  case Nil
  then show ?case by (simp add: exec_schedule_def)
next
  case (Cons i "is")
  let ?w = "w\<lparr>w_built := (w_built w)(i \<mapsto> xt)\<rparr>"
  from Cons.prems have "exec_schedule b alice nd ?w (map Build is) =
      ?w\<lparr>w_built := (\<lambda>j. if j \<in> set is then Some xt else w_built ?w j)\<rparr>"
    by (intro Cons.IH) simp
  with Cons.prems show ?case by (simp add: exec_schedule_def fun_eq_iff)
qed

lemma exec_rejected:
  "\<forall>i\<in>set is. w_built w i = Some xt \<Longrightarrow> apply_extrinsic (w_chain w) xt = Inl e \<Longrightarrow>
   exec_schedule b alice nd w (map Submit is) = w\<lparr>w_results := w_results w @ map (\<lambda>i. (i, Inl e)) is\<rparr>"
  by (induction "is" arbitrary: w) (simp_all add: exec_schedule_def)

lemma main_build_address:
  "snd (main_build b alice nd) = Inr xt \<Longrightarrow> xt_address xt = signer_public alice"
  by (cases rule: main_build_cases [of nd b alice]) (auto simp: compose_extrinsic_offline_def split: sum.splits)

lemma world_inv_start: "world_inv alice ch0 (start ch0)"
  by (simp add: world_inv_def start_def accepted_def)

text \<open>A build against the chain signs the signer's nonce as the chain holds it.\<close>

lemma build_nonce:
  assumes "snd (main_build b alice (node_at nd ch)) = Inr xt"
  shows "se_nonce (xt_extra xt) = ch_nonce ch (signer_public alice)"
proof (cases rule: main_build_cases [of "node_at nd ch" b alice])
  case (built u s info call h hdr)
  with assms show ?thesis
    by (auto simp: node_at_def compose_extrinsic_offline_def main_signed_extra nonce_of_def)
qed (use assms in \<open>simp_all split: sum.splits\<close>)

lemma world_inv_step:
  assumes inv: "world_inv alice ch0 w" shows "world_inv alice ch0 (exec_action b alice nd w act)"
proof (cases act)
  case (Build i)
  show ?thesis
  proof (cases "snd (main_build b alice (node_at nd (w_chain w)))")
    case (Inl p)
    with Build inv show ?thesis by simp
  next
    case (Inr xt)
    from build_nonce [OF Inr] inv
    have "se_nonce (xt_extra xt) = ch_nonce ch0 (signer_public alice) + of_nat (accepted w)"
      by (simp add: world_inv_def)
    with Build Inr inv main_build_address [OF Inr] show ?thesis
      by (auto simp: world_inv_def accepted_def)
  qed
next
  case (Submit i)
  show ?thesis
  proof (cases "w_built w i")
    case None
    with Submit inv show ?thesis by simp
  next
    case (Some xt)
    with inv have a: "xt_address xt = signer_public alice" by (simp add: world_inv_def)
    show ?thesis
    proof (cases "apply_extrinsic (w_chain w) xt")
      case (Inl e)
      with Submit Some inv show ?thesis by (simp add: world_inv_def accepted_def)
    next
      case (Inr ch')
      then have "se_nonce (xt_extra xt) = ch_nonce (w_chain w) (xt_address xt)"
        and ch': "ch' = w_chain w\<lparr>ch_nonce := (ch_nonce (w_chain w))(xt_address xt := se_nonce (xt_extra xt) + 1)\<rparr>"
        by (auto simp: apply_extrinsic_def Let_def split: if_splits)
      with Submit Some Inr inv a show ?thesis
        by (simp add: world_inv_def accepted_def fun_eq_iff) (meson le_SucI)
    qed
  qed
qed

lemma reach_world_inv: "reach_world b alice nd ch0 w \<Longrightarrow> world_inv alice ch0 w"
  by (induction rule: reach_world.induct) (simp_all add: world_inv_start world_inv_step)

lemma reach_exec_schedule:
  "reach_world b alice nd ch0 w \<Longrightarrow> reach_world b alice nd ch0 (exec_schedule b alice nd w acts)"
  by (induction acts arbitrary: w) (simp_all add: exec_schedule_def reach_step)

text \<open>
  C14. In every world that an interleaving of runs of the program reaches, every
  extrinsic a run has built carries a nonce the chain has held for the signer, its
  initial nonce plus at most the number of accepted submissions: a run never signs a
  nonce ahead of the chain. The chain's nonce for the signer is its initial nonce plus
  the number of accepted submissions (modulo \<open>2^32\<close>, the width of \<open>Index\<close>), and no
  other account's nonce has changed.
\<close>

theorem main_runs_nonce_invariant:
  assumes "reach_world b alice nd ch0 w"
  shows "ch_nonce (w_chain w) (signer_public alice) = ch_nonce ch0 (signer_public alice) + of_nat (accepted w)
         \<and> (\<forall>a. a \<noteq> signer_public alice \<longrightarrow> ch_nonce (w_chain w) a = ch_nonce ch0 a)
         \<and> (\<forall>i xt. w_built w i = Some xt \<longrightarrow>
              (\<exists>m\<le>accepted w. se_nonce (xt_extra xt) = ch_nonce ch0 (signer_public alice) + of_nat m))"
  using reach_world_inv [OF assms] by (simp add: world_inv_def)

text \<open>
  C12. When several runs of the program for the same signer overlap so that every run
  reads the nonce (line 54) before any run submits (line 93), all of them sign the same
  nonce and the chain accepts only the first: every other submission is rejected. The
  program takes no lock around the nonce, so the distinct accepted nonces that the
  specification asks of concurrent runs are not guaranteed.
\<close>

theorem main_nonce_race:
  assumes "connect nd = Inr u" "api_new nd = Inr s" "main_call (ss_metadata s) = Some call"
    "nd_finalized_head nd = Inr (Some h)" "nd_header nd h = Inr (Some hdr)"
  shows "\<exists>e. w_results (exec_schedule b alice nd (start ch) (map Build [0..<Suc m] @ map Submit [0..<Suc m]))
               = (0, Inr ()) # map (\<lambda>i. (i, Inl e)) [1..<Suc m]"
proof -
  obtain xt where xt: "snd (main_build b alice (node_at nd ch)) = Inr xt"
    and a: "xt_address xt = signer_public alice"
    and n: "se_nonce (xt_extra xt) = ch_nonce ch (signer_public alice)"
    using build_at [OF assms] by blast
  from n a have cur: "se_nonce (xt_extra xt) = ch_nonce ch (xt_address xt)" by simp
  define ch1 where "ch1 = ch\<lparr>ch_nonce := (ch_nonce ch)(xt_address xt := se_nonce (xt_extra xt) + 1)\<rparr>"
  obtain e where e: "apply_extrinsic ch1 xt = Inl e"
    using apply_reused [OF cur] unfolding ch1_def by blast
  define w1 where "w1 = (start ch)\<lparr>w_built := (\<lambda>i. if i \<in> set [0..<Suc m] then Some xt else w_built (start ch) i)\<rparr>"
  have b: "exec_schedule b alice nd (start ch) (map Build [0..<Suc m]) = w1"
    unfolding w1_def by (rule exec_builds) (simp add: start_def xt)
  have s0: "exec_schedule b alice nd w1 [Submit 0] = w1\<lparr>w_chain := ch1, w_results := [(0, Inr ())]\<rparr>"
    by (simp add: exec_schedule_def w1_def start_def apply_current [OF cur] ch1_def) arith
  let ?W = "w1\<lparr>w_chain := ch1, w_results := [(0, Inr ())]\<rparr>"
  have r: "exec_schedule b alice nd ?W (map Submit [1..<Suc m]) =
      ?W\<lparr>w_results := w_results ?W @ map (\<lambda>i. (i, Inl e)) [1..<Suc m]\<rparr>"
    by (rule exec_rejected) (auto simp: w1_def start_def e)
  have u: "map Submit [0..<Suc m] = [Submit 0] @ map Submit [1..<Suc m]" by (simp add: upt_conv_Cons)
  have "exec_schedule b alice nd (start ch) (map Build [0..<Suc m] @ map Submit [0..<Suc m])
        = exec_schedule b alice nd ?W (map Submit [1..<Suc m])"
    by (simp only: exec_schedule_append b u s0)
  with r show ?thesis by (simp del: upt_Suc)
qed

text \<open>
  C13. Two runs of the program one after the other are both accepted, the second with the
  next nonce: the nonce is read fresh from the chain on every run.
\<close>

theorem main_sequential_runs:
  assumes "connect nd = Inr u" "api_new nd = Inr s" "main_call (ss_metadata s) = Some call"
    "nd_finalized_head nd = Inr (Some h)" "nd_header nd h = Inr (Some hdr)"
  shows "\<exists>x0 x1. w_results (exec_schedule b alice nd (start ch) [Build 0, Submit 0, Build 1, Submit 1])
                   = [(0, Inr ()), (1, Inr ())]
          \<and> w_built (exec_schedule b alice nd (start ch) [Build 0, Submit 0, Build 1, Submit 1]) 0 = Some x0
          \<and> w_built (exec_schedule b alice nd (start ch) [Build 0, Submit 0, Build 1, Submit 1]) 1 = Some x1
          \<and> se_nonce (xt_extra x1) = se_nonce (xt_extra x0) + 1"
proof -
  obtain x0 where x0: "snd (main_build b alice (node_at nd ch)) = Inr x0"
    and a0: "xt_address x0 = signer_public alice"
    and n0: "se_nonce (xt_extra x0) = ch_nonce ch (signer_public alice)"
    using build_at [OF assms] by blast
  from n0 a0 have c0: "se_nonce (xt_extra x0) = ch_nonce ch (xt_address x0)" by simp
  define ch1 where "ch1 = ch\<lparr>ch_nonce := (ch_nonce ch)(xt_address x0 := se_nonce (xt_extra x0) + 1)\<rparr>"
  obtain x1 where x1: "snd (main_build b alice (node_at nd ch1)) = Inr x1"
    and a1: "xt_address x1 = signer_public alice"
    and n1: "se_nonce (xt_extra x1) = ch_nonce ch1 (signer_public alice)"
    using build_at [OF assms] by blast
  from n1 a1 have c1: "se_nonce (xt_extra x1) = ch_nonce ch1 (xt_address x1)" by simp
  have n01: "se_nonce (xt_extra x1) = se_nonce (xt_extra x0) + 1" using n1 a0 by (simp add: ch1_def)
  show ?thesis
    using n01 by (simp add: exec_schedule_def start_def x0 apply_current [OF c0] ch1_def [symmetric] x1
        apply_current [OF c1])
qed


subsection \<open>Witnesses\<close>

lemma spec_node_builds:
  "\<exists>s call. connect spec_node = Inr () \<and> api_new spec_node = Inr s \<and> main_call (ss_metadata s) = Some call
     \<and> nd_finalized_head spec_node = Inr (Some (replicate 32 0xBB))
     \<and> nd_header spec_node (replicate 32 0xBB) = Inr (Some \<lparr>hd_parent_hash = replicate 32 0, hd_number = 1000\<rparr>)"
  by (simp add: connect_def api_new_def spec_node_def main_call_def compose_call_def pallet_by_name_def
      call_variant_by_name_def spec_metadata_def)

theorem main_nonce_race_witness:
  "\<exists>e. w_results (exec_schedule (\<lambda>_. replicate 32 0)
          \<lparr>signer_public = replicate 32 1, signer_sign = (\<lambda>_. replicate 64 2)\<rparr> spec_node
          (start \<lparr>ch_nonce = (\<lambda>_. 3)\<rparr>) (map Build [0..<Suc 2] @ map Submit [0..<Suc 2]))
        = (0, Inr ()) # map (\<lambda>i. (i, Inl e)) [1..<Suc 2]"
proof -
  obtain s call where "connect spec_node = Inr ()" "api_new spec_node = Inr s" "main_call (ss_metadata s) = Some call"
    "nd_finalized_head spec_node = Inr (Some (replicate 32 0xBB))"
    "nd_header spec_node (replicate 32 0xBB) = Inr (Some \<lparr>hd_parent_hash = replicate 32 0, hd_number = 1000\<rparr>)"
    using spec_node_builds by blast
  from main_nonce_race [OF this] show ?thesis .
qed

theorem main_sequential_runs_witness:
  "\<exists>x0 x1. w_results (exec_schedule (\<lambda>_. replicate 32 0)
          \<lparr>signer_public = replicate 32 1, signer_sign = (\<lambda>_. replicate 64 2)\<rparr> spec_node
          (start \<lparr>ch_nonce = (\<lambda>_. 3)\<rparr>) [Build 0, Submit 0, Build 1, Submit 1]) = [(0, Inr ()), (1, Inr ())]
     \<and> w_built (exec_schedule (\<lambda>_. replicate 32 0)
          \<lparr>signer_public = replicate 32 1, signer_sign = (\<lambda>_. replicate 64 2)\<rparr> spec_node
          (start \<lparr>ch_nonce = (\<lambda>_. 3)\<rparr>) [Build 0, Submit 0, Build 1, Submit 1]) 0 = Some x0
     \<and> w_built (exec_schedule (\<lambda>_. replicate 32 0)
          \<lparr>signer_public = replicate 32 1, signer_sign = (\<lambda>_. replicate 64 2)\<rparr> spec_node
          (start \<lparr>ch_nonce = (\<lambda>_. 3)\<rparr>) [Build 0, Submit 0, Build 1, Submit 1]) 1 = Some x1
     \<and> se_nonce (xt_extra x1) = se_nonce (xt_extra x0) + 1"
proof -
  obtain s call where "connect spec_node = Inr ()" "api_new spec_node = Inr s" "main_call (ss_metadata s) = Some call"
    "nd_finalized_head spec_node = Inr (Some (replicate 32 0xBB))"
    "nd_header spec_node (replicate 32 0xBB) = Inr (Some \<lparr>hd_parent_hash = replicate 32 0, hd_number = 1000\<rparr>)"
    using spec_node_builds by blast
  from main_sequential_runs [OF this] show ?thesis .
qed

theorem main_runs_nonce_invariant_witness:
  "reach_world (\<lambda>_. replicate 32 0) \<lparr>signer_public = replicate 32 1, signer_sign = (\<lambda>_. replicate 64 2)\<rparr> spec_node
      \<lparr>ch_nonce = (\<lambda>_. 3)\<rparr>
      (exec_schedule (\<lambda>_. replicate 32 0) \<lparr>signer_public = replicate 32 1, signer_sign = (\<lambda>_. replicate 64 2)\<rparr>
         spec_node (start \<lparr>ch_nonce = (\<lambda>_. 3)\<rparr>) [Build 0, Build 1, Submit 0, Submit 1])
   \<and> ch_nonce (w_chain (exec_schedule (\<lambda>_. replicate 32 0)
         \<lparr>signer_public = replicate 32 1, signer_sign = (\<lambda>_. replicate 64 2)\<rparr>
         spec_node (start \<lparr>ch_nonce = (\<lambda>_. 3)\<rparr>) [Build 0, Build 1, Submit 0, Submit 1])) (replicate 32 1)
       = 3 + of_nat (accepted (exec_schedule (\<lambda>_. replicate 32 0)
         \<lparr>signer_public = replicate 32 1, signer_sign = (\<lambda>_. replicate 64 2)\<rparr>
         spec_node (start \<lparr>ch_nonce = (\<lambda>_. 3)\<rparr>) [Build 0, Build 1, Submit 0, Submit 1]))"
proof -
  have r: "reach_world (\<lambda>_. replicate 32 0) \<lparr>signer_public = replicate 32 1, signer_sign = (\<lambda>_. replicate 64 2)\<rparr> spec_node
      \<lparr>ch_nonce = (\<lambda>_. 3)\<rparr>
      (exec_schedule (\<lambda>_. replicate 32 0) \<lparr>signer_public = replicate 32 1, signer_sign = (\<lambda>_. replicate 64 2)\<rparr>
         spec_node (start \<lparr>ch_nonce = (\<lambda>_. 3)\<rparr>) [Build 0, Build 1, Submit 0, Submit 1])"
    by (intro reach_exec_schedule reach_start)
  from r main_runs_nonce_invariant [OF r] show ?thesis by simp
qed

end
