(* ===== verification/Console.thy ===== *)
theory Console
  imports Scenario
begin

text \<open>
  The program's console output: \<open>print_overview\<close> and the \<open>println!\<close> calls of
  \<open>src/main.rs\<close> (lines 39-52, 55, 75-76, 94), interleaved with the RPC requests in the
  order the source performs them. \<open>main_io\<close> is \<open>main\<close> with its output: a trace
  of requests and printed lines, and the outcome. \<open>requests_of\<close> and \<open>printed_of\<close>
  project a trace on its requests and on its standard output. The trace agrees with
  \<^const>\<open>main\<close> on the requests and the outcome; the theorems give the whole output of a
  successful run (also on the specification's scenario) and the number of lines a
  panicking run has printed (\<open>panic_lines\<close>).
\<close>

text \<open>One constructor per printed line, with the value it formats.\<close>

datatype console_line =
    MetadataOverview metadata
  | GenesisHashLine hash
  | RuntimeVersionLine runtime_version
  | TransactionVersionLine u32
  | SpecVersionLine u32
  | SignerNonceLine u32
  | FinalizedHeadLine hash
  | HeaderLine header
  | IncludedLine hash

datatype io_event = Request request | Print console_line

text \<open>Lines 39-52: the overview of the session's cached values, printed after \<open>set_signer\<close>.\<close>

definition session_lines :: "session \<Rightarrow> console_line list" where
  "session_lines api =
     [MetadataOverview (ss_metadata api), GenesisHashLine (ss_genesis_hash api),
      RuntimeVersionLine (ss_runtime_version api),
      TransactionVersionLine (rv_transaction_version (ss_runtime_version api)),
      SpecVersionLine (rv_spec_version (ss_runtime_version api))]"

text \<open>Line 94, after the submission: the block hash, printed only when both unwraps succeed.\<close>

definition outcome_lines :: "outcome \<Rightarrow> console_line list" where
  "outcome_lines out = (case out of Included h \<Rightarrow> [IncludedLine h] | Panicked _ \<Rightarrow> [])"

definition main_io :: "(bytes \<Rightarrow> hash) \<Rightarrow> signer \<Rightarrow> node \<Rightarrow> (io_event list \<times> outcome) option" where
  "main_io blake2_256 alice nd =
     (let t0 = [Request (Connect node_url)] in
      case connect nd of
        Inl e \<Rightarrow> Some (t0, Panicked (ConnectFailed e))
      | Inr _ \<Rightarrow>
      let t1 = t0 @ map Request [GetGenesisHash, GetMetadata, GetRuntimeVersion] in
      case api_new nd of
        Inl e \<Rightarrow> Some (t1, Panicked (ApiNewFailed e))
      | Inr api0 \<Rightarrow>
      let api = set_signer api0 alice;
          t2 = t1 @ map Print (session_lines api) @ [Request (GetAccountInfo (signer_public alice))] in
      case get_nonce nd api of
        Inl e \<Rightarrow> Some (t2, Panicked (NonceFailed e))
      | Inr nonce \<Rightarrow>
      let t3 = t2 @ [Print (SignerNonceLine nonce)] in
      case main_call (ss_metadata api) of
        None \<Rightarrow> Some (t3, Panicked ComposeCallFailed)
      | Some call \<Rightarrow>
      let t4 = t3 @ [Request GetFinalizedHead] in
      case nd_finalized_head nd of
        Inl e \<Rightarrow> Some (t4, Panicked (FinalizedHeadFailed e))
      | Inr None \<Rightarrow> Some (t4, Panicked NoFinalizedHead)
      | Inr (Some h) \<Rightarrow>
      let t5 = t4 @ [Request (GetHeader h)] in
      case nd_header nd h of
        Inl e \<Rightarrow> Some (t5, Panicked (HeaderFailed e))
      | Inr None \<Rightarrow> Some (t5, Panicked NoHeader)
      | Inr (Some hdr) \<Rightarrow>
      let t6 = t5 @ [Print (FinalizedHeadLine h), Print (HeaderLine hdr)];
          xt = compose_extrinsic_offline blake2_256 alice call (main_extrinsic_params api nonce hdr h);
          t7 = t6 @ [Request (SubmitAndWatch (encode_extrinsic xt))] in
      map_option (\<lambda>out. (t7 @ map Print (outcome_lines out), out)) (main_submit blake2_256 nd xt))"

subsection \<open>Projections of a trace\<close>

fun requests_of :: "io_event list \<Rightarrow> request list" where
  "requests_of [] = []"
| "requests_of (Request r # t) = r # requests_of t"
| "requests_of (Print _ # t) = requests_of t"

fun printed_of :: "io_event list \<Rightarrow> console_line list" where
  "printed_of [] = []"
| "printed_of (Request _ # t) = printed_of t"
| "printed_of (Print l # t) = l # printed_of t"

subsection \<open>Specification of the output\<close>

text \<open>The number of lines printed before each panic: none before the session exists, the
  five session lines before the nonce is known, and so on up to the eight lines before
  the submission.\<close>

fun panic_lines :: "panic \<Rightarrow> nat" where
  "panic_lines (ConnectFailed _) = 0"
| "panic_lines (ApiNewFailed _) = 0"
| "panic_lines (NonceFailed _) = 5"
| "panic_lines ComposeCallFailed = 6"
| "panic_lines (FinalizedHeadFailed _) = 6"
| "panic_lines NoFinalizedHead = 6"
| "panic_lines (HeaderFailed _) = 6"
| "panic_lines NoHeader = 6"
| "panic_lines (SubmitFailed _) = 8"
| "panic_lines NoBlockHash = 8"

subsection \<open>Lemmas\<close>

lemma requests_of_append [simp]: "requests_of (xs @ ys) = requests_of xs @ requests_of ys"
  by (induction xs rule: requests_of.induct) simp_all

lemma printed_of_append [simp]: "printed_of (xs @ ys) = printed_of xs @ printed_of ys"
  by (induction xs rule: printed_of.induct) simp_all

lemma requests_of_map [simp]:
  "requests_of (map Request rs) = rs" "requests_of (map Print ls) = []"
  by (induction rs) (simp_all, induction ls, simp_all)

lemma printed_of_map [simp]:
  "printed_of (map Request rs) = []" "printed_of (map Print ls) = ls"
  by (induction rs) (simp_all, induction ls, simp_all)

lemma submit_panic_lines: "main_submit b nd xt = Some (Panicked p) \<Longrightarrow> panic_lines p = 8"
  by (drule main_submit_stage) (cases p, simp_all)

lemma length_outcome_lines: "length (outcome_lines out) = (case out of Included _ \<Rightarrow> 1 | Panicked _ \<Rightarrow> 0)"
  by (simp add: outcome_lines_def split: outcome.split)

text \<open>
  The trace with output and the run of \<open>Pipeline\<close> agree: erasing the printed lines
  leaves the requests and the outcome of \<^const>\<open>main\<close>.
\<close>

lemma main_io_refines:
  "map_option (\<lambda>(t, out). (requests_of t, out)) (main_io b alice nd) = main b alice nd"
proof (cases rule: main_build_cases [of nd b alice])
  case (built u s info call h hdr)
  then show ?thesis
    by (simp add: main_io_def main_def get_nonce_def set_signer_def nonce_of_def option.map_comp
        o_def Let_def)
qed (simp_all add: main_io_def main_def get_nonce_def set_signer_def split: sum.splits option.splits)


text \<open>
  C21. The output of a successful run: the session overview, the nonce the extrinsic is
  signed with, the finalized head and the header whose number gave the era, and the
  including block, in this order and nothing else.
\<close>

theorem main_io_included_output:
  assumes "main_build b alice nd = (log, Inr xt)" and "api_new nd = Inr s"
    and "main_io b alice nd = Some (t, Included h)"
  shows "\<exists>h' hdr. nd_finalized_head nd = Inr (Some h') \<and> nd_header nd h' = Inr (Some hdr)
     \<and> se_era (xt_extra xt) = mortal period (ucast (hd_number hdr))
     \<and> printed_of t = session_lines (set_signer s alice) @
          [SignerNonceLine (se_nonce (xt_extra xt)), FinalizedHeadLine h', HeaderLine hdr, IncludedLine h]"
proof (cases rule: main_build_cases [of nd b alice])
  case (built u s' info call h' hdr)
  with assms(1,2) have s': "s' = s"
    and xt: "xt = compose_extrinsic_offline b alice call
                (main_extrinsic_params (set_signer s alice) (nonce_of info) hdr h')" by simp_all
  from built s' assms(3) have
    "printed_of t = session_lines (set_signer s alice) @
       [SignerNonceLine (nonce_of info), FinalizedHeadLine h', HeaderLine hdr, IncludedLine h]"
    by (auto simp: main_io_def get_nonce_def set_signer_def nonce_of_def Let_def outcome_lines_def)
  with built xt show ?thesis by (auto simp: compose_extrinsic_fields main_signed_extra)
qed (use assms in \<open>simp_all split: sum.splits\<close>)


text \<open>
  C22. The output shows how far a run got: a run that panics has printed exactly the
  lines of the stages before the failing one (none before the session exists, five
  before the nonce, six before the header, eight before the submission), and an
  included run prints nine lines. A failed call composition, a missing finalized head
  and a missing header leave the same six lines.
\<close>

theorem main_io_panic_output:
  "pred_option (\<lambda>(t, out). length (printed_of t) =
      (case out of Panicked p \<Rightarrow> panic_lines p | Included _ \<Rightarrow> 9)) (main_io b alice nd)"
proof (cases rule: main_build_cases [of nd b alice])
  case (built u s info call h hdr)
  let ?xt = "compose_extrinsic_offline b alice call
              (main_extrinsic_params (set_signer s alice) (nonce_of info) hdr h)"
  from built show ?thesis
    by (cases "main_submit b nd ?xt")
      (auto simp: main_io_def get_nonce_def set_signer_def nonce_of_def session_lines_def Let_def
        length_outcome_lines submit_panic_lines split: outcome.split)
qed (simp_all add: main_io_def get_nonce_def set_signer_def session_lines_def split: sum.splits option.splits)

subsection \<open>The specification's scenario, with its output\<close>

theorem main_io_included_output_witness:
  "\<exists>log xt t. main_build (\<lambda>_. replicate 32 0) \<lparr>signer_public = replicate 32 1, signer_sign = (\<lambda>_. replicate 64 2)\<rparr>
        spec_node = (log, Inr xt)
   \<and> main_io (\<lambda>_. replicate 32 0) \<lparr>signer_public = replicate 32 1, signer_sign = (\<lambda>_. replicate 64 2)\<rparr>
        spec_node = Some (t, Included (replicate 32 0xCC))
   \<and> printed_of t =
       [MetadataOverview spec_metadata, GenesisHashLine (replicate 32 0xAA),
        RuntimeVersionLine \<lparr>rv_spec_version = 100, rv_transaction_version = 5\<rparr>,
        TransactionVersionLine 5, SpecVersionLine 100, SignerNonceLine 3,
        FinalizedHeadLine (replicate 32 0xBB), HeaderLine \<lparr>hd_parent_hash = replicate 32 0, hd_number = 1000\<rparr>,
        IncludedLine (replicate 32 0xCC)]"
proof -
  let ?b = "\<lambda>_::bytes. replicate 32 (0::byte)"
  let ?alice = "\<lparr>signer_public = replicate 32 1, signer_sign = (\<lambda>_. replicate 64 (2::byte))\<rparr>"
  let ?s = "\<lparr>ss_genesis_hash = replicate 32 0xAA, ss_metadata = spec_metadata,
             ss_runtime_version = \<lparr>rv_spec_version = 100, rv_transaction_version = 5\<rparr>,
             ss_signer = None\<rparr>"
  have nd: "spec_node\<lparr>nd_submit := nd_submit spec_node\<rparr> = spec_node" by simp
  obtain log xt where mb: "main_build ?b ?alice spec_node = (log, Inr xt)"
    and ex: "xt_extra xt = \<lparr>se_era = Mortal 8 0, se_nonce = 3, se_tip = 0\<rparr>"
    using spec_build [of ?b ?alice "nd_submit spec_node"] unfolding nd by blast
  have a: "api_new spec_node = Inr ?s" by (simp add: api_new_def spec_node_def)
  obtain call where mc: "main_call spec_metadata = Some call"
    by (simp add: main_call_def compose_call_def pallet_by_name_def call_variant_by_name_def spec_metadata_def)
  have ms: "main_submit ?b spec_node x = Some (Included (replicate 32 0xCC))" for x
    by (simp add: main_submit_def submit_and_watch_until_def spec_node_def spec_node_watch report_outcome_def)
  have "connect spec_node = Inr ()" "nd_account_nonce spec_node (replicate 32 1) = Inr (Some 3)"
    "nd_finalized_head spec_node = Inr (Some (replicate 32 0xBB))"
    "nd_header spec_node (replicate 32 0xBB) = Inr (Some \<lparr>hd_parent_hash = replicate 32 0, hd_number = 1000\<rparr>)"
    by (simp_all add: connect_def spec_node_def)
  then have "\<exists>t. main_io ?b ?alice spec_node = Some (t, Included (replicate 32 0xCC))"
    using a mc by (simp add: main_io_def get_nonce_def set_signer_def ms Let_def)
  then obtain t where io: "main_io ?b ?alice spec_node = Some (t, Included (replicate 32 0xCC))" ..
  from main_io_included_output [OF mb a io] ex obtain h' hdr where
    "nd_finalized_head spec_node = Inr (Some h')" "nd_header spec_node h' = Inr (Some hdr)"
    "printed_of t = session_lines (set_signer ?s ?alice) @
       [SignerNonceLine 3, FinalizedHeadLine h', HeaderLine hdr, IncludedLine (replicate 32 0xCC)]"
    by auto
  then have "printed_of t =
       [MetadataOverview spec_metadata, GenesisHashLine (replicate 32 0xAA),
        RuntimeVersionLine \<lparr>rv_spec_version = 100, rv_transaction_version = 5\<rparr>,
        TransactionVersionLine 5, SpecVersionLine 100, SignerNonceLine 3,
        FinalizedHeadLine (replicate 32 0xBB), HeaderLine \<lparr>hd_parent_hash = replicate 32 0, hd_number = 1000\<rparr>,
        IncludedLine (replicate 32 0xCC)]"
    by (simp add: spec_node_def session_lines_def set_signer_def split: if_splits)
  with mb io show ?thesis by blast
qed

end
