(* ===== verification/Api_Join.thy ===== *)
theory Api_Join
  imports Scenario
begin

text \<open>
  The three fetches of \<open>Api::new\<close> (line 34) are not sequential: substrate-api-client
  starts the genesis-hash, metadata and runtime-version requests and joins them with
  \<open>futures::try_join3\<close>. The join records each answer as it arrives, returns the error
  of the first answer that is an error, and returns the three values once all have
  arrived successfully. Here the order in which the answers arrive is a parameter
  (\<open>order\<close>, a list of the fetches as they complete); a fetch that never completes
  leaves the join waiting, the value \<open>None\<close>. \<^const>\<open>api_new\<close> of \<open>Pipeline\<close> is the
  case where the answers arrive in the order the requests were issued.
\<close>

datatype fetch = FetchGenesisHash | FetchMetadata | FetchRuntimeVersion

definition all_fetches :: "fetch list" where
  "all_fetches = [FetchGenesisHash, FetchMetadata, FetchRuntimeVersion]"

text \<open>\<open>try_join3\<close> over the completion events: the values received so far, the first error
  ends the join, and the session is built once the three values are in.\<close>

fun join3 ::
  "node \<Rightarrow> fetch list \<Rightarrow> hash option \<Rightarrow> metadata option \<Rightarrow> runtime_version option
   \<Rightarrow> (rpc_error + session) option"
where
  "join3 nd [] (Some g) (Some md) (Some rv) =
     Some (Inr \<lparr>ss_genesis_hash = g, ss_metadata = md, ss_runtime_version = rv, ss_signer = None\<rparr>)"
| "join3 nd [] _ _ _ = None"
| "join3 nd (FetchGenesisHash # fs) g md rv =
     (case nd_genesis_hash nd of Inl e \<Rightarrow> Some (Inl e) | Inr x \<Rightarrow> join3 nd fs (Some x) md rv)"
| "join3 nd (FetchMetadata # fs) g md rv =
     (case nd_metadata nd of Inl e \<Rightarrow> Some (Inl e) | Inr x \<Rightarrow> join3 nd fs g (Some x) rv)"
| "join3 nd (FetchRuntimeVersion # fs) g md rv =
     (case nd_runtime_version nd of Inl e \<Rightarrow> Some (Inl e) | Inr x \<Rightarrow> join3 nd fs g md (Some x))"

definition api_new_join :: "node \<Rightarrow> fetch list \<Rightarrow> (rpc_error + session) option" where
  "api_new_join nd order = join3 nd order None None None"

subsection \<open>Specification: the first error in completion order\<close>

definition fetch_error :: "node \<Rightarrow> fetch \<Rightarrow> rpc_error option" where
  "fetch_error nd f =
     (case f of
        FetchGenesisHash \<Rightarrow> (case nd_genesis_hash nd of Inl e \<Rightarrow> Some e | Inr _ \<Rightarrow> None)
      | FetchMetadata \<Rightarrow> (case nd_metadata nd of Inl e \<Rightarrow> Some e | Inr _ \<Rightarrow> None)
      | FetchRuntimeVersion \<Rightarrow> (case nd_runtime_version nd of Inl e \<Rightarrow> Some e | Inr _ \<Rightarrow> None))"

fun first_error :: "node \<Rightarrow> fetch list \<Rightarrow> rpc_error option" where
  "first_error nd [] = None"
| "first_error nd (f # fs) = (case fetch_error nd f of Some e \<Rightarrow> Some e | None \<Rightarrow> first_error nd fs)"

subsection \<open>Lemmas\<close>

text \<open>The join on a suffix of the completion order: the first error of the suffix, or the
  session once every fetch has a value, from the ones received or in the suffix.\<close>

lemma join3_first_error:
  assumes "(g = None \<longrightarrow> FetchGenesisHash \<in> set fs) \<and> (md = None \<longrightarrow> FetchMetadata \<in> set fs)
      \<and> (rv = None \<longrightarrow> FetchRuntimeVersion \<in> set fs)"
    and "\<forall>x. g = Some x \<longrightarrow> nd_genesis_hash nd = Inr x"
    and "\<forall>x. md = Some x \<longrightarrow> nd_metadata nd = Inr x"
    and "\<forall>x. rv = Some x \<longrightarrow> nd_runtime_version nd = Inr x"
  shows "join3 nd fs g md rv = Some (case first_error nd fs of Some e \<Rightarrow> Inl e | None \<Rightarrow> api_new nd)"
  using assms
  by (induction nd fs g md rv rule: join3.induct) (auto simp: fetch_error_def api_new_def split: sum.splits)

lemma fetch_error_api_new: "fetch_error nd f = Some e \<Longrightarrow> \<exists>e'. api_new nd = Inl e'"
  by (cases f) (auto simp: fetch_error_def api_new_def split: sum.splits)

lemma first_error_api_new: "first_error nd fs = Some e \<Longrightarrow> \<exists>e'. api_new nd = Inl e'"
  by (induction fs) (auto intro: fetch_error_api_new split: option.splits)

text \<open>The sequential \<open>Api::new\<close> is the join with the answers in the order issued.\<close>

lemma api_new_join_in_order: "api_new_join nd all_fetches = Some (api_new nd)"
  by (simp add: api_new_join_def all_fetches_def api_new_def split: sum.splits)

text \<open>
  C23. For every order in which the three answers of \<open>Api::new\<close> arrive, the join
  returns, and it returns the error of the first failing fetch in that order, or, when
  none fails, the session of the sequential model. So whether the session is established
  does not depend on the timing of the answers, but which error is reported does.
\<close>

theorem api_new_join_order_independent:
  assumes "set order = set all_fetches"
  shows "api_new_join nd order = Some (case first_error nd order of Some e \<Rightarrow> Inl e | None \<Rightarrow> api_new nd)
       \<and> (\<forall>s. api_new_join nd order = Some (Inr s) \<longleftrightarrow> api_new nd = Inr s)"
proof -
  have j: "api_new_join nd order = Some (case first_error nd order of Some e \<Rightarrow> Inl e | None \<Rightarrow> api_new nd)"
    unfolding api_new_join_def using assms by (intro join3_first_error) (simp_all add: all_fetches_def)
  moreover have "api_new_join nd order = Some (Inr s) \<longleftrightarrow> api_new nd = Inr s" for s
  proof (cases "first_error nd order")
    case None
    with j show ?thesis by simp
  next
    case (Some e)
    with j first_error_api_new [OF Some] show ?thesis by auto
  qed
  ultimately show ?thesis by blast
qed

text \<open>Two failing fetches: in issue order the metadata error is reported, but if the
  runtime-version answer arrives first, its error is.\<close>

theorem api_new_join_order_independent_witness:
  "set [FetchRuntimeVersion, FetchMetadata, FetchGenesisHash] = set all_fetches
   \<and> api_new (spec_node\<lparr>nd_metadata := Inl ''metadata failed'', nd_runtime_version := Inl ''version failed''\<rparr>)
       = Inl ''metadata failed''
   \<and> api_new_join (spec_node\<lparr>nd_metadata := Inl ''metadata failed'', nd_runtime_version := Inl ''version failed''\<rparr>)
       [FetchRuntimeVersion, FetchMetadata, FetchGenesisHash] = Some (Inl ''version failed'')"
proof -
  let ?nd = "spec_node\<lparr>nd_metadata := Inl ''metadata failed'', nd_runtime_version := Inl ''version failed''\<rparr>"
  let ?ord = "[FetchRuntimeVersion, FetchMetadata, FetchGenesisHash]"
  have o: "set ?ord = set all_fetches" by (auto simp: all_fetches_def)
  have "first_error ?nd ?ord = Some ''version failed''" by (simp add: fetch_error_def)
  with api_new_join_order_independent [OF o, of ?nd] have j: "api_new_join ?nd ?ord = Some (Inl ''version failed'')"
    by simp
  have "api_new ?nd = Inl ''metadata failed''" by (simp add: api_new_def spec_node_def)
  with o j show ?thesis by blast
qed

end
