(* ===== verification/Spec2Isabelle.thy ===== *)
theory Spec2Isabelle
  imports Concurrency Console Api_Join
begin

text \<open>
  \<^bold>\<open>A verification model of simple-extrinsic-debug.\<close>

  The program (\<open>src/src/main.rs\<close>, one \<open>async fn main\<close>) connects to a Substrate
  node, builds one signed extrinsic calling \<open>TemplateModule::disassembled\<close> with three
  byte strings, submits it and waits until it is in a block. Its parts, in the order
  \<open>main\<close> uses them, and the theory that models each:

  \<^item> \<^bold>\<open>Chain session\<close> (lines 31-37): \<open>JsonrpseeClient::new\<close>, \<open>Api::new\<close> (genesis hash,
    metadata, runtime version) and \<open>set_signer\<close>. Theory \<open>Pipeline\<close>: \<^const>\<open>connect\<close>,
    \<^const>\<open>api_new\<close>, \<^const>\<open>set_signer\<close> over a \<open>node\<close> record that answers each
    RPC of the run (an error, or a value), and the \<open>session\<close> record for \<open>api\<close>.
  \<^item> \<^bold>\<open>Account context\<close> (line 54): \<^const>\<open>get_nonce\<close>, the signer's nonce, 0 for
    an account the chain does not know.
  \<^item> \<^bold>\<open>Call encoder\<close> (lines 57-70): \<^const>\<open>disassembled_call\<close> and \<^const>\<open>main_call\<close>
    in \<open>Pipeline\<close>; the macro \<open>compose_call!\<close>, the call's SCALE encoding and the
    runtime's decoder in \<open>Call\<close> (\<^const>\<open>compose_call\<close>, \<^const>\<open>encode_call\<close>,
    \<^const>\<open>decode_call\<close>), over the \<open>Compact<u32>\<close> and \<open>Vec<u8>\<close> codecs of
    \<open>Scale\<close>.
  \<^item> \<^bold>\<open>Mortality window\<close> (lines 73-82): the finalized head, its header, \<open>period = 5\<close>
    and \<open>Era::mortal\<close>. Theory \<open>Era\<close> models \<open>sp_runtime::generic::Era\<close>:
    \<^const>\<open>mortal\<close> (next power of two, clamped to \<open>[4, 2^16]\<close>, phase quantized),
    \<^const>\<open>birth\<close>, \<^const>\<open>death\<close> and the two-byte era codec
    (\<^const>\<open>era_encode\<close>, \<^const>\<open>era_decode\<close>), on \<open>u64\<close> words with the library's
    wrapping and saturating arithmetic.
  \<^item> \<^bold>\<open>Extrinsic builder\<close> (lines 80-92): \<open>GenericAdditionalParams\<close>,
    \<open>GenericExtrinsicParams::new\<close>, \<open>compose_extrinsic_offline!\<close> and the
    \<open>UncheckedExtrinsicV4\<close> encoding, in \<open>Extrinsic\<close>, with the node's decoder of it
    (\<^const>\<open>decode_extrinsic\<close>, over the \<open>Compact<u128>\<close> decoder of \<open>Scale\<close> for the
    tip); the signature primitive and the BLAKE2-256 hasher are parameters
    (\<open>signer\<close>, \<open>blake2_256\<close>).
  \<^item> \<^bold>\<open>Submission tracker\<close> (line 93): \<open>submit_and_watch_extrinsic_until\<close> with
    \<open>XtStatus::InBlock\<close>, in \<open>Watch\<close>: the subscription is an infinite stream of
    events (a status, an error, the end of the stream, or \<open>Idle\<close>, a moment in which the
    node sends nothing), and the loop \<^const>\<open>watch_until\<close> is a
    \<^theory_text>\<open>partial_function (option)\<close>, \<open>None\<close> being a watch that never returns.
    The inductive \<^const>\<open>watch_run\<close> is the status state machine of the specification
    (section 4.6), one rule per branch of the loop.
  \<^item> \<^bold>\<open>The run\<close>: \<^const>\<open>main_build\<close> (lines 31-92) and \<^const>\<open>main\<close> (lines 30-95)
    compose the steps in the order of the source. A run yields the list of requests sent
    to the node and its outcome: the panic at one of the \<open>unwrap()\<close>s (datatype
    \<open>panic\<close>, one constructor per unwrap and failure) or the hash of the including
    block; \<open>None\<close> is a run that never ends.
  \<^item> \<^bold>\<open>Diagnostic output\<close> (lines 39-52, 55, 75-76, 94): theory \<open>Console\<close>
    gives \<open>main\<close> its standard output. \<^const>\<open>main_io\<close> is the run as a trace of
    requests and printed lines (datatype \<open>console_line\<close>, one constructor per
    \<open>println!\<close> and \<open>print_overview\<close>), each line placed where the source prints it.
  \<^item> \<^bold>\<open>Several runs\<close> (specification, section 5): theory \<open>Concurrency\<close> runs the
    program's build (lines 31-92) and submission (line 93) as two atomic actions per run
    against a chain that stores account nonces; the node answers line 54 from it, and
    \<^const>\<open>apply_extrinsic\<close> is the runtime's nonce check. \<^const>\<open>exec_schedule\<close>
    interleaves the actions of several runs; \<^const>\<open>reach_world\<close> is the inductive set
    of the worlds some interleaving reaches.

  The library code the program calls (sp-runtime, parity-scale-codec,
  substrate-api-client and its compose macros) is modelled from those crates' behaviour,
  as far as the program's use of it reaches. \<^const>\<open>api_new\<close> reports the errors of
  the three fetches of \<open>Api::new\<close> in the order they are issued; theory \<open>Api_Join\<close>
  models \<open>try_join3\<close>, which joins them, as a fold over the answers in the order they
  arrive (\<^const>\<open>join3\<close>, \<^const>\<open>api_new_join\<close>; a fetch that never answers leaves
  it waiting, \<open>None\<close>), and relates the two.

  \<^bold>\<open>What is proved.\<close> \<open>Pipeline\<close> holds the steps of \<open>main\<close> and the case rule
  \<open>main_build_cases\<close> that the proofs about a run share. The theorems about the program
  are in \<open>Run_Build\<close> (the extrinsic), \<open>Run_Outcome\<close> (the outcome of a run),
  \<open>Scenario\<close> (the specification's mock node, with the concrete runs that witness the
  other theorems' hypotheses), \<open>Concurrency\<close> (several runs) and \<open>Console\<close> (the output), each
  after a text naming its claim:
  \<^item> the end-to-end scenario of the specification;
  \<^item> the order of the requests and the stage at which each panic stops the run;
  \<^item> the fields and the signed payload of the built extrinsic, and that the submitted
    bytes decode on the node to what was signed;
  \<^item> the mortality window: for every \<open>u32\<close> block number, exactly the eight blocks from
    the finalized block on;
  \<^item> that for every order of the answers of the joined fetches of \<open>Api::new\<close> the join
    returns the first error in that order or the session of the sequential model, so
    whether the session is established does not depend on the timing, although which
    error is reported does;
  \<^item> the call round trip, and that composition does not check the argument count: for
    every metadata declaring another arity the runtime rejects the composed call;
  \<^item> the submission step against its specification, the first decisive event deciding;
    the outcome for each failure status and for InBlock and Finalized; the exact
    condition under which the program never returns; that two of its unwraps never fail;
  \<^item> that the node reads no other bytes as the program's transaction (every codec on the
    way admits one encoding), and that a failing unsubscribe hides an inclusion, and that
    on every node a status stream that errors after the node accepted the extrinsic ends
    the run in the same panic as a submission the node never saw;
  \<^item> the whole output of a successful run (on the scenario as well), and how many lines a
    run that panics has printed at each stage;
  \<^item> for several runs: overlapping runs sign one nonce and only one is accepted;
    sequential runs are both accepted with consecutive nonces; and, by rule induction over
    the reachable worlds, every built extrinsic carries a nonce the chain has held (never
    one ahead of it) and the signer's chain nonce counts the accepted submissions.

  Each component theory carries its own lemmas: \<open>Era\<close> the closed form of
  \<^const>\<open>mortal\<close>, its well-formedness and its characterisation by the least power of two
  at or above the period, and the era codec's round trip; \<open>Scale\<close> the
  \<open>Compact<u32>\<close>, \<open>Compact<u128>\<close> and vector round trips; \<open>Call\<close> the call round
  trip for well-formed metadata; \<open>Extrinsic\<close> the round trip of the whole transaction.
  Each decoder also accepts only canonical input (\<open>era_canonical\<close>,
  \<open>compact_u32_canonical\<close>, \<open>compact_u128_canonical\<close>, \<open>vec_canonical\<close>,
  \<open>call_canonical\<close>, \<open>extrinsic_canonical\<close>): what it decodes is the encoding of its
  result followed by the rest, the second law of a prism;
  \<open>Watch\<close> that the watch loop is decided by the first decisive event
  (\<open>watch_until_spec\<close>, by fixpoint induction for the direction that it returns only
  after one) and that it computes exactly the outcomes of \<^const>\<open>watch_run\<close>
  (\<open>watch_until_iff_run\<close>, by rule induction one way).

  \<^bold>\<open>Bounds and fuel.\<close> No fuel is used: the only loop of the program, the watch,
  is a \<^theory_text>\<open>partial_function (option)\<close>, and its termination is characterised
  exactly (it returns iff a decisive event occurs). The recursion computing the next
  power of two terminates by a measure. Block numbers are \<open>u32\<close> (the header's
  number type) widened to \<open>u64\<close>, the argument type of \<open>Era::mortal\<close>.

  \<^bold>\<open>Not modelled.\<close> The request log of \<^const>\<open>main\<close> leaves out the unsubscribe
  call made after a decisive status; its failure is modelled (\<open>sub_unsubscribe\<close>). No
  manifest pins the substrate-api-client version: the watch follows the versions whose
  submit-and-watch stops at the requested status; later versions also fetch the block's
  events after \<open>InBlock\<close> and fail on \<open>ExtrinsicFailed\<close>, which is not modelled, and the
  statuses \<^const>\<open>is_expected\<close> rejects are those of that library code. The text of a printed line (the \<open>Debug\<close> formatting) is not
  modelled; a line is the value it formats. The generated module \<open>gm\<close> is absent from the repository; only the fields of
  \<open>Disassembled\<close> are used. The transport, the metadata decoder, the key ring and the
  cryptographic primitives are libraries behind the \<open>node\<close> record and the signer and
  hasher parameters. The chain of \<open>Concurrency\<close> is modelled from the specification
  only as far as the nonce goes: it checks and advances account nonces and nothing else
  of a block's execution. The imports and the \<open>mod gm\<close> declaration (lines 1-16) carry
  no behaviour. The decoder of the submitted transaction reads only the address and
  signature variants the program produces.
\<close>

end
